(* ===== verification/Prelude.thy ===== *)
theory Prelude
  imports Main "HOL-Library.Word" "HOL-Library.AList" "HOL-Library.Char_ord"
    "HOL-Library.List_Lexorder" "HOL-Library.Sublist" "HOL-Library.Multiset"
    "HOL-Library.Code_Target_Numeral"
begin

text \<open>
  Shared vocabulary of the development: results (a Rust \<open>Result<T, E>\<close> is the sum
  \<open>'e + 't\<close> with \<open>Inl\<close> for \<open>Err\<close>), the functions of \<open>str\<close> that the program calls
  (a \<open>string\<close> is the list of the UTF-8 bytes of a Rust \<open>String\<close>, so \<open>length\<close> is
  Rust's \<open>len()\<close>), and the concurrent hash map as an association list.
\<close>

named_theorems res_simps \<open>unfolding of the result combinators\<close>
named_theorems dash_simps \<open>what a map holds after one of its operations\<close>

section \<open>Results\<close>

text \<open>Rust's question mark operator: continue with the value, or return the error.\<close>

fun and_then :: "'e + 'a \<Rightarrow> ('a \<Rightarrow> 'e + 'b) \<Rightarrow> 'e + 'b" where
  "and_then (Inl e) f = Inl e"
| "and_then (Inr a) f = f a"

fun map_err :: "('e \<Rightarrow> 'f) \<Rightarrow> 'e + 'a \<Rightarrow> 'f + 'a" where
  "map_err f (Inl e) = Inl (f e)"
| "map_err f (Inr a) = Inr a"

definition ok_or :: "'e \<Rightarrow> 'a option \<Rightarrow> 'e + 'a" where
  "ok_or e x = (case x of None \<Rightarrow> Inl e | Some a \<Rightarrow> Inr a)"

text \<open>\<open>Option<Result<T, E>>::transpose\<close> after \<open>Option::map\<close>.\<close>

definition map_transpose :: "('a \<Rightarrow> 'e + 'b) \<Rightarrow> 'a option \<Rightarrow> 'e + 'b option" where
  "map_transpose f x = (case x of None \<Rightarrow> Inr None
     | Some a \<Rightarrow> (case f a of Inl e \<Rightarrow> Inl e | Inr b \<Rightarrow> Inr (Some b)))"

lemma and_then_Inr [res_simps]:
  "and_then r f = Inr b \<longleftrightarrow> (\<exists>a. r = Inr a \<and> f a = Inr b)"
  by (cases r) auto

lemma and_then_Inl [res_simps]:
  "and_then r f = Inl e \<longleftrightarrow> r = Inl e \<or> (\<exists>a. r = Inr a \<and> f a = Inl e)"
  by (cases r) auto

lemma map_err_Inr [res_simps]: "map_err f r = Inr b \<longleftrightarrow> r = Inr b"
  by (cases r) auto

lemma map_err_Inl [res_simps]: "map_err f r = Inl e \<longleftrightarrow> (\<exists>d. r = Inl d \<and> e = f d)"
  by (cases r) auto

lemma ok_or_Inr [res_simps]: "ok_or e x = Inr a \<longleftrightarrow> x = Some a"
  by (cases x) (auto simp: ok_or_def)

lemma ok_or_Inl [res_simps]: "ok_or e x = Inl d \<longleftrightarrow> x = None \<and> d = e"
  by (cases x) (auto simp: ok_or_def)

section \<open>Strings\<close>

fun strip_prefix :: "string \<Rightarrow> string \<Rightarrow> string option" where
  "strip_prefix [] s = Some s"
| "strip_prefix (p # ps) [] = None"
| "strip_prefix (p # ps) (c # cs) = (if p = c then strip_prefix ps cs else None)"

definition starts_with :: "string \<Rightarrow> string \<Rightarrow> bool" where
  "starts_with s p = (strip_prefix p s \<noteq> None)"

text \<open>\<open>str::split_once\<close> and \<open>str::split\<close> with a one-byte separator.\<close>

fun split_once :: "char \<Rightarrow> string \<Rightarrow> (string \<times> string) option" where
  "split_once c [] = None"
| "split_once c (x # xs) =
     (if x = c then Some ([], xs)
      else map_option (\<lambda>(a, b). (x # a, b)) (split_once c xs))"

fun split_on :: "char \<Rightarrow> string \<Rightarrow> string list" where
  "split_on c [] = [[]]"
| "split_on c (x # xs) =
     (if x = c then [] # split_on c xs
      else (case split_on c xs of [] \<Rightarrow> [[x]] | s # ss \<Rightarrow> (x # s) # ss))"

fun join_with :: "string \<Rightarrow> string list \<Rightarrow> string" where
  "join_with sep [] = []"
| "join_with sep [s] = s"
| "join_with sep (s # ss) = s @ sep @ join_with sep ss"

definition trim_end_char :: "char \<Rightarrow> string \<Rightarrow> string" where
  "trim_end_char c s = rev (dropWhile (\<lambda>x. x = c) (rev s))"

definition trim_start_char :: "char \<Rightarrow> string \<Rightarrow> string" where
  "trim_start_char c s = dropWhile (\<lambda>x. x = c) s"

definition byte :: "char \<Rightarrow> nat" where
  "byte c = of_char c"

text \<open>
  The characters of a UTF-8 string, each as its byte sequence: a continuation byte
  (\<open>0x80\<close> to \<open>0xBF\<close>) belongs to the character before it.
\<close>

definition is_continuation :: "char \<Rightarrow> bool" where
  "is_continuation c = (128 \<le> byte c \<and> byte c < 192)"

fun utf8_chars :: "string \<Rightarrow> string list" where
  "utf8_chars [] = []"
| "utf8_chars (c # cs) =
     (case utf8_chars cs of
        [] \<Rightarrow> [[c]]
      | s # ss \<Rightarrow> (if is_continuation (hd cs) then (c # s) # ss else [c] # s # ss))"

text \<open>Unicode \<open>White_Space\<close>, which \<open>str::trim\<close> removes, by UTF-8 byte sequence.\<close>

fun is_whitespace :: "string \<Rightarrow> bool" where
  "is_whitespace [a] = ((9 \<le> byte a \<and> byte a \<le> 13) \<or> byte a = 32)"
| "is_whitespace [a, b] = (byte a = 194 \<and> (byte b = 133 \<or> byte b = 160))"
| "is_whitespace [a, b, c] =
     ((byte a = 225 \<and> byte b = 154 \<and> byte c = 128)
      \<or> (byte a = 226 \<and> byte b = 128 \<and>
           ((128 \<le> byte c \<and> byte c \<le> 138) \<or> byte c = 168 \<or> byte c = 169 \<or> byte c = 175))
      \<or> (byte a = 226 \<and> byte b = 129 \<and> byte c = 159)
      \<or> (byte a = 227 \<and> byte b = 128 \<and> byte c = 128))"
| "is_whitespace _ = False"

definition trim :: "string \<Rightarrow> string" where
  "trim s = concat (rev (dropWhile is_whitespace (rev (dropWhile is_whitespace (utf8_chars s)))))"

definition is_digit :: "char \<Rightarrow> bool" where
  "is_digit c = (48 \<le> byte c \<and> byte c \<le> 57)"

definition is_upper :: "char \<Rightarrow> bool" where
  "is_upper c = (65 \<le> byte c \<and> byte c \<le> 90)"

definition is_lower :: "char \<Rightarrow> bool" where
  "is_lower c = (97 \<le> byte c \<and> byte c \<le> 122)"

definition is_ascii_alphanumeric :: "char \<Rightarrow> bool" where
  "is_ascii_alphanumeric c = (is_digit c \<or> is_upper c \<or> is_lower c)"

definition to_ascii_lowercase :: "string \<Rightarrow> string" where
  "to_ascii_lowercase = map (\<lambda>c. if is_upper c then char_of (byte c + 32) else c)"

definition digit_char :: "nat \<Rightarrow> char" where
  "digit_char d = char_of (if d < 10 then d + 48 else d + 87)"

text \<open>Digits of a number in a radix (at least 2), most significant first.\<close>

fun digits :: "nat \<Rightarrow> nat \<Rightarrow> string" where
  "digits r n =
     (if r < 2 \<or> n < r then [digit_char n] else digits r (n div r) @ [digit_char (n mod r)])"

declare digits.simps [simp del]

definition show_nat :: "nat \<Rightarrow> string" where
  "show_nat n = digits 10 n"

definition show_int :: "int \<Rightarrow> string" where
  "show_int i = (if i < 0 then ''-'' @ show_nat (nat (- i)) else show_nat (nat i))"

text \<open>A text between single quotes, as the messages write it.\<close>

definition quoted :: "string \<Rightarrow> string" where
  "quoted s = CHR 0x27 # s @ [CHR 0x27]"

text \<open>\<open>contains\<close>: a substring test.\<close>

definition contains_str :: "string \<Rightarrow> string \<Rightarrow> bool" where
  "contains_str s sub = sublist sub s"

lemma strip_prefix_Some: "strip_prefix p s = Some r \<longleftrightarrow> s = p @ r"
  by (induction p s rule: strip_prefix.induct) auto

lemma starts_with_iff: "starts_with s p \<longleftrightarrow> prefix p s"
proof -
  have "strip_prefix p s = None \<longleftrightarrow> (\<forall>r. s \<noteq> p @ r)"
    by (metis not_Some_eq strip_prefix_Some)
  then show ?thesis by (auto simp: starts_with_def prefix_def)
qed

lemma split_on_nonempty [simp]: "split_on c s \<noteq> []"
  by (induction s) (auto split: list.split)

lemma split_on_append:
  "split_on c (a @ c # b) = split_on c a @ split_on c b"
proof (induction a)
  case Nil
  then show ?case by simp
next
  case (Cons x a)
  then show ?case by (cases "split_on c a") auto
qed

lemma split_once_first: "c \<notin> set a \<Longrightarrow> split_once c (a @ c # b) = Some (a, b)"
  by (induction a) auto

lemma split_once_none: "c \<notin> set a \<Longrightarrow> split_once c a = None"
  by (induction a) auto

lemma concat_utf8_chars [simp]: "concat (utf8_chars s) = s"
proof (induction s)
  case (Cons c cs)
  then show ?case by (cases "utf8_chars cs") auto
qed simp

lemma utf8_chars_nonempty: "x \<in> set (utf8_chars s) \<Longrightarrow> x \<noteq> []"
proof (induction s arbitrary: x)
  case (Cons c cs)
  then show ?case by (cases "utf8_chars cs") (auto split: if_splits)
qed simp

section \<open>Concurrent maps\<close>

text \<open>
  A \<open>DashMap<K, V>\<close>: an association list whose order stands for the iteration order.
  Every operation of the map is atomic; how the program's calls interleave is the
  business of the components.
\<close>

type_synonym ('k, 'v) dash_map = "('k \<times> 'v) list"

definition dm_get :: "('k, 'v) dash_map \<Rightarrow> 'k \<Rightarrow> 'v option" where
  "dm_get m k = map_of m k"

definition dm_insert :: "'k \<Rightarrow> 'v \<Rightarrow> ('k, 'v) dash_map \<Rightarrow> ('k, 'v) dash_map" where
  "dm_insert k v m = AList.update k v m"

definition dm_remove :: "'k \<Rightarrow> ('k, 'v) dash_map \<Rightarrow> ('k, 'v) dash_map" where
  "dm_remove k m = filter (\<lambda>(k', _). k' \<noteq> k) m"

definition dm_retain :: "('k \<Rightarrow> 'v \<Rightarrow> bool) \<Rightarrow> ('k, 'v) dash_map \<Rightarrow> ('k, 'v) dash_map" where
  "dm_retain p m = filter (\<lambda>(k, v). p k v) m"

abbreviation dm_keys :: "('k, 'v) dash_map \<Rightarrow> 'k list" where
  "dm_keys m \<equiv> map fst m"

definition dm_wf :: "('k, 'v) dash_map \<Rightarrow> bool" where
  "dm_wf m = distinct (dm_keys m)"

lemma dm_get_insert [dash_simps]: "dm_get (dm_insert k v m) = (dm_get m)(k \<mapsto> v)"
  by (simp add: dm_get_def dm_insert_def update_conv' fun_eq_iff)

lemma map_of_filter_key: "map_of (filter (\<lambda>(k', _). k' \<noteq> k) m) = (map_of m)(k := None)"
  by (induction m) auto

lemma dm_get_remove [dash_simps]: "dm_get (dm_remove k m) = (dm_get m)(k := None)"
  by (simp add: dm_get_def dm_remove_def map_of_filter_key fun_eq_iff)

lemma dm_get_Nil [dash_simps]: "dm_get [] k = None"
  by (simp add: dm_get_def)

lemma map_of_filter_NoneI: "k \<notin> fst ` set m \<Longrightarrow> map_of (filter (\<lambda>(k, v). p k v) m) k = None"
  by (induction m) auto

lemma dm_get_retain [dash_simps]:
  assumes "dm_wf m"
  shows "dm_get (dm_retain p m) k =
    (case dm_get m k of None \<Rightarrow> None | Some v \<Rightarrow> if p k v then Some v else None)"
  using assms unfolding dm_get_def dm_retain_def dm_wf_def
  by (induction m) (auto simp: map_of_filter_NoneI)

lemma dm_wf_ops [simp, intro]:
  "dm_wf []"
  "dm_wf m \<Longrightarrow> dm_wf (dm_insert k v m)"
  "dm_wf m \<Longrightarrow> dm_wf (dm_remove k m)"
  "dm_wf m \<Longrightarrow> dm_wf (dm_retain p m)"
  by (auto simp: dm_wf_def dm_insert_def dm_remove_def dm_retain_def
      distinct_update distinct_map_filter)

lemma dm_get_in: "dm_wf m \<Longrightarrow> dm_get m k = Some v \<longleftrightarrow> (k, v) \<in> set m"
  by (simp add: dm_get_def dm_wf_def)

lemma length_dm_insert:
  "length (dm_insert k v m) = (if dm_get m k = None then Suc (length m) else length m)"
proof -
  have "length (dm_insert k v m) = length (map fst (AList.update k v m))"
    by (simp add: dm_insert_def)
  also have "\<dots> = (if k \<in> set (map fst m) then length m else Suc (length m))"
    by (simp only: update_keys) simp
  also have "\<dots> = (if dm_get m k = None then Suc (length m) else length m)"
    by (auto simp: dm_get_def map_of_eq_None_iff)
  finally show ?thesis .
qed

lemma length_dm_remove_le: "length (dm_remove k m) \<le> length m"
  by (simp add: dm_remove_def)

lemma length_dm_retain_le: "length (dm_retain p m) \<le> length m"
  by (simp add: dm_retain_def)

lemma length_dm_remove:
  "dm_wf m \<Longrightarrow> k \<in> set (dm_keys m) \<Longrightarrow> Suc (length (dm_remove k m)) = length m"
proof (induction m)
  case (Cons x m)
  have "filter (\<lambda>(k', _). k' \<noteq> fst x) m = m" if "fst x \<notin> fst ` set m"
    using that by (induction m) auto
  with Cons show ?case by (cases x) (auto simp: dm_wf_def dm_remove_def)
qed simp

end
