(* ===== verification/Json.thy ===== *)
theory Json
  imports Prelude
begin

text \<open>
  \<open>serde_json::Value\<close> as the program uses it. The crate is built without
  \<open>preserve_order\<close>, so an object is a map ordered by key: an association list in key
  order, with the map operations the source calls. A number is an integer or the text of a
  float. Parsing and serialising (\<open>serde_json::from_slice\<close>, \<open>to_vec\<close>) are arguments of the
  definitions that use them.
\<close>

datatype number = Integer int | Float string

datatype json =
    Null
  | Bool bool
  | Number number
  | String string
  | Array "json list"
  | Object "(string \<times> json) list"

text \<open>The two directions of the codec, as the program calls them (\<open>Inl\<close> an error's text).\<close>

type_synonym from_slice = "string \<Rightarrow> json option"
type_synonym to_vec = "json \<Rightarrow> string + string"

definition number_to_string :: "number \<Rightarrow> string" where
  "number_to_string n = (case n of Integer i \<Rightarrow> show_int i | Float t \<Rightarrow> t)"

fun obj_insert :: "string \<Rightarrow> 'a \<Rightarrow> (string \<times> 'a) list \<Rightarrow> (string \<times> 'a) list" where
  "obj_insert k v [] = [(k, v)]"
| "obj_insert k v ((k', v') # m) =
     (if k = k' then (k, v) # m
      else if k < k' then (k, v) # (k', v') # m
      else (k', v') # obj_insert k v m)"

definition obj_remove :: "string \<Rightarrow> (string \<times> 'a) list \<Rightarrow> (string \<times> 'a) list" where
  "obj_remove k m = filter (\<lambda>(k', _). k' \<noteq> k) m"

text \<open>\<open>Value::get\<close> with a string index, and the accessors.\<close>

fun jget :: "string \<Rightarrow> json \<Rightarrow> json option" where
  "jget k (Object m) = map_of m k"
| "jget k _ = None"

fun as_str :: "json \<Rightarrow> string option" where
  "as_str (String s) = Some s"
| "as_str _ = None"

fun as_bool :: "json \<Rightarrow> bool option" where
  "as_bool (Bool b) = Some b"
| "as_bool _ = None"

text \<open>\<open>Value::as_i64\<close>: an integer within the range of \<open>i64\<close>.\<close>

fun as_i64 :: "json \<Rightarrow> int option" where
  "as_i64 (Number (Integer i)) = (if - (2 ^ 63) \<le> i \<and> i < 2 ^ 63 then Some i else None)"
| "as_i64 _ = None"

text \<open>
  \<open>body[k] = v\<close>: \<open>Null\<close> becomes an object, any other value that is not an object panics
  (\<open>None\<close>).
\<close>

fun index_assign :: "string \<Rightarrow> json \<Rightarrow> json \<Rightarrow> json option" where
  "index_assign k v (Object m) = Some (Object (obj_insert k v m))"
| "index_assign k v Null = Some (Object [(k, v)])"
| "index_assign k v _ = None"

fun is_object :: "json \<Rightarrow> bool" where
  "is_object (Object _) = True"
| "is_object _ = False"

lemma map_of_obj_insert [simp]: "map_of (obj_insert k v m) = (map_of m)(k \<mapsto> v)"
  by (induction k v m rule: obj_insert.induct) (auto simp: fun_eq_iff)

lemma map_of_obj_remove [simp]: "map_of (obj_remove k m) = (map_of m)(k := None)"
  unfolding obj_remove_def by (rule map_of_filter_key)

lemma set_obj_insert: "set (obj_insert k v m) \<subseteq> insert (k, v) (set m)"
  by (induction k v m rule: obj_insert.induct) auto

lemma obj_insert_mem: "(k, v) \<in> set (obj_insert k v m)"
  by (induction k v m rule: obj_insert.induct) auto

lemma jget_Some_object: "jget k v = Some x \<Longrightarrow> \<exists>m. v = Object m \<and> map_of m k = Some x"
  by (cases v) auto

lemma sorted_obj_insert:
  "sorted_wrt (<) (map fst m) \<Longrightarrow> sorted_wrt (<) (map fst (obj_insert k v m))"
proof (induction k v m rule: obj_insert.induct)
  case (2 k v k' v' m)
  have sub: "\<And>a b. (a, b) \<in> set (obj_insert k v m) \<Longrightarrow> a = k \<or> a \<in> fst ` set m"
    using set_obj_insert [of k v m] by force
  consider "k = k'" | "k < k'" | "k' < k" by (rule linorder_cases)
  then show ?case
  proof cases
    case 1
    with 2 show ?thesis by simp
  next
    case 2
    with "2.prems" show ?thesis by (auto intro: order.strict_trans)
  next
    case 3
    with 2 show ?thesis using sub by fastforce
  qed
qed simp

lemma sorted_obj_remove:
  "sorted_wrt (<) (map fst m) \<Longrightarrow> sorted_wrt (<) (map fst (obj_remove k m))"
  unfolding obj_remove_def by (induction m) auto

text \<open>
  What \<open>serde_json\<close> documents and some properties rely on: every value can be serialised,
  and parsing what was serialised gives the value back.
\<close>

definition codec_law :: "from_slice \<Rightarrow> to_vec \<Rightarrow> bool" where
  "codec_law from_slice to_vec \<longleftrightarrow> (\<forall>v. \<exists>b. to_vec v = Inr b \<and> from_slice b = Some v)"

end
