(* ===== verification/Db_Models.thy ===== *)
theory Db_Models
  imports Json
begin

text \<open>
  The data of \<open>src/src/db/models.rs\<close>: providers, models, API keys, their partial updates and
  the log events. A \<open>DateTime<Utc>\<close> is the number of nanoseconds since the epoch;
  \<open>chrono\<close>'s \<open>DateTime::from_timestamp(secs, 0)\<close> is the argument \<open>from_ts\<close> of the
  definitions that call it. Record fields carry a prefix where the source uses one name in
  several structs.
\<close>

type_synonym datetime = int
type_synonym from_ts = "int \<Rightarrow> datetime option"

definition timestamp :: "datetime \<Rightarrow> int" where
  "timestamp dt = dt div 1000000000"

definition unix_epoch :: datetime where
  "unix_epoch = 0"

text \<open>What \<open>chrono\<close> documents: a timestamp in range is that many seconds after the epoch.\<close>

definition from_ts_law :: "from_ts \<Rightarrow> bool" where
  "from_ts_law from_ts \<longleftrightarrow>
     (\<forall>s d. from_ts s = Some d \<longrightarrow> d = s * 1000000000) \<and> from_ts 0 = Some 0"

section \<open>Providers, models and API keys\<close>

datatype provider_type = OpenAICompat | DeepSeek | Zhipu | Ollama | Llamacpp

definition all_provider_types :: "provider_type list" where
  "all_provider_types = [OpenAICompat, DeepSeek, Zhipu, Ollama, Llamacpp]"

text \<open>\<open>AsRef<str>\<close>, as \<open>strum\<close> derives it from the attributes of the enum.\<close>

fun to_db :: "provider_type \<Rightarrow> string" where
  "to_db OpenAICompat = ''openai_compat''"
| "to_db DeepSeek = ''deepseek''"
| "to_db Zhipu = ''zhipu''"
| "to_db Ollama = ''ollama''"
| "to_db Llamacpp = ''llamacpp''"

fun type_message :: "provider_type \<Rightarrow> string" where
  "type_message OpenAICompat = ''OpenAI Compatible''"
| "type_message DeepSeek = ''DeepSeek''"
| "type_message Zhipu = ''Zhipu''"
| "type_message Ollama = ''Ollama''"
| "type_message Llamacpp = ''llama.cpp''"

definition from_db :: "string \<Rightarrow> provider_type" where
  "from_db s = (case find (\<lambda>t. to_db t = s) all_provider_types of
     Some t \<Rightarrow> t | None \<Rightarrow> OpenAICompat)"

fun supports_endpoint :: "provider_type \<Rightarrow> string \<Rightarrow> bool" where
  "supports_endpoint DeepSeek path = (path \<in> {''/chat/completions'', ''/responses''})"
| "supports_endpoint Zhipu path = (path \<in> {''/chat/completions'', ''/embeddings''})"
| "supports_endpoint _ path =
     (path \<in> {''/chat/completions'', ''/completions'', ''/embeddings'', ''/responses''})"

record provider =
  prov_id :: string
  prov_name :: string
  prov_type :: provider_type
  prov_base_url :: string
  prov_api_key :: "string option"
  prov_enabled :: bool
  prov_created_at :: datetime
  prov_updated_at :: datetime

record model =
  model_id :: string
  model_name :: string
  model_provider_id :: string
  model_upstream :: string
  model_enabled :: bool
  model_created_at :: datetime
  model_updated_at :: datetime

record api_key =
  key_id :: string
  key_hash :: string
  key_display :: string
  key_name :: string
  key_created_at :: datetime
  key_updated_at :: datetime
  key_enabled :: bool
  key_expires_at :: "datetime option"

definition masked :: "api_key \<Rightarrow> string" where
  "masked k = key_display k"

record provider_update =
  pu_id :: string
  pu_name :: "string option"
  pu_type :: "provider_type option"
  pu_base_url :: "string option"
  pu_api_key :: "string option"
  pu_enabled :: "bool option"

record model_update =
  mu_name :: string
  mu_provider_id :: "string option"
  mu_upstream :: "string option"
  mu_enabled :: "bool option"

record api_key_update =
  ku_id :: string
  ku_name :: "string option"
  ku_enabled :: "bool option"
  ku_expires_at :: "datetime option"

record api_key_info =
  info_id :: string
  info_name :: string
  info_enabled :: bool
  info_expires_at :: "datetime option"
  info_created_at :: datetime

record api_key_context =
  ctx_name :: "string option"

section \<open>Log events\<close>

record access_event =
  ae_timestamp :: datetime
  ae_request_id :: string
  ae_method :: string
  ae_path :: string
  ae_status :: int
  ae_latency_ms :: int
  ae_client_ip :: "string option"

record proxy_event =
  pe_timestamp :: datetime
  pe_request_id :: string
  pe_api_key_name :: "string option"
  pe_model_name :: string
  pe_provider_name :: string
  pe_prompt_tokens :: "int option"
  pe_completion_tokens :: "int option"
  pe_total_tokens :: "int option"
  pe_cached_tokens :: "int option"
  pe_latency_ms :: int
  pe_status :: string
  pe_endpoint :: string
  pe_is_streaming :: bool
  pe_ttft_ms :: "int option"
  pe_upstream_model :: string
  pe_provider_type :: string
  pe_response_body_size :: "int option"
  pe_error_message :: "string option"
  pe_client_ip :: "string option"

record audit_event =
  au_timestamp :: datetime
  au_request_id :: string
  au_action :: string
  au_resource :: string
  au_resource_id :: string
  au_detail :: "string option"

datatype log_event =
    Access access_event
  | Proxy proxy_event
  | Audit audit_event
  | Shutdown

section \<open>Facts\<close>

lemma from_db_to_db [simp]: "from_db (to_db t) = t"
  by (cases t) (simp_all add: from_db_def all_provider_types_def)

lemma all_provider_types_complete: "t \<in> set all_provider_types"
  by (cases t) (simp_all add: all_provider_types_def)

text \<open>
  A provider type survives being stored: reading back the text that was written gives the
  same type; distinct types have distinct texts; and a text no type is written as reads as
  the default type.
\<close>

theorem provider_type_roundtrip:
  "from_db (to_db t) = t \<and> (to_db t = to_db u \<longleftrightarrow> t = u)
    \<and> (s \<notin> to_db ` set all_provider_types \<longrightarrow> from_db s = OpenAICompat)"
proof -
  have "to_db t = to_db u \<longleftrightarrow> t = u" by (metis from_db_to_db)
  moreover have "from_db s = OpenAICompat" if "s \<notin> to_db ` set all_provider_types"
    using that by (auto simp: from_db_def all_provider_types_def)
  ultimately show ?thesis by simp
qed

end
