(* ===== verification/Errors.thy ===== *)
theory Errors
  imports Prelude
begin

text \<open>
  \<open>src/src/error.rs\<close>, the error type of the store (\<open>src/src/db/store.rs\<close>) and
  \<open>src/src/blocking.rs\<close>: how a failure becomes the status and body a client sees. The
  request id that \<open>into_response\<close> stamps into a body is the argument \<open>rid\<close>.
\<close>

record ait_error =
  err_message :: string
  err_code :: nat
  err_type :: string
  err_detail :: "string option"
  err_request_id :: "string option"

type_synonym http_error = "nat \<times> ait_error"

datatype db_error =
    NotFound string
  | LimitExceeded string
  | Duplicate string
  | Storage string

datatype blocking_error = Join | Timeout

definition mk_error :: "string \<Rightarrow> nat \<Rightarrow> string \<Rightarrow> ait_error" where
  "mk_error msg c t =
     \<lparr>err_message = msg, err_code = c, err_type = t, err_detail = None, err_request_id = None\<rparr>"

definition bad_request :: "string \<Rightarrow> ait_error" where
  "bad_request msg = mk_error msg 400 ''invalid_request_error''"

definition upstream_error :: "nat \<Rightarrow> string \<Rightarrow> ait_error" where
  "upstream_error status msg = mk_error msg status ''upstream_error''"

definition with_detail :: "ait_error \<Rightarrow> string \<Rightarrow> ait_error" where
  "with_detail e d = e\<lparr>err_detail := Some d\<rparr>"

text \<open>\<open>StatusCode::from_u16\<close> accepts 100 to 999; anything else falls back to 500.\<close>

definition status_code :: "ait_error \<Rightarrow> nat" where
  "status_code e = (if 100 \<le> err_code e \<and> err_code e < 1000 then err_code e else 500)"

definition from_db_error :: "db_error \<Rightarrow> ait_error" where
  "from_db_error e = (case e of
     NotFound msg \<Rightarrow> mk_error msg 404 ''not_found_error''
   | LimitExceeded msg \<Rightarrow> mk_error msg 409 ''invalid_request_error''
   | Duplicate msg \<Rightarrow> mk_error msg 409 ''invalid_request_error''
   | Storage msg \<Rightarrow> mk_error msg 500 ''internal_error'')"

definition into_response :: "string option \<Rightarrow> ait_error \<Rightarrow> http_error" where
  "into_response rid e =
     (let e' = (if err_request_id e = None then e\<lparr>err_request_id := rid\<rparr> else e)
      in (status_code e', e'))"

definition internal_error :: "string option \<Rightarrow> http_error" where
  "internal_error rid =
     into_response rid (mk_error ''Internal server error'' 500 ''internal_error'')"

definition not_found :: "string option \<Rightarrow> string \<Rightarrow> http_error" where
  "not_found rid msg = into_response rid (mk_error msg 404 ''not_found_error'')"

definition unauthorized :: "string option \<Rightarrow> string \<Rightarrow> http_error" where
  "unauthorized rid msg = into_response rid (mk_error msg 401 ''auth_error'')"

definition db_error_response :: "string option \<Rightarrow> http_error" where
  "db_error_response rid = internal_error rid"

text \<open>What is serialised to the client: every field but \<open>detail\<close>.\<close>

definition client_view :: "ait_error \<Rightarrow> string \<times> nat \<times> string \<times> string option" where
  "client_view e = (err_message e, err_code e, err_type e, err_request_id e)"

lemmas error_defs = bad_request_def upstream_error_def with_detail_def mk_error_def
  status_code_def into_response_def internal_error_def not_found_def unauthorized_def
  db_error_response_def

section \<open>Blocking work\<close>

text \<open>
  \<open>run_blocking\<close>: the closure's value, unless it panicked or 30 seconds went by. Which of
  the three happens is the environment's choice, the first argument.
\<close>

datatype blocking_outcome = Completed | Panicked | TimedOut

definition run_blocking :: "blocking_outcome \<Rightarrow> 'a \<Rightarrow> blocking_error + 'a" where
  "run_blocking out x = (case out of
     Completed \<Rightarrow> Inr x | Panicked \<Rightarrow> Inl Join | TimedOut \<Rightarrow> Inl Timeout)"

lemma run_blocking_Inr [res_simps]: "run_blocking out x = Inr y \<longleftrightarrow> out = Completed \<and> y = x"
  by (cases out) (auto simp: run_blocking_def)

end
