(* ===== verification/Dlp.thy ===== *)
theory Dlp
  imports Json
begin

text \<open>
  \<open>src/src/dlp.rs\<close> and \<open>src/src/utils.rs\<close>: the sensitive-value scanner and the masking of
  values for logs and admin responses. The Aho-Corasick automaton is a crate: a matcher is a
  function from a text to the indices of the patterns its \<open>find_iter\<close> reports, in order, and
  \<open>AhoCorasick::new\<close> is the argument \<open>ac_new\<close>, which may fail. \<open>ac_law\<close> states what the
  crate documents and the scanner relies on.
\<close>

type_synonym matcher = "string \<Rightarrow> nat list"
type_synonym ac_builder = "string list \<Rightarrow> matcher option"

record dlp_config =
  cfg_enabled :: bool
  sensitive_values :: "string list"
  cfg_scan_numbers :: bool

record dlp_scanner =
  sc_enabled :: bool
  sc_rules :: "string list"
  sc_matcher :: "matcher option"
  sc_scan_numbers :: bool

definition dlp_new :: "ac_builder \<Rightarrow> dlp_config \<Rightarrow> dlp_scanner" where
  "dlp_new ac_new config =
     (let rs = filter (\<lambda>v. v \<noteq> []) (sensitive_values config);
          en = (cfg_enabled config \<and> rs \<noteq> []);
          mat = (if en then ac_new rs else None)
      in \<lparr>sc_enabled = (en \<and> mat \<noteq> None), sc_rules = rs, sc_matcher = mat,
          sc_scan_numbers = cfg_scan_numbers config\<rparr>)"

fun scan_hits :: "nat list \<Rightarrow> nat option \<Rightarrow> nat option" where
  "scan_hits [] best = best"
| "scan_hits (idx # idxs) best =
     (let best' = Some (case best of Some prev \<Rightarrow> min prev idx | None \<Rightarrow> idx)
      in if best' = Some 0 then best' else scan_hits idxs best')"

definition scan_text :: "string \<Rightarrow> matcher \<Rightarrow> nat option \<Rightarrow> nat option" where
  "scan_text text mat best = scan_hits (mat text) best"

fun scan_value :: "json \<Rightarrow> matcher \<Rightarrow> bool \<Rightarrow> nat option \<Rightarrow> nat option"
  and scan_items :: "json list \<Rightarrow> matcher \<Rightarrow> bool \<Rightarrow> nat option \<Rightarrow> nat option"
  and scan_fields :: "(string \<times> json) list \<Rightarrow> matcher \<Rightarrow> bool \<Rightarrow> nat option \<Rightarrow> nat option" where
  "scan_value val mat sn best =
     (if best = Some 0 then best
      else (case val of
              String s \<Rightarrow> scan_text s mat best
            | Number n \<Rightarrow> if sn then scan_text (number_to_string n) mat best else best
            | Array items \<Rightarrow> scan_items items mat sn best
            | Object m \<Rightarrow> scan_fields m mat sn best
            | _ \<Rightarrow> best))"
| "scan_items [] mat sn best = best"
| "scan_items (item # items) mat sn best =
     (let best' = scan_value item mat sn best
      in if best' = Some 0 then best' else scan_items items mat sn best')"
| "scan_fields [] mat sn best = best"
| "scan_fields ((k, v) # m) mat sn best =
     (let best' = scan_value v mat sn best
      in if best' = Some 0 then best' else scan_fields m mat sn best')"

definition dlp_scan :: "dlp_scanner \<Rightarrow> json \<Rightarrow> string option" where
  "dlp_scan sc body =
     (if \<not> sc_enabled sc then None
      else (case sc_matcher sc of
              None \<Rightarrow> None
            | Some mat \<Rightarrow>
                map_option (\<lambda>idx. sc_rules sc ! idx) (scan_value body mat (sc_scan_numbers sc) None)))"

section \<open>Masking\<close>

definition mask_sensitive_value :: "string \<Rightarrow> nat \<Rightarrow> nat \<Rightarrow> string" where
  "mask_sensitive_value value prefix_len suffix_len =
     (let chars = utf8_chars value
      in if length chars \<le> prefix_len + suffix_len then ''******''
         else concat (take prefix_len chars) @ ''******'' @
              concat (drop (length chars - suffix_len) chars))"

definition mask_api_key :: "string \<Rightarrow> string" where
  "mask_api_key key = mask_sensitive_value key 6 3"

section \<open>What the scanner promises\<close>

text \<open>The texts that are inspected: string leaves, and number leaves when asked for.\<close>

fun leaves :: "bool \<Rightarrow> json \<Rightarrow> string list"
  and field_leaves :: "bool \<Rightarrow> (string \<times> json) list \<Rightarrow> string list" where
  "leaves sn (String s) = [s]"
| "leaves sn (Number n) = (if sn then [number_to_string n] else [])"
| "leaves sn (Array items) = concat (map (leaves sn) items)"
| "leaves sn (Object m) = field_leaves sn m"
| "leaves sn _ = []"
| "field_leaves sn [] = []"
| "field_leaves sn ((k, v) # m) = leaves sn v @ field_leaves sn m"

text \<open>
  The crate's contract for an automaton over non-empty patterns: a reported pattern occurs in
  the text, and a text in which a pattern occurs has at least one report.
\<close>

definition ac_law :: "string list \<Rightarrow> matcher \<Rightarrow> bool" where
  "ac_law rs mat \<longleftrightarrow>
     (\<forall>t. (\<forall>i \<in> set (mat t). i < length rs \<and> contains_str t (rs ! i))
        \<and> (mat t = [] \<longleftrightarrow> (\<forall>r \<in> set rs. \<not> contains_str t r)))"

text \<open>All hits, without the early exits.\<close>

definition hits :: "bool \<Rightarrow> matcher \<Rightarrow> json \<Rightarrow> nat list" where
  "hits sn mat v = concat (map mat (leaves sn v))"

definition min_hit :: "nat option \<Rightarrow> nat list \<Rightarrow> nat option" where
  "min_hit best xs = (case best of
     None \<Rightarrow> (if xs = [] then None else Some (Min (set xs)))
   | Some b \<Rightarrow> Some (Min (insert b (set xs))))"

lemma min_hit_Some_0 [simp]: "min_hit (Some 0) xs = Some 0"
  by (simp add: min_hit_def Min_eq_iff)

lemma min_hit_Nil [simp]: "min_hit best [] = best"
  by (cases best) (simp_all add: min_hit_def)

lemma min_hit_Cons:
  "min_hit best (x # xs) = min_hit (Some (case best of None \<Rightarrow> x | Some b \<Rightarrow> min b x)) xs"
proof (cases best)
  case (Some b)
  have "Min (insert b (insert x (set xs))) = Min (insert (min b x) (set xs))"
    by (cases "xs = []") (simp_all add: min.assoc)
  with Some show ?thesis by (simp add: min_hit_def)
qed (simp add: min_hit_def)

lemma min_hit_append: "min_hit best (xs @ ys) = min_hit (min_hit best xs) ys"
  by (induction xs arbitrary: best) (simp_all add: min_hit_Cons)

lemma scan_hits_min: "scan_hits xs best = min_hit best xs"
  by (induction xs best rule: scan_hits.induct) (auto simp: min_hit_Cons Let_def split: option.splits)

declare scan_value.simps [simp del]

lemma scan_value_min:
  "scan_value v mat sn best = min_hit best (concat (map mat (leaves sn v)))"
  "scan_items vs mat sn best = min_hit best (concat (map mat (concat (map (leaves sn) vs))))"
  "scan_fields m mat sn best = min_hit best (concat (map mat (field_leaves sn m)))"
proof (induction v mat sn best and vs mat sn best and m mat sn best
    rule: scan_value_scan_items_scan_fields.induct)
  case (1 val mat sn best)
  then show ?case
    by (cases "best = Some 0"; cases val) (simp_all add: scan_value.simps scan_text_def scan_hits_min)
next
  case (3 item items mat sn best)
  then show ?case
    by (cases "min_hit best (concat (map mat (leaves sn item))) = Some 0")
      (simp_all add: min_hit_append)
next
  case (5 k v m mat sn best)
  then show ?case
    by (cases "min_hit best (concat (map mat (leaves sn v))) = Some 0")
      (simp_all add: min_hit_append)
qed simp_all

lemma dlp_new_fields:
  assumes "sc_enabled (dlp_new ac_new config)"
  shows "sc_rules (dlp_new ac_new config) = filter (\<lambda>v. v \<noteq> []) (sensitive_values config)"
    and "ac_new (sc_rules (dlp_new ac_new config)) = sc_matcher (dlp_new ac_new config)"
    and "sc_matcher (dlp_new ac_new config) \<noteq> None"
    and "sc_scan_numbers (dlp_new ac_new config) = cfg_scan_numbers config"
  using assms by (auto simp: dlp_new_def Let_def split: if_splits)

lemma scan_hit:
  assumes "sc_enabled sc" and "sc_matcher sc = Some mat"
  shows "dlp_scan sc body = (if hits (sc_scan_numbers sc) mat body = [] then None
     else Some (sc_rules sc ! Min (set (hits (sc_scan_numbers sc) mat body))))"
  using assms by (simp add: dlp_scan_def scan_value_min hits_def min_hit_def del: concat_eq_Nil_conv)

lemma hits_iff:
  assumes "ac_law rs mat"
  shows "i \<in> set (hits sn mat v) \<Longrightarrow>
      i < length rs \<and> (\<exists>t \<in> set (leaves sn v). contains_str t (rs ! i))"
    and "hits sn mat v = [] \<longleftrightarrow>
      (\<forall>t \<in> set (leaves sn v). \<forall>r \<in> set rs. \<not> contains_str t r)"
  using assms by (auto simp: hits_def ac_law_def)

section \<open>Properties\<close>

text \<open>
  C36: Detection is exact. For an enabled scanner, whatever the nesting of the body and despite
  the early exits, a request is let through exactly when no configured non-empty value occurs
  in an inspected leaf; and a value that is reported is a configured one that does occur in
  one. Object keys are never inspected, numbers only when configured.
\<close>

theorem dlp_scan_exact:
  assumes "sc_enabled (dlp_new ac_new config)"
    and "\<And>rs mat. ac_new rs = Some mat \<Longrightarrow> ac_law rs mat"
  shows "(dlp_scan (dlp_new ac_new config) body = None \<longleftrightarrow>
      (\<forall>t \<in> set (leaves (cfg_scan_numbers config) body).
         \<forall>r \<in> set (sensitive_values config). r \<noteq> [] \<longrightarrow> \<not> contains_str t r))
    \<and> (\<forall>r. dlp_scan (dlp_new ac_new config) body = Some r \<longrightarrow>
         r \<in> set (sensitive_values config)
         \<and> (\<exists>t \<in> set (leaves (cfg_scan_numbers config) body). contains_str t r))"
proof -
  let ?sc = "dlp_new ac_new config" and ?sn = "cfg_scan_numbers config"
  note f = dlp_new_fields [OF assms(1)]
  obtain mat where mat: "sc_matcher ?sc = Some mat" using f(3) by blast
  then have law: "ac_law (sc_rules ?sc) mat" using assms(2) f(2) by metis
  have scan: "dlp_scan ?sc body = (if hits ?sn mat body = [] then None
      else Some (sc_rules ?sc ! Min (set (hits ?sn mat body))))"
    using scan_hit [OF assms(1) mat] f(4) by simp
  have rs: "sc_rules ?sc = filter (\<lambda>v. v \<noteq> []) (sensitive_values config)" by (rule f(1))
  show ?thesis
  proof (cases "hits ?sn mat body = []")
    case True
    with hits_iff(2) [OF law, of ?sn body] scan rs show ?thesis by auto
  next
    case False
    let ?i = "Min (set (hits ?sn mat body))"
    have "?i \<in> set (hits ?sn mat body)" using False by (intro Min_in) auto
    from hits_iff(1) [OF law this] have i: "?i < length (sc_rules ?sc)"
      "\<exists>t \<in> set (leaves ?sn body). contains_str t (sc_rules ?sc ! ?i)" by auto
    then have mem: "sc_rules ?sc ! ?i \<in> set (sc_rules ?sc)" by simp
    have r: "dlp_scan ?sc body = Some (sc_rules ?sc ! ?i)" using scan False by simp
    from mem have "sc_rules ?sc ! ?i \<in> set (sensitive_values config)" "sc_rules ?sc ! ?i \<noteq> []"
      by (auto simp: rs)
    with i(2) show ?thesis unfolding r by auto
  qed
qed

text \<open>A direct matcher, which reports the patterns that occur, meets the contract.\<close>

definition direct_matcher :: "ac_builder" where
  "direct_matcher rs = Some (\<lambda>t. filter (\<lambda>i. contains_str t (rs ! i)) [0..<length rs])"

lemma direct_matcher_law:
  assumes "direct_matcher rs = Some mat"
  shows "ac_law rs mat"
proof -
  have mat: "mat t = filter (\<lambda>i. contains_str t (rs ! i)) [0..<length rs]" for t
    using assms by (auto simp: direct_matcher_def)
  have "mat t = [] \<longleftrightarrow> (\<forall>i < length rs. \<not> contains_str t (rs ! i))" for t
    by (auto simp: mat filter_empty_conv)
  then show ?thesis
    unfolding ac_law_def all_set_conv_all_nth [of rs] by (auto simp: mat)
qed

theorem dlp_scan_exact_witness:
  "dlp_scan (dlp_new direct_matcher \<lparr>cfg_enabled = True, sensitive_values = [''secret''],
       cfg_scan_numbers = False\<rparr>) (Object [(''m'', Array [String ''my secret key''])]) \<noteq> None"
proof -
  have "sc_enabled (dlp_new direct_matcher \<lparr>cfg_enabled = True, sensitive_values = [''secret''],
       cfg_scan_numbers = False\<rparr>)"
    by (simp add: dlp_new_def direct_matcher_def Let_def)
  moreover have "contains_str ''my secret key'' ''secret''"
    by code_simp
  ultimately show ?thesis
    using dlp_scan_exact [of direct_matcher, OF _ direct_matcher_law] by auto
qed

text \<open>
  Masking hides the middle: two values with the same leading and trailing characters that
  both have more characters than are shown are masked to the same text (which is why neither
  their middle nor their length can be read off a log line), and a value short enough to be
  shown whole is not shown at all. Characters are Unicode characters, not bytes.
\<close>

theorem mask_hides_middle:
  "(length (utf8_chars v) \<le> p + s \<longrightarrow> mask_sensitive_value v p s = ''******'')
    \<and> (p + s < length (utf8_chars v) \<and> p + s < length (utf8_chars w)
        \<and> take p (utf8_chars v) = take p (utf8_chars w)
        \<and> drop (length (utf8_chars v) - s) (utf8_chars v)
            = drop (length (utf8_chars w) - s) (utf8_chars w)
       \<longrightarrow> mask_sensitive_value v p s = mask_sensitive_value w p s)"
  by (simp add: mask_sensitive_value_def Let_def)

end
