(* ===== verification/Store.thy ===== *)
theory Store
  imports Db_Models Errors Dlp
begin

text \<open>
  The SQLite store: \<open>src/src/db/store.rs\<close> and \<open>src/src/db/store/\<close>. The database is the three
  tables that \<open>create_tables\<close> declares, as lists of typed rows; each statement of the source
  is a function on them that reports the constraint it violates. Every operation holds the
  writer (or one reader) from its first statement to its last, so an operation is one step of
  the database's state. What the environment decides is a \<open>db_env\<close>: the clock, a fresh UUID,
  the random draws, the digest function, the driver's error texts, and for the n-th statement
  of the operation whether the driver fails it (\<open>env_fault\<close>).
\<close>

section \<open>The environment of an operation\<close>

datatype sqlite_error = UniqueViolation string | ForeignKeyViolation

record db_env =
  env_now :: datetime
  env_uuid :: string
  env_rng :: "nat \<Rightarrow> nat"
  env_sha256 :: "string \<Rightarrow> string"
  env_from_ts :: from_ts
  env_sql_text :: "sqlite_error \<Rightarrow> string"
  env_fault :: "nat \<Rightarrow> string option"

text \<open>The n-th statement goes through, or fails with the driver's text (\<open>to_storage\<close>).\<close>

definition sql :: "db_env \<Rightarrow> nat \<Rightarrow> db_error + unit" where
  "sql env n = (case env_fault env n of Some t \<Rightarrow> Inl (Storage t) | None \<Rightarrow> Inr ())"

definition to_storage :: "db_env \<Rightarrow> sqlite_error \<Rightarrow> db_error" where
  "to_storage env e = Storage (env_sql_text env e)"

definition hash_key :: "db_env \<Rightarrow> string \<Rightarrow> string" where
  "hash_key env k = env_sha256 env k"

definition ts :: "db_env \<Rightarrow> int \<Rightarrow> datetime" where
  "ts env t = (case env_from_ts env t of Some d \<Rightarrow> d | None \<Rightarrow> unix_epoch)"

definition opt_ts :: "db_env \<Rightarrow> int option \<Rightarrow> datetime option" where
  "opt_ts env t = map_option (ts env) t"

section \<open>Tables\<close>

record provider_row =
  pr_id :: string
  pr_name :: string
  pr_type :: string
  pr_base_url :: string
  pr_api_key :: "string option"
  pr_enabled :: int
  pr_created_at :: int
  pr_updated_at :: int

record model_row =
  mr_id :: string
  mr_name :: string
  mr_provider_id :: string
  mr_upstream :: string
  mr_enabled :: int
  mr_created_at :: int
  mr_updated_at :: int

record api_key_row =
  kr_id :: string
  kr_key_hash :: string
  kr_display :: string
  kr_name :: string
  kr_enabled :: int
  kr_created_at :: int
  kr_updated_at :: int
  kr_expires_at :: "int option"

record database =
  providers :: "provider_row list"
  models :: "model_row list"
  api_keys :: "api_key_row list"

definition empty_db :: database where
  "empty_db = \<lparr>providers = [], models = [], api_keys = []\<rparr>"

text \<open>What \<open>WHERE column = value\<close> selects, changes and deletes.\<close>

definition tbl_find :: "('r \<Rightarrow> string) \<Rightarrow> string \<Rightarrow> 'r list \<Rightarrow> 'r option" where
  "tbl_find key k rows = find (\<lambda>r. key r = k) rows"

definition tbl_update :: "('r \<Rightarrow> string) \<Rightarrow> string \<Rightarrow> ('r \<Rightarrow> 'r) \<Rightarrow> 'r list \<Rightarrow> 'r list" where
  "tbl_update key k f rows = map (\<lambda>r. if key r = k then f r else r) rows"

definition tbl_delete :: "('r \<Rightarrow> string) \<Rightarrow> string \<Rightarrow> 'r list \<Rightarrow> 'r list" where
  "tbl_delete key k rows = filter (\<lambda>r. key r \<noteq> k) rows"

text \<open>The statements that can violate a constraint, and the delete that cascades.\<close>

definition insert_provider_row :: "provider_row \<Rightarrow> database \<Rightarrow> sqlite_error + database" where
  "insert_provider_row r db =
     (if tbl_find pr_id (pr_id r) (providers db) \<noteq> None then Inl (UniqueViolation ''providers.id'')
      else Inr (db\<lparr>providers := providers db @ [r]\<rparr>))"

definition insert_model_row :: "model_row \<Rightarrow> database \<Rightarrow> sqlite_error + database" where
  "insert_model_row r db =
     (if tbl_find mr_id (mr_id r) (models db) \<noteq> None then Inl (UniqueViolation ''models.id'')
      else if tbl_find mr_name (mr_name r) (models db) \<noteq> None then
        Inl (UniqueViolation ''models.name'')
      else if tbl_find pr_id (mr_provider_id r) (providers db) = None then Inl ForeignKeyViolation
      else Inr (db\<lparr>models := models db @ [r]\<rparr>))"

definition update_model_row ::
    "string \<Rightarrow> string \<Rightarrow> string \<Rightarrow> int \<Rightarrow> int \<Rightarrow> database \<Rightarrow> sqlite_error + database" where
  "update_model_row name provider_id upstream_model enabled updated_at db =
     (if tbl_find mr_name name (models db) \<noteq> None
         \<and> tbl_find pr_id provider_id (providers db) = None then Inl ForeignKeyViolation
      else Inr (db\<lparr>models := tbl_update mr_name name
        (\<lambda>r. r\<lparr>mr_provider_id := provider_id, mr_upstream := upstream_model,
               mr_enabled := enabled, mr_updated_at := updated_at\<rparr>) (models db)\<rparr>))"

definition delete_provider_row :: "string \<Rightarrow> database \<Rightarrow> database" where
  "delete_provider_row i db =
     db\<lparr>providers := tbl_delete pr_id i (providers db),
        models := (if tbl_find pr_id i (providers db) = None then models db
                   else tbl_delete mr_provider_id i (models db))\<rparr>"

definition insert_api_key_row :: "api_key_row \<Rightarrow> database \<Rightarrow> sqlite_error + database" where
  "insert_api_key_row r db =
     (if tbl_find kr_id (kr_id r) (api_keys db) \<noteq> None then Inl (UniqueViolation ''api_keys.id'')
      else if tbl_find kr_key_hash (kr_key_hash r) (api_keys db) \<noteq> None then
        Inl (UniqueViolation ''api_keys.key_hash'')
      else Inr (db\<lparr>api_keys := api_keys db @ [r]\<rparr>))"

text \<open>The end of an operation: an error rolls the transaction back.\<close>

definition transact :: "database \<Rightarrow> db_error + 'a \<times> database \<Rightarrow> (db_error + 'a) \<times> database" where
  "transact db r = (case r of Inl e \<Rightarrow> (Inl e, db) | Inr (a, db') \<Rightarrow> (Inr a, db'))"

section \<open>Rows as values\<close>

definition row_to_provider :: "db_env \<Rightarrow> provider_row \<Rightarrow> provider" where
  "row_to_provider env r =
     \<lparr>prov_id = pr_id r, prov_name = pr_name r, prov_type = from_db (pr_type r),
      prov_base_url = pr_base_url r, prov_api_key = pr_api_key r,
      prov_enabled = (pr_enabled r \<noteq> 0), prov_created_at = ts env (pr_created_at r),
      prov_updated_at = ts env (pr_updated_at r)\<rparr>"

definition row_to_model :: "db_env \<Rightarrow> model_row \<Rightarrow> model" where
  "row_to_model env r =
     \<lparr>model_id = mr_id r, model_name = mr_name r, model_provider_id = mr_provider_id r,
      model_upstream = mr_upstream r, model_enabled = (mr_enabled r \<noteq> 0),
      model_created_at = ts env (mr_created_at r), model_updated_at = ts env (mr_updated_at r)\<rparr>"

definition row_to_api_key :: "db_env \<Rightarrow> api_key_row \<Rightarrow> api_key" where
  "row_to_api_key env r =
     \<lparr>key_id = kr_id r, key_hash = kr_key_hash r, key_display = kr_display r,
      key_name = kr_name r, key_created_at = ts env (kr_created_at r),
      key_updated_at = ts env (kr_updated_at r), key_enabled = (kr_enabled r \<noteq> 0),
      key_expires_at = opt_ts env (kr_expires_at r)\<rparr>"

definition row_to_api_key_info :: "db_env \<Rightarrow> api_key_row \<Rightarrow> api_key_info" where
  "row_to_api_key_info env r =
     \<lparr>info_id = kr_id r, info_name = kr_name r, info_enabled = (kr_enabled r \<noteq> 0),
      info_expires_at = opt_ts env (kr_expires_at r),
      info_created_at = ts env (kr_created_at r)\<rparr>"

section \<open>Providers\<close>

definition provider_to_row :: "provider \<Rightarrow> provider_row" where
  "provider_to_row p =
     \<lparr>pr_id = prov_id p, pr_name = prov_name p, pr_type = to_db (prov_type p),
      pr_base_url = prov_base_url p, pr_api_key = prov_api_key p,
      pr_enabled = of_bool (prov_enabled p), pr_created_at = timestamp (prov_created_at p),
      pr_updated_at = timestamp (prov_updated_at p)\<rparr>"

definition insert_provider ::
    "db_env \<Rightarrow> provider \<Rightarrow> database \<Rightarrow> (db_error + provider) \<times> database" where
  "insert_provider env provider db =
     (let p0 = (if prov_id provider = [] then provider\<lparr>prov_id := env_uuid env\<rparr> else provider);
          p = p0\<lparr>prov_created_at := env_now env, prov_updated_at := env_now env\<rparr>
      in transact db
           (and_then (sql env 0) (\<lambda>_.
            and_then (map_err (to_storage env) (insert_provider_row (provider_to_row p) db)) (\<lambda>db'.
            Inr (p, db')))))"

definition patch_provider :: "provider_update \<Rightarrow> datetime \<Rightarrow> provider \<Rightarrow> provider" where
  "patch_provider u now p =
     (let p1 = (case pu_name u of Some v \<Rightarrow> p\<lparr>prov_name := v\<rparr> | None \<Rightarrow> p);
          p2 = (case pu_type u of Some v \<Rightarrow> p1\<lparr>prov_type := v\<rparr> | None \<Rightarrow> p1);
          p3 = (case pu_base_url u of Some v \<Rightarrow> p2\<lparr>prov_base_url := v\<rparr> | None \<Rightarrow> p2);
          p4 = p3\<lparr>prov_api_key := (case pu_api_key u of
                  None \<Rightarrow> prov_api_key p3
                | Some s \<Rightarrow> if s = [] then None else Some s)\<rparr>;
          p5 = (case pu_enabled u of Some v \<Rightarrow> p4\<lparr>prov_enabled := v\<rparr> | None \<Rightarrow> p4)
      in p5\<lparr>prov_updated_at := now\<rparr>)"

definition update_provider ::
    "db_env \<Rightarrow> provider_update \<Rightarrow> database \<Rightarrow> (db_error + provider) \<times> database" where
  "update_provider env u db = transact db
     (and_then (sql env 0) (\<lambda>_.
      and_then (sql env 1) (\<lambda>_.
      and_then (ok_or (NotFound (''Provider '' @ quoted (pu_id u) @ '' not found''))
                 (tbl_find pr_id (pu_id u) (providers db))) (\<lambda>row.
      let p = patch_provider u (env_now env) (row_to_provider env row)
      in and_then (sql env 2) (\<lambda>_.
         and_then (sql env 3) (\<lambda>_.
         Inr (p, db\<lparr>providers := tbl_update pr_id (prov_id p)
           (\<lambda>r. r\<lparr>pr_name := prov_name p, pr_type := to_db (prov_type p),
                  pr_base_url := prov_base_url p, pr_api_key := prov_api_key p,
                  pr_enabled := of_bool (prov_enabled p),
                  pr_updated_at := timestamp (prov_updated_at p)\<rparr>) (providers db)\<rparr>)))))))"

definition delete_provider :: "db_env \<Rightarrow> string \<Rightarrow> database \<Rightarrow> (db_error + bool) \<times> database" where
  "delete_provider env i db = transact db
     (and_then (sql env 0) (\<lambda>_.
      Inr (tbl_find pr_id i (providers db) \<noteq> None, delete_provider_row i db)))"

definition get_provider :: "db_env \<Rightarrow> string \<Rightarrow> database \<Rightarrow> db_error + provider option" where
  "get_provider env i db =
     and_then (sql env 0) (\<lambda>_.
     Inr (map_option (row_to_provider env) (tbl_find pr_id i (providers db))))"

definition count_providers :: "db_env \<Rightarrow> database \<Rightarrow> db_error + nat" where
  "count_providers env db = and_then (sql env 0) (\<lambda>_. Inr (length (providers db)))"

definition list_providers :: "db_env \<Rightarrow> database \<Rightarrow> db_error + provider list" where
  "list_providers env db =
     and_then (sql env 0) (\<lambda>_.
     Inr (map (row_to_provider env) (sort_key pr_name (providers db))))"

section \<open>Models\<close>

definition model_to_row :: "model \<Rightarrow> model_row" where
  "model_to_row m =
     \<lparr>mr_id = model_id m, mr_name = model_name m, mr_provider_id = model_provider_id m,
      mr_upstream = model_upstream m, mr_enabled = of_bool (model_enabled m),
      mr_created_at = timestamp (model_created_at m),
      mr_updated_at = timestamp (model_updated_at m)\<rparr>"

definition insert_model ::
    "db_env \<Rightarrow> model \<Rightarrow> database \<Rightarrow> (db_error + model) \<times> database" where
  "insert_model env model db =
     (let m0 = (if model_id model = [] then model\<lparr>model_id := env_uuid env\<rparr> else model);
          m = m0\<lparr>model_created_at := env_now env, model_updated_at := env_now env\<rparr>
      in transact db
           (and_then (sql env 0) (\<lambda>_.
            and_then (sql env 1) (\<lambda>_.
            if tbl_find pr_id (model_provider_id m) (providers db) = None then
              Inl (NotFound (''Provider '' @ quoted (model_provider_id m) @ '' not found''))
            else if tbl_find mr_name (model_name m) (models db) \<noteq> None then
              Inl (Duplicate (''Model '' @ quoted (model_name m) @ '' already exists''))
            else
              and_then (sql env 2) (\<lambda>_.
              and_then (map_err (to_storage env) (insert_model_row (model_to_row m) db)) (\<lambda>db'.
              and_then (sql env 3) (\<lambda>_.
              Inr (m, db'))))))))"

definition patch_model :: "model_update \<Rightarrow> datetime \<Rightarrow> model \<Rightarrow> model" where
  "patch_model u now m =
     (let m1 = (case mu_provider_id u of Some v \<Rightarrow> m\<lparr>model_provider_id := v\<rparr> | None \<Rightarrow> m);
          m2 = (case mu_upstream u of Some v \<Rightarrow> m1\<lparr>model_upstream := v\<rparr> | None \<Rightarrow> m1);
          m3 = (case mu_enabled u of Some v \<Rightarrow> m2\<lparr>model_enabled := v\<rparr> | None \<Rightarrow> m2)
      in m3\<lparr>model_updated_at := now\<rparr>)"

definition update_model ::
    "db_env \<Rightarrow> model_update \<Rightarrow> database \<Rightarrow> (db_error + model) \<times> database" where
  "update_model env u db = transact db
     (and_then (sql env 0) (\<lambda>_.
      and_then (sql env 1) (\<lambda>_.
      and_then (ok_or (NotFound (''Model '' @ quoted (mu_name u) @ '' not found''))
                 (tbl_find mr_name (mu_name u) (models db))) (\<lambda>row.
      let m = patch_model u (env_now env) (row_to_model env row)
      in and_then (sql env 2) (\<lambda>_.
         and_then (map_err (to_storage env)
                    (update_model_row (mu_name u) (model_provider_id m) (model_upstream m)
                      (of_bool (model_enabled m)) (timestamp (model_updated_at m)) db)) (\<lambda>db'.
         and_then (sql env 3) (\<lambda>_.
         Inr (m, db'))))))))"

definition delete_model :: "db_env \<Rightarrow> string \<Rightarrow> database \<Rightarrow> (db_error + bool) \<times> database" where
  "delete_model env name db = transact db
     (and_then (sql env 0) (\<lambda>_.
      Inr (tbl_find mr_name name (models db) \<noteq> None,
           db\<lparr>models := tbl_delete mr_name name (models db)\<rparr>)))"

definition get_model :: "db_env \<Rightarrow> string \<Rightarrow> database \<Rightarrow> db_error + model option" where
  "get_model env name db =
     and_then (sql env 0) (\<lambda>_.
     Inr (map_option (row_to_model env) (tbl_find mr_name name (models db))))"

definition count_models :: "db_env \<Rightarrow> database \<Rightarrow> db_error + nat" where
  "count_models env db = and_then (sql env 0) (\<lambda>_. Inr (length (models db)))"

definition list_models :: "db_env \<Rightarrow> database \<Rightarrow> db_error + model list" where
  "list_models env db =
     and_then (sql env 0) (\<lambda>_. Inr (map (row_to_model env) (sort_key mr_name (models db))))"

text \<open>The join of \<open>resolve_model\<close>, row by row; \<open>query_row\<close> takes the first row.\<close>

definition join_rows :: "database \<Rightarrow> string \<Rightarrow> (model_row \<times> provider_row) list" where
  "join_rows db name =
     [(m, p). m \<leftarrow> models db, p \<leftarrow> providers db,
        pr_id p = mr_provider_id m \<and> mr_name m = name \<and> mr_enabled m = 1 \<and> pr_enabled p = 1]"

definition resolve_model ::
    "db_env \<Rightarrow> string \<Rightarrow> database \<Rightarrow> db_error + (model \<times> provider) option" where
  "resolve_model env name db =
     and_then (sql env 0) (\<lambda>_.
     Inr (case join_rows db name of
            [] \<Rightarrow> None
          | (m, p) # _ \<Rightarrow> Some (row_to_model env m, row_to_provider env p)))"

section \<open>API keys\<close>

definition key_chars :: string where
  "key_chars = ''abcdefghijklmnopqrstuvwxyzABCDEFGHIJKLMNOPQRSTUVWXYZ0123456789''"

definition generate_random_string :: "db_env \<Rightarrow> nat \<Rightarrow> string" where
  "generate_random_string env len =
     map (\<lambda>i. key_chars ! (env_rng env i mod length key_chars)) [0..<len]"

definition generate_api_key :: "db_env \<Rightarrow> string" where
  "generate_api_key env = ''sk-'' @ generate_random_string env 32"

definition insert_api_key ::
    "db_env \<Rightarrow> string \<Rightarrow> datetime option \<Rightarrow> database
      \<Rightarrow> (db_error + api_key \<times> string) \<times> database" where
  "insert_api_key env name expires_at db =
     (let raw_key = generate_api_key env;
          hash = hash_key env raw_key;
          now_ts = timestamp (env_now env);
          row = \<lparr>kr_id = env_uuid env, kr_key_hash = hash, kr_display = mask_api_key raw_key,
                 kr_name = name, kr_enabled = 1, kr_created_at = now_ts, kr_updated_at = now_ts,
                 kr_expires_at = map_option timestamp expires_at\<rparr>
      in transact db
           (and_then (sql env 0) (\<lambda>_.
            and_then (sql env 1) (\<lambda>_.
            and_then (map_err (to_storage env) (insert_api_key_row row db)) (\<lambda>db'.
            and_then (sql env 2) (\<lambda>_.
            Inr ((\<lparr>key_id = env_uuid env, key_hash = hash, key_display = mask_api_key raw_key,
                   key_name = name, key_created_at = env_now env, key_updated_at = env_now env,
                   key_enabled = True, key_expires_at = expires_at\<rparr>, raw_key), db')))))))"

definition list_api_keys :: "db_env \<Rightarrow> database \<Rightarrow> db_error + api_key list" where
  "list_api_keys env db =
     and_then (sql env 0) (\<lambda>_.
     Inr (map (row_to_api_key env) (sort_key kr_created_at (api_keys db))))"

definition get_api_key_by_raw ::
    "db_env \<Rightarrow> string \<Rightarrow> database \<Rightarrow> db_error + api_key_info option" where
  "get_api_key_by_raw env api_key db =
     and_then (sql env 0) (\<lambda>_.
     Inr (map_option (row_to_api_key_info env)
           (tbl_find kr_key_hash (hash_key env api_key) (api_keys db))))"

definition delete_api_key ::
    "db_env \<Rightarrow> string \<Rightarrow> database \<Rightarrow> (db_error + string) \<times> database" where
  "delete_api_key env kid db = transact db
     (and_then (sql env 0) (\<lambda>_.
      and_then (ok_or (NotFound ''API key not found'') (tbl_find kr_id kid (api_keys db))) (\<lambda>row.
      and_then (sql env 1) (\<lambda>_.
      Inr (kr_key_hash row, db\<lparr>api_keys := tbl_delete kr_id kid (api_keys db)\<rparr>)))))"

definition patch_api_key :: "api_key_update \<Rightarrow> datetime \<Rightarrow> api_key \<Rightarrow> api_key" where
  "patch_api_key u now k =
     (let k1 = (case ku_name u of Some v \<Rightarrow> k\<lparr>key_name := v\<rparr> | None \<Rightarrow> k);
          k2 = (case ku_enabled u of Some v \<Rightarrow> k1\<lparr>key_enabled := v\<rparr> | None \<Rightarrow> k1);
          k3 = k2\<lparr>key_expires_at := (case ku_expires_at u of
                  None \<Rightarrow> key_expires_at k2
                | Some dt \<Rightarrow> if timestamp dt = 0 then None else Some dt)\<rparr>
      in k3\<lparr>key_updated_at := now\<rparr>)"

definition update_api_key ::
    "db_env \<Rightarrow> api_key_update \<Rightarrow> database \<Rightarrow> (db_error + api_key \<times> string) \<times> database" where
  "update_api_key env u db = transact db
     (and_then (sql env 0) (\<lambda>_.
      and_then (sql env 1) (\<lambda>_.
      and_then (ok_or (NotFound ''API key not found'') (tbl_find kr_id (ku_id u) (api_keys db)))
        (\<lambda>row.
      let k = patch_api_key u (env_now env) (row_to_api_key env row)
      in and_then (sql env 2) (\<lambda>_.
         and_then (sql env 3) (\<lambda>_.
         Inr ((k, key_hash k), db\<lparr>api_keys := tbl_update kr_id (key_id k)
           (\<lambda>r. r\<lparr>kr_name := key_name k, kr_enabled := of_bool (key_enabled k),
                  kr_expires_at := map_option timestamp (key_expires_at k),
                  kr_updated_at := timestamp (key_updated_at k)\<rparr>) (api_keys db)\<rparr>)))))))"

section \<open>The reader pool\<close>

text \<open>
  \<open>lock_reader\<close>: which reader a caller gets, and whether it has to wait for it. \<open>busy\<close> says
  which readers are held as the scan reaches them; \<open>start\<close> is the counter's value. An empty
  pool panics (\<open>None\<close>).
\<close>

definition lock_reader :: "nat \<Rightarrow> bool list \<Rightarrow> (nat \<times> bool) option" where
  "lock_reader start busy =
     (let n = length busy
      in if n = 0 then None
         else (case find (\<lambda>offset. \<not> busy ! ((start + offset) mod n)) [0..<n] of
                 Some offset \<Rightarrow> Some ((start + offset) mod n, False)
               | None \<Rightarrow> Some (start mod n, True)))"

end
