(* ===== verification/Store_Facts.thy ===== *)
theory Store_Facts
  imports Store
begin

text \<open>
  What the store of \<open>Store\<close> guarantees: the tables stay well formed under every operation, a
  failed operation changes nothing, and the operations refine finite maps keyed by provider
  id, model name and API key id. The lemmas on \<open>tbl_find\<close> carry the proofs.
\<close>

section \<open>Selecting by a key\<close>

named_theorems tbl_simps \<open>what a selection sees after a change\<close>

lemma tbl_find_SomeD: "tbl_find key k rows = Some r \<Longrightarrow> r \<in> set rows \<and> key r = k"
  by (auto simp: tbl_find_def find_Some_iff)

lemma tbl_find_None: "tbl_find key k rows = None \<longleftrightarrow> k \<notin> key ` set rows"
  by (auto simp: tbl_find_def find_None_iff)

lemma tbl_find_iff:
  "distinct (map key rows) \<Longrightarrow> tbl_find key k rows = Some r \<longleftrightarrow> r \<in> set rows \<and> key r = k"
  by (induction rows) (auto simp: tbl_find_def)

lemma tbl_find_append [tbl_simps]:
  "tbl_find key k (rows @ [r]) =
     (case tbl_find key k rows of Some x \<Rightarrow> Some x | None \<Rightarrow> if key r = k then Some r else None)"
  by (induction rows) (auto simp: tbl_find_def)

lemma tbl_find_update [tbl_simps]:
  "(\<And>r. key (f r) = key r) \<Longrightarrow> tbl_find key k (tbl_update key k' f rows) =
     (if k = k' then map_option f (tbl_find key k rows) else tbl_find key k rows)"
  by (induction rows) (auto simp: tbl_find_def tbl_update_def)

lemma tbl_find_delete [tbl_simps]:
  "tbl_find key k (tbl_delete key k' rows) = (if k = k' then None else tbl_find key k rows)"
  by (induction rows) (auto simp: tbl_find_def tbl_delete_def)

text \<open>Deleting by another column than the one selected by.\<close>

lemma tbl_find_delete_other:
  "distinct (map key rows) \<Longrightarrow> tbl_find key k (tbl_delete col v rows) =
     (case tbl_find key k rows of Some r \<Rightarrow> if col r = v then None else Some r | None \<Rightarrow> None)"
proof (induction rows)
  case (Cons r rows)
  then show ?case
    using tbl_find_None [of key "key r" rows]
    by (auto simp: tbl_find_def tbl_delete_def split: option.splits)
qed (simp add: tbl_find_def tbl_delete_def)

lemma map_tbl_update: "(\<And>r. g (f r) = g r) \<Longrightarrow> map g (tbl_update key k f rows) = map g rows"
  by (simp add: tbl_update_def)

lemma distinct_tbl_delete: "distinct (map g rows) \<Longrightarrow> distinct (map g (tbl_delete key k rows))"
  by (simp add: tbl_delete_def distinct_map_filter)

lemma set_tbl_delete: "set (tbl_delete key k rows) = {r \<in> set rows. key r \<noteq> k}"
  by (auto simp: tbl_delete_def)

lemma set_tbl_update:
  "set (tbl_update key k f rows) =
     f ` {r \<in> set rows. key r = k} \<union> {r \<in> set rows. key r \<noteq> k}"
  by (auto simp: tbl_update_def)

lemma transact_Inl: "fst (transact db r) = Inl e \<Longrightarrow> snd (transact db r) = db"
  by (cases r) (auto simp: transact_def)

lemma snd_transact: "snd (transact db r) = (case r of Inl _ \<Rightarrow> db | Inr (_, db') \<Rightarrow> db')"
  by (cases r) (auto simp: transact_def)

lemma sql_ok [simp]: "env_fault env n = None \<Longrightarrow> sql env n = Inr ()"
  by (simp add: sql_def)

section \<open>Well-formed databases\<close>

text \<open>Primary keys, unique columns, the foreign key, and flags that are 0 or 1.\<close>

definition db_wf :: "database \<Rightarrow> bool" where
  "db_wf db \<longleftrightarrow>
     distinct (map pr_id (providers db))
   \<and> distinct (map mr_id (models db)) \<and> distinct (map mr_name (models db))
   \<and> (\<forall>m \<in> set (models db). mr_provider_id m \<in> pr_id ` set (providers db))
   \<and> distinct (map kr_id (api_keys db)) \<and> distinct (map kr_key_hash (api_keys db))
   \<and> (\<forall>p \<in> set (providers db). pr_enabled p \<in> {0, 1} \<and> pr_type p \<in> range to_db)
   \<and> (\<forall>m \<in> set (models db). mr_enabled m \<in> {0, 1})
   \<and> (\<forall>k \<in> set (api_keys db). kr_enabled k \<in> {0, 1})"

text \<open>The operations that write, as data.\<close>

datatype db_op =
    InsertProvider provider
  | UpdateProvider provider_update
  | DeleteProvider string
  | InsertModel model
  | UpdateModel model_update
  | DeleteModel string
  | InsertApiKey string "datetime option"
  | UpdateApiKey api_key_update
  | DeleteApiKey string

fun exec_op :: "db_env \<Rightarrow> db_op \<Rightarrow> database \<Rightarrow> database" where
  "exec_op env (InsertProvider p) db = snd (insert_provider env p db)"
| "exec_op env (UpdateProvider u) db = snd (update_provider env u db)"
| "exec_op env (DeleteProvider i) db = snd (delete_provider env i db)"
| "exec_op env (InsertModel m) db = snd (insert_model env m db)"
| "exec_op env (UpdateModel u) db = snd (update_model env u db)"
| "exec_op env (DeleteModel n) db = snd (delete_model env n db)"
| "exec_op env (InsertApiKey n e) db = snd (insert_api_key env n e db)"
| "exec_op env (UpdateApiKey u) db = snd (update_api_key env u db)"
| "exec_op env (DeleteApiKey i) db = snd (delete_api_key env i db)"

lemmas write_defs = insert_provider_def update_provider_def delete_provider_def
  insert_model_def update_model_def delete_model_def
  insert_api_key_def update_api_key_def delete_api_key_def

lemma wf_insert_provider_row:
  assumes "db_wf db" and "pr_enabled r \<in> {0, 1} \<and> pr_type r \<in> range to_db" and "insert_provider_row r db = Inr db'"
  shows "db_wf db'"
proof -
  have "db' = db\<lparr>providers := providers db @ [r]\<rparr>" "pr_id r \<notin> pr_id ` set (providers db)"
    using assms(3) by (simp_all add: insert_provider_row_def tbl_find_None split: if_splits)
  with assms(1,2) show ?thesis by (simp add: db_wf_def)
qed

lemma wf_insert_model_row:
  assumes "db_wf db" and "mr_enabled r \<in> {0, 1}" and "insert_model_row r db = Inr db'"
  shows "db_wf db'"
proof -
  have "db' = db\<lparr>models := models db @ [r]\<rparr>" "mr_id r \<notin> mr_id ` set (models db)"
      "mr_name r \<notin> mr_name ` set (models db)" "mr_provider_id r \<in> pr_id ` set (providers db)"
    using assms(3) by (simp_all add: insert_model_row_def tbl_find_None split: if_splits)
  with assms(1,2) show ?thesis by (simp add: db_wf_def)
qed

lemma wf_insert_api_key_row:
  assumes "db_wf db" and "kr_enabled r \<in> {0, 1}" and "insert_api_key_row r db = Inr db'"
  shows "db_wf db'"
proof -
  have "db' = db\<lparr>api_keys := api_keys db @ [r]\<rparr>" "kr_id r \<notin> kr_id ` set (api_keys db)"
      "kr_key_hash r \<notin> kr_key_hash ` set (api_keys db)"
    using assms(3) by (simp_all add: insert_api_key_row_def tbl_find_None split: if_splits)
  with assms(1,2) show ?thesis by (simp add: db_wf_def)
qed

lemma wf_update_providers:
  assumes "db_wf db" and "\<And>r. pr_id (f r) = pr_id r"
    and "\<And>r. pr_enabled (f r) \<in> {0, 1} \<and> pr_type (f r) \<in> range to_db"
  shows "db_wf (db\<lparr>providers := tbl_update pr_id k f (providers db)\<rparr>)"
proof -
  have ids: "map pr_id (tbl_update pr_id k f (providers db)) = map pr_id (providers db)"
    using assms(2) by (rule map_tbl_update)
  then have "pr_id ` set (tbl_update pr_id k f (providers db)) = pr_id ` set (providers db)"
    by (metis set_map)
  moreover have "\<forall>p \<in> set (tbl_update pr_id k f (providers db)). pr_enabled p \<in> {0, 1} \<and> pr_type p \<in> range to_db"
    using assms(1,3) by (auto simp only: set_tbl_update db_wf_def)
  ultimately show ?thesis using assms(1) by (simp add: db_wf_def ids)
qed

lemma wf_update_model_row:
  assumes "db_wf db" and "en \<in> {0, 1}" and "update_model_row name pid um en t db = Inr db'"
  shows "db_wf db'"
proof -
  let ?f = "\<lambda>r. r\<lparr>mr_provider_id := pid, mr_upstream := um, mr_enabled := en, mr_updated_at := t\<rparr>"
  have db': "db' = db\<lparr>models := tbl_update mr_name name ?f (models db)\<rparr>"
    and ok: "tbl_find mr_name name (models db) = None \<or> tbl_find pr_id pid (providers db) \<noteq> None"
    using assms(3) by (auto simp: update_model_row_def split: if_splits)
  have "map mr_id (tbl_update mr_name name ?f (models db)) = map mr_id (models db)"
    and "map mr_name (tbl_update mr_name name ?f (models db)) = map mr_name (models db)"
    by (simp_all add: map_tbl_update)
  moreover have "\<forall>m \<in> set (tbl_update mr_name name ?f (models db)).
      mr_provider_id m \<in> pr_id ` set (providers db)"
    using assms(1) ok by (auto simp: set_tbl_update db_wf_def tbl_find_None)
  moreover have "\<forall>m \<in> set (tbl_update mr_name name ?f (models db)). mr_enabled m \<in> {0, 1}"
    using assms(1,2) by (auto simp: set_tbl_update db_wf_def)
  ultimately show ?thesis using assms(1) by (simp add: db_wf_def db')
qed

lemma wf_update_api_keys:
  assumes "db_wf db" and "\<And>r. kr_id (f r) = kr_id r" and "\<And>r. kr_key_hash (f r) = kr_key_hash r"
    and "\<And>r. kr_enabled (f r) \<in> {0, 1}"
  shows "db_wf (db\<lparr>api_keys := tbl_update kr_id k f (api_keys db)\<rparr>)"
proof -
  have "map kr_id (tbl_update kr_id k f (api_keys db)) = map kr_id (api_keys db)"
    and "map kr_key_hash (tbl_update kr_id k f (api_keys db)) = map kr_key_hash (api_keys db)"
    using assms(2,3) by (simp_all add: map_tbl_update)
  moreover have "\<forall>r \<in> set (tbl_update kr_id k f (api_keys db)). kr_enabled r \<in> {0, 1}"
    using assms(1,4) by (auto simp only: set_tbl_update db_wf_def)
  ultimately show ?thesis using assms(1) by (simp add: db_wf_def)
qed

lemma wf_delete_provider_row:
  assumes "db_wf db" shows "db_wf (delete_provider_row i db)"
proof (cases "tbl_find pr_id i (providers db)")
  case None
  then have "tbl_delete pr_id i (providers db) = providers db"
    by (auto simp: tbl_delete_def tbl_find_None intro!: filter_True)
  with None assms show ?thesis by (simp add: delete_provider_row_def)
next
  case (Some r)
  have "mr_provider_id m \<in> pr_id ` set (tbl_delete pr_id i (providers db))"
    if "m \<in> set (tbl_delete mr_provider_id i (models db))" for m
    using that assms by (fastforce simp: set_tbl_delete db_wf_def)
  with Some assms show ?thesis
    by (simp add: db_wf_def delete_provider_row_def distinct_tbl_delete set_tbl_delete)
qed

lemma wf_delete_models: "db_wf db \<Longrightarrow> db_wf (db\<lparr>models := tbl_delete key k (models db)\<rparr>)"
  by (auto simp: db_wf_def distinct_tbl_delete set_tbl_delete)

lemma wf_delete_api_keys: "db_wf db \<Longrightarrow> db_wf (db\<lparr>api_keys := tbl_delete key k (api_keys db)\<rparr>)"
  by (auto simp: db_wf_def distinct_tbl_delete set_tbl_delete)

lemma transact_cases:
  "(\<And>a db'. r = Inr (a, db') \<Longrightarrow> P db') \<Longrightarrow> P db \<Longrightarrow> P (snd (transact db r))"
  by (cases r) (auto simp: transact_def)

lemma exec_op_wf:
  assumes "db_wf db" shows "db_wf (exec_op env op db)"
proof (cases op)
  case (InsertProvider p)
  show ?thesis
    unfolding InsertProvider exec_op.simps insert_provider_def Let_def
    by (rule transact_cases)
      (auto simp: res_simps provider_to_row_def elim!: wf_insert_provider_row [rotated 2] intro: assms)
next
  case (UpdateProvider u)
  show ?thesis
    unfolding UpdateProvider exec_op.simps update_provider_def Let_def
    by (rule transact_cases) (auto simp: res_simps intro!: wf_update_providers assms)
next
  case (DeleteProvider i)
  show ?thesis
    unfolding DeleteProvider exec_op.simps delete_provider_def
    by (rule transact_cases) (auto simp: res_simps intro!: wf_delete_provider_row assms)
next
  case (InsertModel m)
  show ?thesis
    unfolding InsertModel exec_op.simps insert_model_def Let_def
    by (rule transact_cases)
      (auto simp: res_simps model_to_row_def elim!: wf_insert_model_row [rotated 2] intro: assms
        split: if_splits)
next
  case (UpdateModel u)
  show ?thesis
    unfolding UpdateModel exec_op.simps update_model_def Let_def
    by (rule transact_cases)
      (auto simp: res_simps elim!: wf_update_model_row [rotated 2] intro: assms)
next
  case (DeleteModel n)
  show ?thesis
    unfolding DeleteModel exec_op.simps delete_model_def
    by (rule transact_cases) (auto simp: res_simps intro!: wf_delete_models assms)
next
  case (InsertApiKey n e)
  show ?thesis
    unfolding InsertApiKey exec_op.simps insert_api_key_def Let_def
    by (rule transact_cases)
      (auto simp: res_simps elim!: wf_insert_api_key_row [rotated 2] intro: assms)
next
  case (UpdateApiKey u)
  show ?thesis
    unfolding UpdateApiKey exec_op.simps update_api_key_def Let_def
    by (rule transact_cases) (auto simp: res_simps intro!: wf_update_api_keys assms)
next
  case (DeleteApiKey i)
  show ?thesis
    unfolding DeleteApiKey exec_op.simps delete_api_key_def
    by (rule transact_cases) (auto simp: res_simps intro!: wf_delete_api_keys assms)
qed

section \<open>The abstract store\<close>

text \<open>
  What the admin API and the proxy see of the store: three finite maps. The specification
  speaks of no list, no statement and no transaction.
\<close>

record store_spec =
  sp_providers :: "string \<Rightarrow> provider_row option"
  sp_models :: "string \<Rightarrow> model_row option"
  sp_keys :: "string \<Rightarrow> api_key_row option"

definition abs_db :: "database \<Rightarrow> store_spec" where
  "abs_db db =
     \<lparr>sp_providers = (\<lambda>i. tbl_find pr_id i (providers db)),
      sp_models = (\<lambda>n. tbl_find mr_name n (models db)),
      sp_keys = (\<lambda>i. tbl_find kr_id i (api_keys db))\<rparr>"

definition new_provider_row :: "db_env \<Rightarrow> provider \<Rightarrow> provider_row" where
  "new_provider_row env p =
     \<lparr>pr_id = (if prov_id p = [] then env_uuid env else prov_id p), pr_name = prov_name p,
      pr_type = to_db (prov_type p), pr_base_url = prov_base_url p, pr_api_key = prov_api_key p,
      pr_enabled = of_bool (prov_enabled p), pr_created_at = timestamp (env_now env),
      pr_updated_at = timestamp (env_now env)\<rparr>"

definition new_model_row :: "db_env \<Rightarrow> model \<Rightarrow> model_row" where
  "new_model_row env m =
     \<lparr>mr_id = (if model_id m = [] then env_uuid env else model_id m), mr_name = model_name m,
      mr_provider_id = model_provider_id m, mr_upstream = model_upstream m,
      mr_enabled = of_bool (model_enabled m), mr_created_at = timestamp (env_now env),
      mr_updated_at = timestamp (env_now env)\<rparr>"

definition new_key_row :: "db_env \<Rightarrow> string \<Rightarrow> datetime option \<Rightarrow> api_key_row" where
  "new_key_row env name expires_at =
     (let raw = generate_api_key env
      in \<lparr>kr_id = env_uuid env, kr_key_hash = hash_key env raw, kr_display = mask_api_key raw,
          kr_name = name, kr_enabled = 1, kr_created_at = timestamp (env_now env),
          kr_updated_at = timestamp (env_now env),
          kr_expires_at = map_option timestamp expires_at\<rparr>)"

definition default :: "'a \<Rightarrow> 'a option \<Rightarrow> 'a" where
  "default d x = (case x of Some a \<Rightarrow> a | None \<Rightarrow> d)"

definition patched_provider_row :: "db_env \<Rightarrow> provider_update \<Rightarrow> provider_row \<Rightarrow> provider_row" where
  "patched_provider_row env u r = r\<lparr>
     pr_name := default (pr_name r) (pu_name u),
     pr_type := default (pr_type r) (map_option to_db (pu_type u)),
     pr_base_url := default (pr_base_url r) (pu_base_url u),
     pr_api_key := (case pu_api_key u of
        None \<Rightarrow> pr_api_key r | Some s \<Rightarrow> if s = [] then None else Some s),
     pr_enabled := default (pr_enabled r) (map_option of_bool (pu_enabled u)),
     pr_updated_at := timestamp (env_now env)\<rparr>"

definition patched_model_row :: "db_env \<Rightarrow> model_update \<Rightarrow> model_row \<Rightarrow> model_row" where
  "patched_model_row env u r = r\<lparr>
     mr_provider_id := default (mr_provider_id r) (mu_provider_id u),
     mr_upstream := default (mr_upstream r) (mu_upstream u),
     mr_enabled := default (mr_enabled r) (map_option of_bool (mu_enabled u)),
     mr_updated_at := timestamp (env_now env)\<rparr>"

text \<open>An expiry that is not changed is still rewritten from the \<open>DateTime\<close> it was read as.\<close>

definition patched_key_row :: "db_env \<Rightarrow> api_key_update \<Rightarrow> api_key_row \<Rightarrow> api_key_row" where
  "patched_key_row env u r = r\<lparr>
     kr_name := default (kr_name r) (ku_name u),
     kr_enabled := default (kr_enabled r) (map_option of_bool (ku_enabled u)),
     kr_expires_at := (case ku_expires_at u of
        None \<Rightarrow> map_option (\<lambda>t. timestamp (ts env t)) (kr_expires_at r)
      | Some dt \<Rightarrow> if timestamp dt = 0 then None else Some (timestamp dt)),
     kr_updated_at := timestamp (env_now env)\<rparr>"

fun spec_op :: "db_env \<Rightarrow> db_op \<Rightarrow> store_spec \<Rightarrow> store_spec" where
  "spec_op env (InsertProvider p) s =
     (let r = new_provider_row env p
      in if sp_providers s (pr_id r) \<noteq> None then s
         else s\<lparr>sp_providers := (sp_providers s)(pr_id r \<mapsto> r)\<rparr>)"
| "spec_op env (UpdateProvider u) s =
     (case sp_providers s (pu_id u) of
        None \<Rightarrow> s
      | Some r \<Rightarrow> s\<lparr>sp_providers :=
          (sp_providers s)(pu_id u \<mapsto> patched_provider_row env u r)\<rparr>)"
| "spec_op env (DeleteProvider i) s =
     s\<lparr>sp_providers := (sp_providers s)(i := None),
       sp_models := (\<lambda>n. case sp_models s n of
          Some r \<Rightarrow> if mr_provider_id r = i then None else Some r | None \<Rightarrow> None)\<rparr>"
| "spec_op env (InsertModel m) s =
     (let r = new_model_row env m
      in if sp_providers s (mr_provider_id r) = None \<or> sp_models s (mr_name r) \<noteq> None
            \<or> mr_id r \<in> mr_id ` ran (sp_models s) then s
         else s\<lparr>sp_models := (sp_models s)(mr_name r \<mapsto> r)\<rparr>)"
| "spec_op env (UpdateModel u) s =
     (case sp_models s (mu_name u) of
        None \<Rightarrow> s
      | Some r \<Rightarrow> (let r' = patched_model_row env u r
          in if sp_providers s (mr_provider_id r') = None then s
             else s\<lparr>sp_models := (sp_models s)(mu_name u \<mapsto> r')\<rparr>))"
| "spec_op env (DeleteModel n) s = s\<lparr>sp_models := (sp_models s)(n := None)\<rparr>"
| "spec_op env (InsertApiKey name e) s =
     (let r = new_key_row env name e
      in if sp_keys s (kr_id r) \<noteq> None \<or> kr_key_hash r \<in> kr_key_hash ` ran (sp_keys s) then s
         else s\<lparr>sp_keys := (sp_keys s)(kr_id r \<mapsto> r)\<rparr>)"
| "spec_op env (UpdateApiKey u) s =
     (case sp_keys s (ku_id u) of
        None \<Rightarrow> s
      | Some r \<Rightarrow> s\<lparr>sp_keys := (sp_keys s)(ku_id u \<mapsto> patched_key_row env u r)\<rparr>)"
| "spec_op env (DeleteApiKey i) s = s\<lparr>sp_keys := (sp_keys s)(i := None)\<rparr>"

lemma store_spec_eqI:
  "sp_providers s = sp_providers t \<Longrightarrow> sp_models s = sp_models t \<Longrightarrow> sp_keys s = sp_keys t
    \<Longrightarrow> (s :: store_spec) = t"
  by simp

lemma abs_db_sel [simp]:
  "sp_providers (abs_db db) i = tbl_find pr_id i (providers db)"
  "sp_models (abs_db db) n = tbl_find mr_name n (models db)"
  "sp_keys (abs_db db) i = tbl_find kr_id i (api_keys db)"
  by (simp_all add: abs_db_def)

lemma ran_tbl_find: "distinct (map key rows) \<Longrightarrow> ran (\<lambda>k. tbl_find key k rows) = set rows"
  by (auto simp: ran_def tbl_find_iff)

lemma refine_insert_provider:
  assumes "env_fault env = (\<lambda>_. None)"
  shows "abs_db (exec_op env (InsertProvider p) db) = spec_op env (InsertProvider p) (abs_db db)"
proof -
  have row: "provider_to_row ((if prov_id p = [] then p\<lparr>prov_id := env_uuid env\<rparr> else p)
      \<lparr>prov_created_at := env_now env, prov_updated_at := env_now env\<rparr>) = new_provider_row env p"
    by (simp add: provider_to_row_def new_provider_row_def)
  show ?thesis
    unfolding exec_op.simps insert_provider_def Let_def row spec_op.simps
    using assms
    by (auto simp: insert_provider_row_def transact_def abs_db_def fun_eq_iff tbl_simps
        split: option.splits)
qed

lemma refine_insert_model:
  assumes "db_wf db" and "env_fault env = (\<lambda>_. None)"
  shows "abs_db (exec_op env (InsertModel m) db) = spec_op env (InsertModel m) (abs_db db)"
proof -
  let ?m = "(if model_id m = [] then m\<lparr>model_id := env_uuid env\<rparr> else m)
      \<lparr>model_created_at := env_now env, model_updated_at := env_now env\<rparr>"
  have row: "model_to_row ?m = new_model_row env m"
    and f: "model_provider_id ?m = mr_provider_id (new_model_row env m)"
      "model_name ?m = mr_name (new_model_row env m)"
    by (simp_all add: model_to_row_def new_model_row_def)
  have ran: "i \<in> mr_id ` ran (sp_models (abs_db db)) \<longleftrightarrow> tbl_find mr_id i (models db) \<noteq> None" for i
    using assms(1) ran_tbl_find [of mr_name "models db"]
    by (simp add: db_wf_def tbl_find_None abs_db_def)
  show ?thesis
    unfolding exec_op.simps insert_model_def Let_def row f spec_op.simps ran
    using assms(2)
    by (auto simp: insert_model_row_def transact_def abs_db_def fun_eq_iff tbl_simps
        split: option.splits)
qed

lemma refine_insert_api_key:
  assumes "db_wf db" and "env_fault env = (\<lambda>_. None)"
  shows "abs_db (exec_op env (InsertApiKey n e) db) = spec_op env (InsertApiKey n e) (abs_db db)"
proof -
  have ran: "i \<in> kr_key_hash ` ran (sp_keys (abs_db db))
      \<longleftrightarrow> tbl_find kr_key_hash i (api_keys db) \<noteq> None" for i
    using assms(1) ran_tbl_find [of kr_id "api_keys db"]
    by (simp add: db_wf_def tbl_find_None abs_db_def)
  show ?thesis
    unfolding exec_op.simps insert_api_key_def Let_def spec_op.simps ran new_key_row_def
    using assms(2)
    by (auto simp: insert_api_key_row_def transact_def abs_db_def fun_eq_iff tbl_simps
        split: option.splits)
qed

lemma tbl_update_cong:
  "(\<And>r. r \<in> set rows \<Longrightarrow> key r = k \<Longrightarrow> f r = g r) \<Longrightarrow> tbl_update key k f rows = tbl_update key k g rows"
  by (auto simp: tbl_update_def)

lemma refine_update_provider:
  assumes "db_wf db" and "env_fault env = (\<lambda>_. None)"
  shows "abs_db (exec_op env (UpdateProvider u) db) = spec_op env (UpdateProvider u) (abs_db db)"
proof (cases "tbl_find pr_id (pu_id u) (providers db)")
  case None
  then show ?thesis
    using assms(2) by (simp add: update_provider_def ok_or_def transact_def)
next
  case (Some r)
  let ?p = "patch_provider u (env_now env) (row_to_provider env r)"
  let ?f = "\<lambda>r. r\<lparr>pr_name := prov_name ?p, pr_type := to_db (prov_type ?p),
      pr_base_url := prov_base_url ?p, pr_api_key := prov_api_key ?p,
      pr_enabled := of_bool (prov_enabled ?p), pr_updated_at := timestamp (prov_updated_at ?p)\<rparr>"
  have r: "r \<in> set (providers db)" "pr_id r = pu_id u"
    using Some tbl_find_SomeD by fastforce+
  then have "pr_type r \<in> range to_db" "pr_enabled r \<in> {0, 1}"
    using assms(1) by (auto simp: db_wf_def)
  then have norm: "to_db (from_db (pr_type r)) = pr_type r" and
      flag: "pr_enabled r = 0 \<or> pr_enabled r = 1"
    by auto
  have id: "prov_id ?p = pu_id u"
    by (simp add: patch_provider_def Let_def row_to_provider_def r split: option.split)
  have "?f r = patched_provider_row env u r"
    using flag
    by (intro provider_row.equality)
      (auto simp: patch_provider_def Let_def row_to_provider_def patched_provider_row_def
        default_def norm split: option.split)
  then show ?thesis
    using assms(2) Some id
    by (simp add: update_provider_def ok_or_def transact_def Let_def abs_db_def fun_eq_iff tbl_simps)
qed

lemma refine_update_model:
  assumes "db_wf db" and "env_fault env = (\<lambda>_. None)"
  shows "abs_db (exec_op env (UpdateModel u) db) = spec_op env (UpdateModel u) (abs_db db)"
proof (cases "tbl_find mr_name (mu_name u) (models db)")
  case None
  then show ?thesis
    using assms(2) by (simp add: update_model_def ok_or_def transact_def)
next
  case (Some r)
  let ?m = "patch_model u (env_now env) (row_to_model env r)"
  have "r \<in> set (models db)" using Some tbl_find_SomeD by fastforce
  then have flag: "mr_enabled r = 0 \<or> mr_enabled r = 1"
    using assms(1) by (auto simp: db_wf_def)
  have "r\<lparr>mr_provider_id := model_provider_id ?m, mr_upstream := model_upstream ?m,
      mr_enabled := of_bool (model_enabled ?m), mr_updated_at := timestamp (model_updated_at ?m)\<rparr>
    = patched_model_row env u r"
    using flag
    by (intro model_row.equality)
      (auto simp: patch_model_def Let_def row_to_model_def patched_model_row_def default_def
        split: option.split)
  moreover have "model_provider_id ?m = mr_provider_id (patched_model_row env u r)"
    by (simp add: patch_model_def Let_def row_to_model_def patched_model_row_def
        default_def split: option.split)
  ultimately show ?thesis
    using assms(2) Some
    by (simp add: update_model_def ok_or_def transact_def Let_def abs_db_def fun_eq_iff tbl_simps
        update_model_row_def)
qed

lemma refine_update_api_key:
  assumes "db_wf db" and "env_fault env = (\<lambda>_. None)"
  shows "abs_db (exec_op env (UpdateApiKey u) db) = spec_op env (UpdateApiKey u) (abs_db db)"
proof (cases "tbl_find kr_id (ku_id u) (api_keys db)")
  case None
  then show ?thesis
    using assms(2) by (simp add: update_api_key_def ok_or_def transact_def)
next
  case (Some r)
  let ?k = "patch_api_key u (env_now env) (row_to_api_key env r)"
  have r: "r \<in> set (api_keys db)" "kr_id r = ku_id u" using Some tbl_find_SomeD by fastforce+
  then have flag: "kr_enabled r = 0 \<or> kr_enabled r = 1"
    using assms(1) by (auto simp: db_wf_def)
  have id: "key_id ?k = ku_id u"
    by (simp add: patch_api_key_def Let_def row_to_api_key_def r split: option.split)
  have "r\<lparr>kr_name := key_name ?k, kr_enabled := of_bool (key_enabled ?k),
      kr_expires_at := map_option timestamp (key_expires_at ?k),
      kr_updated_at := timestamp (key_updated_at ?k)\<rparr> = patched_key_row env u r"
    using flag
    by (intro api_key_row.equality)
      (auto simp: patch_api_key_def Let_def row_to_api_key_def patched_key_row_def
        default_def opt_ts_def option.map_comp comp_def split: option.split)
  then show ?thesis
    using assms(2) Some id
    by (simp add: update_api_key_def ok_or_def transact_def Let_def abs_db_def fun_eq_iff tbl_simps)
qed

lemma refine_delete_provider:
  assumes "db_wf db" and "env_fault env = (\<lambda>_. None)"
  shows "abs_db (exec_op env (DeleteProvider i) db) = spec_op env (DeleteProvider i) (abs_db db)"
proof (cases "tbl_find pr_id i (providers db)")
  case None
  have "mr_provider_id r \<noteq> i" if "tbl_find mr_name n (models db) = Some r" for n r
    using assms(1) None that tbl_find_SomeD [OF that] by (auto simp: db_wf_def tbl_find_None)
  then show ?thesis
    using assms(2) None
    by (auto simp: delete_provider_def delete_provider_row_def transact_def abs_db_def fun_eq_iff
        tbl_simps split: option.split)
next
  case (Some r)
  then show ?thesis
    using assms
    by (auto simp: delete_provider_def delete_provider_row_def transact_def abs_db_def fun_eq_iff
        tbl_simps tbl_find_delete_other db_wf_def)
qed

lemma refine_delete:
  assumes "env_fault env = (\<lambda>_. None)"
  shows "abs_db (exec_op env (DeleteModel n) db) = spec_op env (DeleteModel n) (abs_db db)"
    and "abs_db (exec_op env (DeleteApiKey i) db) = spec_op env (DeleteApiKey i) (abs_db db)"
proof -
  show "abs_db (exec_op env (DeleteModel n) db) = spec_op env (DeleteModel n) (abs_db db)"
    using assms by (auto simp: delete_model_def transact_def abs_db_def fun_eq_iff tbl_simps)
  show "abs_db (exec_op env (DeleteApiKey i) db) = spec_op env (DeleteApiKey i) (abs_db db)"
    using assms
    by (cases "tbl_find kr_id i (api_keys db)")
      (auto simp: delete_api_key_def transact_def abs_db_def fun_eq_iff tbl_simps ok_or_def)
qed

section \<open>Resolving a model\<close>

lemma concat_map_select:
  assumes "distinct (map key rows)"
  shows "concat (map (\<lambda>r. if key r = k then g r else []) rows) =
     (case tbl_find key k rows of Some r \<Rightarrow> g r | None \<Rightarrow> [])"
  using assms
proof (induction rows)
  case (Cons r rows)
  have none: "tbl_find key (key r) rows = None"
    using Cons.prems by (simp add: tbl_find_None)
  show ?case
  proof (cases "key r = k")
    case True
    with Cons none show ?thesis by (simp add: tbl_find_def)
  next
    case False
    with Cons show ?thesis by (simp add: tbl_find_def)
  qed
qed (simp add: tbl_find_def)

lemma join_rows_eq:
  assumes "db_wf db"
  shows "join_rows db name = (case tbl_find mr_name name (models db) of
      None \<Rightarrow> []
    | Some m \<Rightarrow> (case tbl_find pr_id (mr_provider_id m) (providers db) of
        None \<Rightarrow> []
      | Some p \<Rightarrow> if mr_enabled m = 1 \<and> pr_enabled p = 1 then [(m, p)] else []))"
proof -
  have d: "distinct (map pr_id (providers db))" "distinct (map mr_name (models db))"
    using assms by (simp_all add: db_wf_def)
  have inner: "[(m, p). p \<leftarrow> providers db,
        pr_id p = mr_provider_id m \<and> mr_name m = name \<and> mr_enabled m = 1 \<and> pr_enabled p = 1]
      = (if mr_name m = name then
           (case tbl_find pr_id (mr_provider_id m) (providers db) of
              None \<Rightarrow> []
            | Some p \<Rightarrow> if mr_enabled m = 1 \<and> pr_enabled p = 1 then [(m, p)] else [])
         else [])" for m
  proof -
    have eq: "(\<lambda>p. if pr_id p = mr_provider_id m \<and> mr_name m = name \<and> mr_enabled m = 1
          \<and> pr_enabled p = 1 then [(m, p)] else []) =
        (\<lambda>p. if pr_id p = mr_provider_id m then
           (if mr_name m = name \<and> mr_enabled m = 1 \<and> pr_enabled p = 1 then [(m, p)] else [])
         else [])"
      by auto
    show ?thesis
      by (subst eq) (simp add: concat_map_select [OF d(1)] split: option.split)
  qed
  show ?thesis
    unfolding join_rows_def inner concat_map_select [OF d(2)] by (simp split: option.split)
qed

section \<open>Generated keys\<close>

lemma utf8_chars_ascii:
  "\<forall>c \<in> set s. byte c < 128 \<Longrightarrow> utf8_chars s = map (\<lambda>c. [c]) s"
proof (induction s)
  case (Cons c s)
  then show ?case by (cases s) (auto simp: is_continuation_def)
qed simp

lemma key_chars_ascii: "c \<in> set key_chars \<Longrightarrow> byte c < 128"
proof -
  have "\<forall>c \<in> set key_chars. byte c < 128" by code_simp
  then show "c \<in> set key_chars \<Longrightarrow> byte c < 128" by blast
qed

lemma generate_api_key_facts:
  "length (generate_api_key env) = 35"
  "prefix ''sk-'' (generate_api_key env)"
  "utf8_chars (generate_api_key env) = map (\<lambda>c. [c]) (generate_api_key env)"
proof -
  have "length key_chars > 0" by (simp add: key_chars_def)
  then have "\<forall>c \<in> set (generate_random_string env 32). c \<in> set key_chars"
    by (auto simp: generate_random_string_def)
  then have "\<forall>c \<in> set (generate_api_key env). byte c < 128"
    using key_chars_ascii by (auto simp: generate_api_key_def byte_def)
  then show "utf8_chars (generate_api_key env) = map (\<lambda>c. [c]) (generate_api_key env)"
    by (rule utf8_chars_ascii)
qed (simp_all add: generate_api_key_def generate_random_string_def)

lemma mask_generated_key:
  "mask_api_key (generate_api_key env)
     = take 6 (generate_api_key env) @ ''******'' @ drop 32 (generate_api_key env)"
proof -
  have "concat (map (\<lambda>c. [c]) s) = s" for s :: string by (induction s) simp_all
  then show ?thesis
    by (simp add: mask_api_key_def mask_sensitive_value_def Let_def generate_api_key_facts
        take_map drop_map)
qed

text \<open>What is there after a key was created.\<close>

lemma insert_api_key_Inr:
  assumes "insert_api_key env name expires_at db = (Inr (k, raw), db')"
  shows "db' = db\<lparr>api_keys := api_keys db @ [new_key_row env name expires_at]\<rparr>"
    and "tbl_find kr_id (kr_id (new_key_row env name expires_at)) (api_keys db) = None"
    and "tbl_find kr_key_hash (kr_key_hash (new_key_row env name expires_at)) (api_keys db) = None"
    and "raw = generate_api_key env"
    and "key_id k = kr_id (new_key_row env name expires_at)" "key_display k = mask_api_key raw"
    and "kr_key_hash (new_key_row env name expires_at) = env_sha256 env raw"
proof -
  let ?r = "new_key_row env name expires_at"
  have ins: "insert_api_key_row ?r db = Inr db'" and raw: "raw = generate_api_key env"
    and k: "key_id k = kr_id ?r" "key_display k = mask_api_key raw"
    using assms(1)
    by (auto simp: insert_api_key_def Let_def transact_def new_key_row_def res_simps
        split: sum.splits)
  then show "db' = db\<lparr>api_keys := api_keys db @ [?r]\<rparr>" "tbl_find kr_id (kr_id ?r) (api_keys db) = None"
      "tbl_find kr_key_hash (kr_key_hash ?r) (api_keys db) = None"
    by (simp_all add: insert_api_key_row_def split: if_splits)
  show "raw = generate_api_key env" "key_id k = kr_id ?r" "key_display k = mask_api_key raw" by (fact raw k)+
  show "kr_key_hash ?r = env_sha256 env raw"
    by (simp add: new_key_row_def hash_key_def raw Let_def)
qed

section \<open>Properties\<close>

text \<open>
  C1: Starting from the empty tables, whatever writes are run in whatever order, with whatever
  ids, clock and driver failures, the tables stay well formed: ids, model names and key hashes
  are unique, no model refers to a provider that is not there (deleting a provider deletes its
  models), every provider type is one the program knows.
\<close>

theorem store_always_wf: "db_wf (fold (\<lambda>(env, op). exec_op env op) ops empty_db)"
proof -
  have "db_wf db \<Longrightarrow> db_wf (fold (\<lambda>(env, op). exec_op env op) ops db)" for db
    by (induction ops arbitrary: db) (auto simp: exec_op_wf)
  moreover have "db_wf empty_db" by (simp add: db_wf_def empty_db_def)
  ultimately show ?thesis by blast
qed

definition demo_env :: db_env where
  "demo_env = \<lparr>env_now = 5000000000, env_uuid = ''u1'', env_rng = (\<lambda>i. i), env_sha256 = (\<lambda>s. s),
     env_from_ts = (\<lambda>s. Some (s * 1000000000)), env_sql_text = (\<lambda>_. ''constraint''),
     env_fault = (\<lambda>_. None)\<rparr>"

definition demo_db :: database where
  "demo_db = \<lparr>
     providers = [\<lparr>pr_id = ''p1'', pr_name = ''local'', pr_type = ''ollama'',
        pr_base_url = ''http://h'', pr_api_key = None, pr_enabled = 1, pr_created_at = 1,
        pr_updated_at = 1\<rparr>],
     models = [\<lparr>mr_id = ''m1'', mr_name = ''gpt'', mr_provider_id = ''p1'', mr_upstream = ''llama3'',
        mr_enabled = 1, mr_created_at = 2, mr_updated_at = 2\<rparr>],
     api_keys = []\<rparr>"

lemma demo_db_wf: "db_wf demo_db"
  by (simp add: db_wf_def demo_db_def image_iff) (metis to_db.simps(4))

text \<open>
  C2: The store refines three finite maps (providers by id, models by name, API keys by id):
  when the driver fails no statement, each operation does to them what its specification says,
  a duplicate or dangling insert changes nothing, an update touches exactly the patched fields
  of exactly the named entry, and deleting a provider deletes exactly its models with it.
\<close>

theorem store_refines:
  assumes "db_wf db" and "env_fault env = (\<lambda>_. None)"
  shows "abs_db (exec_op env op db) = spec_op env op (abs_db db)"
  using assms
  by (cases op)
    (simp_all only: refine_insert_provider refine_update_provider refine_delete_provider
      refine_insert_model refine_update_model refine_delete refine_insert_api_key
      refine_update_api_key)

theorem store_refines_witness:
  "sp_models (abs_db (exec_op demo_env (DeleteProvider ''p1'') demo_db)) ''gpt'' = None"
proof -
  have "env_fault demo_env = (\<lambda>_. None)" by (simp add: demo_env_def)
  from store_refines [OF demo_db_wf this, of "DeleteProvider ''p1''"] show ?thesis
    by (simp add: demo_db_def tbl_find_def del: exec_op.simps)
qed

text \<open>
  A write that fails leaves every table as it was, whichever statement failed and why; so no
  admin request is ever half applied.
\<close>

theorem failed_write_changes_nothing:
  "(\<forall>e. fst (insert_provider env p db) = Inl e \<longrightarrow> snd (insert_provider env p db) = db)
   \<and> (\<forall>e. fst (update_provider env pu db) = Inl e \<longrightarrow> snd (update_provider env pu db) = db)
   \<and> (\<forall>e. fst (delete_provider env i db) = Inl e \<longrightarrow> snd (delete_provider env i db) = db)
   \<and> (\<forall>e. fst (insert_model env m db) = Inl e \<longrightarrow> snd (insert_model env m db) = db)
   \<and> (\<forall>e. fst (update_model env mu db) = Inl e \<longrightarrow> snd (update_model env mu db) = db)
   \<and> (\<forall>e. fst (delete_model env n db) = Inl e \<longrightarrow> snd (delete_model env n db) = db)
   \<and> (\<forall>e. fst (insert_api_key env n x db) = Inl e \<longrightarrow> snd (insert_api_key env n x db) = db)
   \<and> (\<forall>e. fst (update_api_key env ku db) = Inl e \<longrightarrow> snd (update_api_key env ku db) = db)
   \<and> (\<forall>e. fst (delete_api_key env k db) = Inl e \<longrightarrow> snd (delete_api_key env k db) = db)"
  unfolding write_defs Let_def by (blast intro: transact_Inl)

theorem failed_write_changes_nothing_witness:
  "snd (delete_api_key demo_env ''nope'' demo_db) = demo_db"
proof -
  have "fst (delete_api_key demo_env ''nope'' demo_db) = Inl (NotFound ''API key not found'')"
    by (simp add: delete_api_key_def demo_env_def demo_db_def transact_def tbl_find_def ok_or_def)
  then show ?thesis
    using failed_write_changes_nothing [of demo_env undefined demo_db undefined undefined undefined
        undefined undefined undefined undefined "''nope''"] by blast
qed

text \<open>
  The proxy path resolves a name exactly to the stored model of that name and the provider
  it refers to, and only while both are enabled; the join never yields two candidates.
\<close>

theorem resolve_model_exact:
  assumes "db_wf db" and "env_fault env 0 = None"
  shows "resolve_model env name db = Inr
    (case tbl_find mr_name name (models db) of
       None \<Rightarrow> None
     | Some m \<Rightarrow> (case tbl_find pr_id (mr_provider_id m) (providers db) of
         None \<Rightarrow> None
       | Some p \<Rightarrow> if mr_enabled m = 1 \<and> pr_enabled p = 1
           then Some (row_to_model env m, row_to_provider env p) else None))"
  using assms by (simp add: resolve_model_def join_rows_eq split: option.split)

theorem resolve_model_exact_witness:
  "\<exists>m p. resolve_model demo_env ''gpt'' demo_db = Inr (Some (m, p)) \<and> model_upstream m = ''llama3''
     \<and> prov_type p = Ollama"
proof -
  have "env_fault demo_env 0 = None" by (simp add: demo_env_def)
  from resolve_model_exact [OF demo_db_wf this, of "''gpt''"] show ?thesis
    by (simp add: demo_db_def tbl_find_def row_to_model_def row_to_provider_def from_db_def
        all_provider_types_def)
qed

text \<open>
  C38: A created API key can be used at once and until it is deleted: looking up the raw key
  finds its entry, enabled, with the expiry that was asked for; no other token's lookup
  changes unless it has the same digest; what is stored is the digest and a display text that
  shows 9 of the key's 35 characters; and deleting it by id ends it.
\<close>

theorem api_key_lifecycle:
  assumes "insert_api_key env name expires_at db = (Inr (k, raw), db')" and "db_wf db"
    and "env_fault env' = (\<lambda>_. None)" and "env_sha256 env' = env_sha256 env"
  shows "get_api_key_by_raw env' raw db' = Inr (Some
      \<lparr>info_id = key_id k, info_name = name, info_enabled = True,
       info_expires_at = map_option (\<lambda>d. ts env' (timestamp d)) expires_at,
       info_created_at = ts env' (timestamp (env_now env))\<rparr>)
   \<and> (\<forall>tok. env_sha256 env tok \<noteq> env_sha256 env raw \<longrightarrow>
        get_api_key_by_raw env' tok db' = get_api_key_by_raw env' tok db)
   \<and> kr_key_hash ` set (api_keys db') = insert (env_sha256 env raw) (kr_key_hash ` set (api_keys db))
   \<and> key_display k = take 6 raw @ ''******'' @ drop 32 raw \<and> length raw = 35
   \<and> fst (delete_api_key env' (key_id k) db') = Inr (env_sha256 env raw)
   \<and> get_api_key_by_raw env' raw (snd (delete_api_key env' (key_id k) db')) = Inr None"
proof -
  let ?r = "new_key_row env name expires_at"
  note added = insert_api_key_Inr [OF assms(1)]
  note db' = added(1) and new = added(2,3) and raw = added(4) and k = added(5,6) and hash = added(7)
  have "tbl_delete kr_id (kr_id ?r) (api_keys db) = api_keys db"
    using new(1) by (auto simp: tbl_delete_def tbl_find_None image_iff filter_id_conv)
  then have del: "delete_api_key env' (key_id k) db'
      = (Inr (env_sha256 env raw), db)"
    using assms(3) new(1) hash
    by (simp add: delete_api_key_def transact_def db' k(1) tbl_simps ok_or_def tbl_delete_def)
  have get: "get_api_key_by_raw env' tok db' = (if env_sha256 env tok = env_sha256 env raw
      then Inr (Some (row_to_api_key_info env' ?r)) else get_api_key_by_raw env' tok db)" for tok
    using assms(3,4) new(2) hash
    by (simp add: get_api_key_by_raw_def hash_key_def db' tbl_simps split: option.split)
  have "get_api_key_by_raw env' raw db = Inr None"
    using assms(3,4) new(2) hash by (simp add: get_api_key_by_raw_def hash_key_def)
  moreover have "row_to_api_key_info env' ?r =
      \<lparr>info_id = key_id k, info_name = name, info_enabled = True,
       info_expires_at = map_option (\<lambda>d. ts env' (timestamp d)) expires_at,
       info_created_at = ts env' (timestamp (env_now env))\<rparr>"
    by (simp add: row_to_api_key_info_def new_key_row_def Let_def k(1) opt_ts_def
        option.map_comp comp_def)
  moreover have "kr_key_hash ` set (api_keys db')
      = insert (env_sha256 env raw) (kr_key_hash ` set (api_keys db))"
    by (simp add: db' hash)
  ultimately show ?thesis
    by (simp add: get del k(2) raw mask_generated_key generate_api_key_facts)
qed

theorem api_key_lifecycle_witness:
  "get_api_key_by_raw demo_env (generate_api_key demo_env)
     (snd (insert_api_key demo_env ''ci'' None demo_db)) = Inr (Some
      \<lparr>info_id = ''u1'', info_name = ''ci'', info_enabled = True, info_expires_at = None,
       info_created_at = 5000000000\<rparr>)"
proof -
  obtain k db' where ins: "insert_api_key demo_env ''ci'' None demo_db
      = (Inr (k, generate_api_key demo_env), db')" and k: "key_id k = ''u1''"
    by (simp add: insert_api_key_def Let_def transact_def insert_api_key_row_def tbl_find_def
        demo_db_def demo_env_def)
  then show ?thesis
    using api_key_lifecycle [OF ins demo_db_wf, of demo_env]
    by (simp add: k ts_def) (simp add: demo_env_def timestamp_def)
qed

text \<open>
  A read never panics on a non-empty pool: the reader it gets is one of the pool, it is a
  free one whenever any reader is free, and the caller waits only when all are held.
\<close>

theorem lock_reader_total:
  assumes "busy \<noteq> []"
  shows "\<exists>i w. lock_reader start busy = Some (i, w) \<and> i < length busy
    \<and> (w \<longleftrightarrow> list_all id busy) \<and> (w \<or> \<not> busy ! i)"
proof -
  let ?n = "length busy"
  let ?free = "\<lambda>offset. \<not> busy ! ((start + offset) mod ?n)"
  have n: "?n > 0" using assms by simp
  show ?thesis
  proof (cases "find ?free [0..<?n]")
    case (Some offset)
    then have "?free offset" by (auto simp: find_Some_iff)
    then have "\<not> list_all id busy" using n mod_less_divisor [OF n]
      by (metis id_apply list_all_length)
    with Some n \<open>?free offset\<close> show ?thesis
      by (intro exI [of _ "(start + offset) mod ?n"] exI [of _ False]) (simp add: lock_reader_def)
  next
    case None
    have "busy ! j" if j: "j < ?n" for j
    proof -
      have "(start + (j + ?n - start mod ?n) mod ?n) mod ?n = j"
      proof -
        have le: "start mod ?n \<le> j + ?n" using n by (simp add: less_imp_le trans_le_add2)
        have "(start + (j + ?n - start mod ?n) mod ?n) mod ?n
            = (start mod ?n + (j + ?n - start mod ?n)) mod ?n"
          by (metis mod_add_left_eq mod_add_right_eq)
        also have "\<dots> = j" using le j by simp
        finally show ?thesis .
      qed
      moreover have "(j + ?n - start mod ?n) mod ?n < ?n" using n by simp
      ultimately show ?thesis using None by (fastforce simp: find_None_iff)
    qed
    then have "list_all id busy" by (simp add: list_all_length)
    with None n show ?thesis
      by (intro exI [of _ "start mod ?n"] exI [of _ True]) (simp add: lock_reader_def)
  qed
qed

end
