(* ===== verification/Net_Addr.thy ===== *)
theory Net_Addr
  imports Prelude
begin

text \<open>
  IP addresses, prefixes and the deny list of \<open>src/src/ssrf.rs\<close>, and the trusted proxies
  of \<open>src/src/config.rs\<close>. Addresses are machine words: \<open>Ipv4Addr\<close> is a \<open>32 word\<close>,
  \<open>Ipv6Addr\<close> a \<open>128 word\<close>, their octets and segments the bytes and 16-bit groups in
  network order. The standard library's \<open>FromStr\<close> and \<open>Display\<close> of addresses, which the
  configuration and the header parsing rely on, are written out after \<open>core::net\<close>.
\<close>

unbundle bit_operations_syntax

datatype ip_addr = V4 "32 word" | V6 "128 word"

definition octet :: "nat \<Rightarrow> 32 word \<Rightarrow> 8 word" where
  "octet i ip = ucast (drop_bit (24 - 8 * i) ip)"

definition segment :: "nat \<Rightarrow> 128 word \<Rightarrow> 16 word" where
  "segment i ip = ucast (drop_bit (112 - 16 * i) ip)"

definition ipv4_new :: "8 word \<Rightarrow> 8 word \<Rightarrow> 8 word \<Rightarrow> 8 word \<Rightarrow> 32 word" where
  "ipv4_new a b c d =
     push_bit 24 (ucast a) OR push_bit 16 (ucast b) OR push_bit 8 (ucast c) OR ucast d"

text \<open>\<open>Ipv6Addr::to_ipv4\<close>: IPv4-mapped and IPv4-compatible addresses.\<close>

definition v4_of_segments :: "16 word \<Rightarrow> 16 word \<Rightarrow> 32 word" where
  "v4_of_segments s6 s7 =
     ipv4_new (ucast (drop_bit 8 s6)) (ucast (s6 AND 255))
              (ucast (drop_bit 8 s7)) (ucast (s7 AND 255))"

definition to_ipv4 :: "128 word \<Rightarrow> 32 word option" where
  "to_ipv4 ip =
     (if segment 0 ip = 0 \<and> segment 1 ip = 0 \<and> segment 2 ip = 0 \<and> segment 3 ip = 0
         \<and> segment 4 ip = 0 \<and> (segment 5 ip = 0 \<or> segment 5 ip = 0xffff)
      then Some (v4_of_segments (segment 6 ip) (segment 7 ip)) else None)"

section \<open>The deny list\<close>

definition normalize_ip :: "ip_addr \<Rightarrow> ip_addr" where
  "normalize_ip ip = (case ip of
     V4 a \<Rightarrow> V4 a
   | V6 a \<Rightarrow>
      (case to_ipv4 a of
         Some v4 \<Rightarrow> V4 v4
       | None \<Rightarrow>
          (if segment 0 a = 0x64 \<and> segment 1 a = 0xff9b \<and> segment 2 a = 0 \<and> segment 3 a = 0
           then V4 (v4_of_segments (segment 6 a) (segment 7 a))
           else V6 a)))"

definition is_blocked_v4 :: "32 word \<Rightarrow> bool" where
  "is_blocked_v4 ip = (let o0 = octet 0 ip; o1 = octet 1 ip in
     if o0 = 0 then True
     else if o0 = 10 then True
     else if o0 = 127 then True
     else if o0 = 169 \<and> o1 = 254 then True
     else if o0 = 172 \<and> 16 \<le> o1 \<and> o1 \<le> 31 then True
     else if o0 = 192 \<and> o1 = 168 then True
     else if o0 = 100 \<and> 64 \<le> o1 \<and> o1 \<le> 127 then True
     else if o0 = 198 \<and> o1 = 18 then True
     else False)"

definition is_blocked_v6 :: "128 word \<Rightarrow> bool" where
  "is_blocked_v6 ip =
     (if segment 0 ip AND 0xfe00 = 0xfc00 then True
      else if segment 0 ip AND 0xffc0 = 0xfe80 then True
      else False)"

fun is_blocked_ip :: "ip_addr \<Rightarrow> bool" where
  "is_blocked_ip (V4 ip) = is_blocked_v4 ip"
| "is_blocked_ip (V6 ip) = is_blocked_v6 ip"

section \<open>Prefixes\<close>

definition ipv4_in_prefix :: "32 word \<Rightarrow> 32 word \<Rightarrow> nat \<Rightarrow> bool" where
  "ipv4_in_prefix ip pfx len =
     (if len = 0 then True
      else (let mask = push_bit (32 - len) (NOT 0) in (ip AND mask) = (pfx AND mask)))"

definition ipv6_in_prefix :: "128 word \<Rightarrow> 128 word \<Rightarrow> nat \<Rightarrow> bool" where
  "ipv6_in_prefix ip pfx len =
     (if len = 0 then True
      else (let mask = push_bit (128 - len) (NOT 0) in (ip AND mask) = (pfx AND mask)))"

definition ip_in_prefix :: "ip_addr \<Rightarrow> ip_addr \<Rightarrow> nat \<Rightarrow> bool" where
  "ip_in_prefix ip pfx len = (case (ip, pfx) of
     (V4 a, V4 p) \<Rightarrow> ipv4_in_prefix a p (min len 32)
   | (V6 a, V6 p) \<Rightarrow> ipv6_in_prefix a p (min len 128)
   | _ \<Rightarrow>
      (case (normalize_ip ip, normalize_ip pfx) of
         (V4 a, V4 p) \<Rightarrow> ipv4_in_prefix a p (min len 32)
       | (V6 a, V6 p) \<Rightarrow> ipv6_in_prefix a p (min len 128)
       | _ \<Rightarrow> False))"

section \<open>Parsing and printing addresses (the standard library's)\<close>

definition digit_val :: "nat \<Rightarrow> char \<Rightarrow> nat option" where
  "digit_val radix c =
     (let d = (if is_digit c then byte c - 48
               else if 97 \<le> byte c \<and> byte c \<le> 122 then byte c - 87
               else if 65 \<le> byte c \<and> byte c \<le> 90 then byte c - 55 else 99)
      in if d < radix then Some d else None)"

fun digits_val :: "nat \<Rightarrow> nat \<Rightarrow> string \<Rightarrow> nat" where
  "digits_val radix acc [] = acc"
| "digits_val radix acc (c # cs) =
     digits_val radix (acc * radix + (case digit_val radix c of None \<Rightarrow> 0 | Some d \<Rightarrow> d)) cs"

text \<open>\<open>str::parse\<close> to an unsigned integer with the given largest value.\<close>

definition parse_uint :: "nat \<Rightarrow> string \<Rightarrow> nat option" where
  "parse_uint bound s =
     (let ds = (case s of c # r \<Rightarrow> if c = CHR ''+'' then r else s | [] \<Rightarrow> [])
      in if ds = [] \<or> \<not> list_all is_digit ds then None
         else (let n = digits_val 10 0 ds in if n \<le> bound then Some n else None))"

fun span_digits :: "nat \<Rightarrow> string \<Rightarrow> string \<times> string" where
  "span_digits radix [] = ([], [])"
| "span_digits radix (c # cs) =
     (if digit_val radix c = None then ([], c # cs)
      else (let (a, b) = span_digits radix cs in (c # a, b)))"

definition read_number ::
    "nat \<Rightarrow> nat \<Rightarrow> bool \<Rightarrow> nat \<Rightarrow> string \<Rightarrow> (nat \<times> string) option" where
  "read_number radix max_digits allow_zero_prefix bound s =
     (let (ds, rest) = span_digits radix s; n = digits_val radix 0 ds
      in if max_digits < length ds \<or> ds = [] then None
         else if \<not> allow_zero_prefix \<and> hd ds = CHR ''0'' \<and> 1 < length ds then None
         else if n \<le> bound then Some (n, rest) else None)"

fun read_char :: "char \<Rightarrow> string \<Rightarrow> string option" where
  "read_char c [] = None"
| "read_char c (x # xs) = (if x = c then Some xs else None)"

definition read_separator :: "char \<Rightarrow> nat \<Rightarrow> (string \<Rightarrow> ('a \<times> string) option) \<Rightarrow> string
    \<Rightarrow> ('a \<times> string) option" where
  "read_separator sep index inner s =
     (if 0 < index then Option.bind (read_char sep s) inner else inner s)"

fun read_ipv4_groups :: "nat \<Rightarrow> nat \<Rightarrow> string \<Rightarrow> (nat list \<times> string) option" where
  "read_ipv4_groups 0 i s = Some ([], s)"
| "read_ipv4_groups (Suc n) i s =
     (case read_separator (CHR ''.'') i (read_number 10 3 False 255) s of
        None \<Rightarrow> None
      | Some (g, rest) \<Rightarrow>
          (case read_ipv4_groups n (Suc i) rest of
             None \<Rightarrow> None
           | Some (gs, rest') \<Rightarrow> Some (g # gs, rest')))"

definition read_ipv4_addr :: "string \<Rightarrow> (nat list \<times> string) option" where
  "read_ipv4_addr s = read_ipv4_groups 4 0 s"

definition ipv4_of_octets :: "nat list \<Rightarrow> 32 word" where
  "ipv4_of_octets gs = word_of_nat (foldl (\<lambda>n g. n * 256 + g) 0 gs)"

text \<open>The groups of an IPv6 address up to a limit, and whether they ended in an IPv4 part.\<close>

fun read_groups :: "nat \<Rightarrow> nat \<Rightarrow> nat \<Rightarrow> string \<Rightarrow> nat list \<times> bool \<times> string" where
  "read_groups 0 i limit s = ([], False, s)"
| "read_groups (Suc n) i limit s =
     (case (if i + 1 < limit
            then read_separator (CHR '':'') i read_ipv4_addr s else None) of
        Some (gs, rest) \<Rightarrow>
          ([gs ! 0 * 256 + gs ! 1, gs ! 2 * 256 + gs ! 3], True, rest)
      | None \<Rightarrow>
          (case read_separator (CHR '':'') i (read_number 16 4 True 65535) s of
             None \<Rightarrow> ([], False, s)
           | Some (g, rest) \<Rightarrow>
               (let (gs, v4, rest') = read_groups n (Suc i) limit rest
                in (g # gs, v4, rest'))))"

definition read_ipv6_addr :: "string \<Rightarrow> (nat list \<times> string) option" where
  "read_ipv6_addr s =
     (let (head, head_v4, rest) = read_groups 8 0 8 s
      in if length head = 8 then Some (head, rest)
         else if head_v4 then None
         else (case Option.bind (read_char (CHR '':'') rest) (read_char (CHR '':'')) of
                 None \<Rightarrow> None
               | Some rest' \<Rightarrow>
                   (let limit = 8 - (length head + 1);
                        (tail, _, rest'') = read_groups limit 0 limit rest'
                    in Some (head @ replicate (8 - length head - length tail) 0 @ tail, rest''))))"

definition ipv6_of_segments :: "nat list \<Rightarrow> 128 word" where
  "ipv6_of_segments gs = word_of_nat (foldl (\<lambda>n g. n * 65536 + g) 0 gs)"

definition parse_ip :: "string \<Rightarrow> ip_addr option" where
  "parse_ip s =
     (case read_ipv4_addr s of
        Some (gs, rest) \<Rightarrow> if rest = [] then Some (V4 (ipv4_of_octets gs)) else None
      | None \<Rightarrow>
         (case read_ipv6_addr s of
            Some (gs, rest) \<Rightarrow> if rest = [] then Some (V6 (ipv6_of_segments gs)) else None
          | None \<Rightarrow> None))"

definition octets :: "32 word \<Rightarrow> nat list" where
  "octets ip = map (\<lambda>i. unat (octet i ip)) [0, 1, 2, 3]"

definition segments :: "128 word \<Rightarrow> nat list" where
  "segments ip = map (\<lambda>i. unat (segment i ip)) [0, 1, 2, 3, 4, 5, 6, 7]"

definition show_ipv4 :: "32 word \<Rightarrow> string" where
  "show_ipv4 ip = join_with ''.'' (map show_nat (octets ip))"

text \<open>The first longest run of zero segments, as (start, length).\<close>

fun longest_zeros :: "nat \<Rightarrow> nat \<times> nat \<Rightarrow> nat \<times> nat \<Rightarrow> nat list \<Rightarrow> nat \<times> nat" where
  "longest_zeros i current longest [] = longest"
| "longest_zeros i current longest (s # ss) =
     (if s = 0 then
        (let cur = (if snd current = 0 then i else fst current, Suc (snd current))
         in longest_zeros (Suc i) cur (if snd longest < snd cur then cur else longest) ss)
      else longest_zeros (Suc i) (0, 0) longest ss)"

definition show_ipv6 :: "128 word \<Rightarrow> string" where
  "show_ipv6 ip =
     (let segs = segments ip
      in if take 6 segs = [0, 0, 0, 0, 0, 0xffff]
         then ''::ffff:'' @ show_ipv4 (v4_of_segments (segment 6 ip) (segment 7 ip))
         else (let (start, len) = longest_zeros 0 (0, 0) (0, 0) segs;
                   fmt = (\<lambda>gs. join_with '':'' (map (digits 16) gs))
               in if 1 < len then fmt (take start segs) @ ''::'' @ fmt (drop (start + len) segs)
                  else fmt segs))"

fun show_ip :: "ip_addr \<Rightarrow> string" where
  "show_ip (V4 ip) = show_ipv4 ip"
| "show_ip (V6 ip) = show_ipv6 ip"

text \<open>\<open>IpAddr\<close>'s order: IPv4 before IPv6, then numerically.\<close>

instantiation ip_addr :: linorder
begin
definition less_eq_ip_addr :: "ip_addr \<Rightarrow> ip_addr \<Rightarrow> bool" where
  "less_eq_ip_addr a b = (case (a, b) of
     (V4 x, V4 y) \<Rightarrow> x \<le> y | (V4 x, V6 y) \<Rightarrow> True
   | (V6 x, V4 y) \<Rightarrow> False | (V6 x, V6 y) \<Rightarrow> x \<le> y)"
definition less_ip_addr :: "ip_addr \<Rightarrow> ip_addr \<Rightarrow> bool" where
  "less_ip_addr a b = (a \<le> b \<and> \<not> b \<le> a)" for a b :: ip_addr
instance
  by standard (auto simp: less_eq_ip_addr_def less_ip_addr_def split: ip_addr.splits)
end

section \<open>CIDR strings\<close>

definition family_max :: "ip_addr \<Rightarrow> nat" where
  "family_max ip = (case ip of V4 _ \<Rightarrow> 32 | V6 _ \<Rightarrow> 128)"

definition ip_in_cidr :: "ip_addr \<Rightarrow> string \<Rightarrow> bool" where
  "ip_in_cidr ip cidr_str =
     (let (addr_str, prefix_len) =
            (case split_once (CHR ''/'') cidr_str of
               Some (a, p) \<Rightarrow> (a, Some p) | None \<Rightarrow> (cidr_str, None))
      in case parse_ip addr_str of
           None \<Rightarrow> False
         | Some cidr_addr \<Rightarrow>
             (case prefix_len of
                Some p \<Rightarrow>
                  (case parse_uint 255 p of
                     Some len \<Rightarrow>
                       if len \<le> family_max cidr_addr then ip_in_prefix ip cidr_addr len else False
                   | None \<Rightarrow> False)
              | None \<Rightarrow> ip_in_prefix ip cidr_addr (family_max cidr_addr)))"

fun any_cidr :: "ip_addr \<Rightarrow> string list \<Rightarrow> bool" where
  "any_cidr ip [] = False"
| "any_cidr ip (cidr # cidrs) = (if ip_in_cidr ip cidr then True else any_cidr ip cidrs)"

definition is_allowed :: "ip_addr \<Rightarrow> string list \<Rightarrow> bool" where
  "is_allowed ip0 allowed_cidrs =
     (let ip = normalize_ip ip0
      in if any_cidr ip allowed_cidrs then True else \<not> is_blocked_ip ip)"

section \<open>Trusted proxies\<close>

datatype trusted_proxy = Ip ip_addr | Cidr ip_addr nat

definition trusted_proxy_parse :: "string \<Rightarrow> string + trusted_proxy" where
  "trusted_proxy_parse entry =
     (case split_once (CHR ''/'') entry of
        None \<Rightarrow>
          (case parse_ip entry of
             Some a \<Rightarrow> Inr (Ip a)
           | None \<Rightarrow> Inl (CHR 0x27 # entry @ CHR 0x27 # '' is not an IP address or CIDR block''))
      | Some (addr, pfx) \<Rightarrow>
          (case parse_ip addr of
             None \<Rightarrow> Inl (CHR 0x27 # entry @ CHR 0x27 # '' is not an IP address or CIDR block'')
           | Some a \<Rightarrow>
               (case parse_uint 255 pfx of
                  None \<Rightarrow> Inl (CHR 0x27 # entry @ CHR 0x27 # '' has a prefix that is not a number'')
                | Some len \<Rightarrow>
                    if family_max a < len
                    then Inl (CHR 0x27 # entry @ CHR 0x27 # '' prefix must be <= '' @
                           show_nat (family_max a))
                    else Inr (Cidr a len))))"

definition trusted_proxy_contains :: "trusted_proxy \<Rightarrow> ip_addr \<Rightarrow> bool" where
  "trusted_proxy_contains t ip =
     (let (pfx, len) = (case t of Ip addr \<Rightarrow> (addr, family_max addr) | Cidr addr len \<Rightarrow> (addr, len))
      in ip_in_prefix ip pfx len)"

definition is_trusted_proxy :: "ip_addr \<Rightarrow> trusted_proxy list \<Rightarrow> bool" where
  "is_trusted_proxy ip trusted = list_ex (\<lambda>t. trusted_proxy_contains t ip) trusted"

section \<open>Facts about prefixes and the deny list\<close>

lemma and_high_mask_eq_iff:
  fixes x y :: "'a::len word"
  shows "(x AND push_bit n (NOT 0)) = (y AND push_bit n (NOT 0)) \<longleftrightarrow> drop_bit n x = drop_bit n y"
proof -
  have "(x AND push_bit n (NOT 0)) = push_bit n (drop_bit n x)" for x :: "'a word"
    by (auto simp: bit_eq_iff bit_simps)
  moreover have "drop_bit n (push_bit n (drop_bit n x)) = drop_bit n x" for x :: "'a word"
    by (auto simp: bit_eq_iff bit_simps bit_imp_le_length)
  ultimately show ?thesis by metis
qed

lemma drop_bit_eq_div_unat: "drop_bit n x = drop_bit n y \<longleftrightarrow> unat x div 2 ^ n = unat y div 2 ^ n"
  for x y :: "'a::len word"
  by (metis drop_bit_eq_div unat_drop_bit_eq word_eq_iff_unsigned)

lemma unat_octet: "i < 4 \<Longrightarrow> unat (octet i ip) = unat ip div 2 ^ (24 - 8 * i) mod 256"
  by (simp add: octet_def unsigned_ucast_eq unat_drop_bit_eq take_bit_eq_mod flip: drop_bit_eq_div)

lemma ipv4_in_prefix_iff:
  assumes "len \<le> 32"
  shows "ipv4_in_prefix ip p len \<longleftrightarrow> unat ip div 2 ^ (32 - len) = unat p div 2 ^ (32 - len)"
proof (cases "len = 0")
  case True
  then show ?thesis
    using unsigned_less [where 'a=nat, of ip] unsigned_less [where 'a=nat, of p] by (simp add: ipv4_in_prefix_def)
next
  case False
  then show ?thesis
    unfolding ipv4_in_prefix_def Let_def and_high_mask_eq_iff drop_bit_eq_div_unat by simp
qed

lemma ipv6_in_prefix_iff:
  assumes "len \<le> 128"
  shows "ipv6_in_prefix ip p len \<longleftrightarrow> unat ip div 2 ^ (128 - len) = unat p div 2 ^ (128 - len)"
proof (cases "len = 0")
  case True
  then show ?thesis
    using unsigned_less [where 'a=nat, of ip] unsigned_less [where 'a=nat, of p] by (simp add: ipv6_in_prefix_def)
next
  case False
  then show ?thesis
    unfolding ipv6_in_prefix_def Let_def and_high_mask_eq_iff drop_bit_eq_div_unat by simp
qed

text \<open>
  The deny list as prefixes, the way the ranges are documented: this network, private
  networks, loopback, link-local, shared address space, benchmarking (\<open>198.18.0.0/16\<close>,
  half of the registered \<open>198.18.0.0/15\<close>).
\<close>

definition blocked_v4_prefixes :: "(32 word \<times> nat) list" where
  "blocked_v4_prefixes =
     [(0x00000000, 8), (0x0a000000, 8), (0x7f000000, 8), (0xa9fe0000, 16), (0xac100000, 12),
      (0xc0a80000, 16), (0x64400000, 10), (0xc6120000, 16)]"

lemma octet_eq_iff: "octet i ip = w \<longleftrightarrow> unat (octet i ip) = unat w"
  by (simp add: word_unat_eq_iff)
lemma two_octets:
  fixes ip :: "32 word"
  obtains a b where "unat ip div 65536 = 256 * a + b" "b < 256" "a < 256"
    "unat (octet 0 ip) = a" "unat (octet 1 ip) = b" "unat ip div 16777216 = a"
    "unat ip div 1048576 = (256 * a + b) div 16" "unat ip div 4194304 = (256 * a + b) div 64"
proof -
  let ?h = "unat ip div 65536"
  have lt: "unat ip < 4294967296" using unsigned_less [where 'a=nat, of ip] by simp
  have 1: "unat ip div 16777216 = ?h div 256" by (simp add: div_mult2_eq [symmetric])
  have 2: "unat ip div 1048576 = ?h div 16" by (simp add: div_mult2_eq [symmetric])
  have 3: "unat ip div 4194304 = ?h div 64" by (simp add: div_mult2_eq [symmetric])
  have a: "?h div 256 < 256" using lt by simp
  have h: "?h = 256 * (?h div 256) + ?h mod 256" by simp
  show thesis
  proof (rule that [of "?h div 256" "?h mod 256"])
    show "unat (octet 0 ip) = ?h div 256" using a by (simp add: unat_octet 1)
    show "unat (octet 1 ip) = ?h mod 256" by (simp add: unat_octet)
  qed (use a 1 2 3 h in auto)
qed

lemma div_parts: "(256 * a + b) div 16 = 16 * a + b div (16::nat)" "(256 * a + b) div 64 = 4 * a + b div (64::nat)"
  by linarith+

lemma quot_parts:
  "q < 16 \<Longrightarrow> 16 * a + q = 2753 \<longleftrightarrow> a = 172 \<and> q = (1::nat)"
  "q < 4 \<Longrightarrow> 4 * a + q = 401 \<longleftrightarrow> a = 100 \<and> q = (1::nat)"
  by presburger+

lemma byte_pair_172:
  assumes "b < 256"
  shows "(256 * a + b) div 16 = 2753 \<longleftrightarrow> a = 172 \<and> 16 \<le> b \<and> b \<le> (31::nat)"
proof -
  have "b div 16 < 16" using assms by simp
  then show ?thesis unfolding div_parts quot_parts(1) [OF \<open>b div 16 < 16\<close>] by auto
qed

lemma byte_pair_100:
  assumes "b < 256"
  shows "(256 * a + b) div 64 = 401 \<longleftrightarrow> a = 100 \<and> 64 \<le> b \<and> b \<le> (127::nat)"
proof -
  have "b div 64 < 4" using assms by simp
  then show ?thesis unfolding div_parts quot_parts(2) [OF \<open>b div 64 < 4\<close>] by auto
qed

lemma byte_pair_eq:
  assumes "b < 256" and "d < (256::nat)"
  shows "256 * a + b = 256 * c + d \<longleftrightarrow> a = c \<and> b = d"
proof
  assume e: "256 * a + b = 256 * c + d"
  have "(256 * a + b) div 256 = a" "(256 * c + d) div 256 = c" using assms by simp_all
  then show "a = c \<and> b = d" using e by simp
qed simp

lemma is_blocked_v4_ranges:
  "is_blocked_v4 ip \<longleftrightarrow> list_ex (\<lambda>(p, len). ipv4_in_prefix ip p len) blocked_v4_prefixes"
proof -
  obtain a b where ab: "unat ip div 65536 = 256 * a + b" "b < 256" "a < 256"
    "unat (octet 0 ip) = a" "unat (octet 1 ip) = b" "unat ip div 16777216 = a"
    "unat ip div 1048576 = (256 * a + b) div 16" "unat ip div 4194304 = (256 * a + b) div 64"
    by (rule two_octets)
  have blocked: "is_blocked_v4 ip \<longleftrightarrow>
      a = 0 \<or> a = 10 \<or> a = 127 \<or> (a = 169 \<and> b = 254) \<or> (a = 172 \<and> 16 \<le> b \<and> b \<le> 31)
      \<or> (a = 192 \<and> b = 168) \<or> (a = 100 \<and> 64 \<le> b \<and> b \<le> 127) \<or> (a = 198 \<and> b = 18)"
    unfolding is_blocked_v4_def Let_def word_unat_eq_iff [of "octet 0 ip"]
        word_unat_eq_iff [of "octet 1 ip"] word_le_nat_alt ab(4,5) by simp
  have listed: "list_ex (\<lambda>(p, len). ipv4_in_prefix ip p len) blocked_v4_prefixes \<longleftrightarrow>
      a = 0 \<or> a = 10 \<or> a = 127 \<or> 256 * a + b = 256 * 169 + 254 \<or> (256 * a + b) div 16 = 2753
      \<or> 256 * a + b = 256 * 192 + 168 \<or> (256 * a + b) div 64 = 401 \<or> 256 * a + b = 256 * 198 + 18"
    by (simp add: blocked_v4_prefixes_def ipv4_in_prefix_iff ab)
  note pairs = byte_pair_eq [OF ab(2), of 254 a 169, simplified]
    byte_pair_eq [OF ab(2), of 168 a 192, simplified] byte_pair_eq [OF ab(2), of 18 a 198, simplified]
  show ?thesis
    unfolding blocked listed byte_pair_172 [OF ab(2)] byte_pair_100 [OF ab(2)] by (simp add: pairs)
qed

lemma ucast_and_255: "(ucast (s AND 255 :: 16 word) :: 8 word) = ucast s"
proof -
  have "(255 :: 16 word) = mask 8" by (simp add: mask_eq_exp_minus_1)
  then show ?thesis by (auto simp: bit_eq_iff bit_simps)
qed

lemma v4_of_segments_halves: "v4_of_segments (ucast (drop_bit 16 v)) (ucast v) = v"
proof (rule bit_word_eqI)
  fix n assume "n < LENGTH(32)"
  then have n: "n < 32" by simp
  then consider "n < 8" | "8 \<le> n" "n < 16" | "16 \<le> n" "n < 24" | "24 \<le> n" "n < 32" by linarith
  then show "bit (v4_of_segments (ucast (drop_bit 16 v)) (ucast v)) n = bit v n"
    by cases (auto simp: v4_of_segments_def ipv4_new_def ucast_and_255 bit_simps)
qed

lemma drop_bit_ucast_high: "32 \<le> k \<Longrightarrow> drop_bit k (ucast (v :: 32 word) :: 128 word) = 0"
  by (rule bit_word_eqI) (auto simp: bit_simps dest: bit_imp_le_length)

lemma segment_or_high:
  "i < 6 \<Longrightarrow> segment i (p OR ucast (v :: 32 word)) = segment i p"
  by (simp add: segment_def drop_bit_ucast_high)

lemma segment_or_low:
  "segment 6 p = 0 \<Longrightarrow> segment 6 (p OR ucast (v :: 32 word)) = ucast (drop_bit 16 v)"
  "segment 7 p = 0 \<Longrightarrow> segment 7 (p OR ucast (v :: 32 word)) = ucast v"
  by (auto simp: segment_def bit_eq_iff bit_simps dest: bit_imp_le_length)

text \<open>
  The IPv6 spellings of an IPv4 address that reach the same host: IPv4-compatible,
  IPv4-mapped, NAT64.
\<close>

definition embeddings :: "32 word \<Rightarrow> 128 word list" where
  "embeddings v = [ucast v, 0xffff00000000 OR ucast v, 0x64ff9b000000000000000000000000 OR ucast v]"

lemma normalize_embedding:
  assumes "a \<in> set (embeddings v)"
  shows "normalize_ip (V6 a) = V4 v"
proof -
  have s: "segment i (0::128 word) = 0" for i by (simp add: segment_def)
  have "a = ucast v \<or> a = 0xffff00000000 OR ucast v \<or> a = 0x64ff9b000000000000000000000000 OR ucast v"
    using assms by (auto simp: embeddings_def)
  then show ?thesis
  proof (elim disjE)
    assume a: "a = ucast v"
    show ?thesis
      using segment_or_high [of _ 0 v] segment_or_low [of 0 v]
      unfolding a normalize_ip_def to_ipv4_def by (simp add: s v4_of_segments_halves)
  next
    assume a: "a = 0xffff00000000 OR ucast v"
    have k: "segment 0 0xffff00000000 = 0" "segment 1 0xffff00000000 = 0" "segment 2 0xffff00000000 = 0"
     "segment 3 0xffff00000000 = 0" "segment 4 0xffff00000000 = 0" "segment 5 0xffff00000000 = 0xffff"
     "segment 6 0xffff00000000 = 0" "segment 7 0xffff00000000 = 0"
      by (simp_all add: segment_def)
    show ?thesis
      unfolding a normalize_ip_def to_ipv4_def
      by (simp add: segment_or_high segment_or_low k v4_of_segments_halves del: One_nat_def)
  next
    assume a: "a = 0x64ff9b000000000000000000000000 OR ucast v"
    let ?p = "0x64ff9b000000000000000000000000 :: 128 word"
    have k: "segment 0 ?p = 0x64" "segment 1 ?p = 0xff9b" "segment 2 ?p = 0"
     "segment 3 ?p = 0" "segment 4 ?p = 0" "segment 5 ?p = 0"
     "segment 6 ?p = 0" "segment 7 ?p = 0"
      by (simp_all add: segment_def)
    show ?thesis
      unfolding a normalize_ip_def to_ipv4_def
      by (simp add: segment_or_high segment_or_low k v4_of_segments_halves del: One_nat_def)
  qed
qed

section \<open>Facts about printed numbers and addresses\<close>

lemma byte_digit_char: "d < 36 \<Longrightarrow> byte (digit_char d) = (if d < 10 then d + 48 else d + 87)"
  by (simp add: byte_def digit_char_def)

lemma digit_val_digit_char: "d < r \<Longrightarrow> r \<le> 36 \<Longrightarrow> digit_val r (digit_char d) = Some d"
  by (simp add: digit_val_def byte_digit_char is_digit_def Let_def)

lemma digits_val_append:
  "digits_val r acc (xs @ ys) = digits_val r (digits_val r acc xs) ys"
  by (induction xs arbitrary: acc) auto

lemma digits_nonempty [simp]: "digits r n \<noteq> []"
  by (subst digits.simps) simp

lemma digits_val_digits: "2 \<le> r \<Longrightarrow> r \<le> 36 \<Longrightarrow> digits_val r 0 (digits r n) = n"
proof (induction r n rule: digits.induct)
  case (1 r n)
  then show ?case
    by (subst digits.simps) (auto simp: digit_val_digit_char digits_val_append)
qed

lemma digits_are_digits:
  "2 \<le> r \<Longrightarrow> r \<le> 36 \<Longrightarrow> c \<in> set (digits r n) \<Longrightarrow> digit_val r c \<noteq> None"
proof (induction r n rule: digits.induct)
  case (1 r n)
  from "1.prems" show ?case
    by (subst (asm) digits.simps) (use "1.IH" in \<open>auto simp: digit_val_digit_char split: if_splits\<close>)
qed

lemma hd_digits: "2 \<le> r \<Longrightarrow> r \<le> 36 \<Longrightarrow> 0 < n \<Longrightarrow> hd (digits r n) \<noteq> CHR ''0''"
proof (induction r n rule: digits.induct)
  case (1 r n)
  have z: "digit_val r (CHR ''0'') = Some 0"
    using "1.prems" by (simp add: digit_val_def is_digit_def byte_def)
  show ?case
  proof (cases "n < r")
    case True
    then have "hd (digits r n) = digit_char n" by (subst digits.simps) simp
    then show ?thesis using True "1.prems" z digit_val_digit_char [of n r] by auto
  next
    case False
    then have "0 < n div r" using "1.prems" by (simp add: div_greater_zero_iff)
    with False "1.IH" "1.prems" have "hd (digits r (n div r)) \<noteq> CHR ''0''" by simp
    then show ?thesis using False "1.prems" by (subst digits.simps) simp
  qed
qed

lemma length_digits_3: "n < 1000 \<Longrightarrow> length (digits 10 n) \<le> 3"
  by (subst digits.simps, subst digits.simps, subst digits.simps) auto

lemma length_digits_1: "1 < length (digits r n) \<Longrightarrow> 2 \<le> r \<Longrightarrow> 0 < n"
  by (cases "n = 0") (simp_all add: digits.simps)

lemma span_digits_append:
  assumes "list_all (\<lambda>c. digit_val r c \<noteq> None) ds"
    and "rest = [] \<or> digit_val r (hd rest) = None"
  shows "span_digits r (ds @ rest) = (ds, rest)"
  using assms
proof (induction ds)
  case Nil
  then show ?case by (cases rest) auto
next
  case (Cons d ds)
  then show ?case by auto
qed

lemma read_number_show:
  assumes "n < 256" and "rest = [] \<or> digit_val 10 (hd rest) = None"
  shows "read_number 10 3 False 255 (show_nat n @ rest) = Some (n, rest)"
proof -
  have "list_all (\<lambda>c. digit_val 10 c \<noteq> None) (digits 10 n)"
    using digits_are_digits [of 10] by (simp add: list_all_iff)
  then have sp: "span_digits 10 (show_nat n @ rest) = (digits 10 n, rest)"
    unfolding show_nat_def by (rule span_digits_append [OF _ assms(2)])
  have "length (digits 10 n) \<le> 3" using assms(1) length_digits_3 by simp
  moreover have "hd (digits 10 n) \<noteq> CHR ''0'' \<or> \<not> 1 < length (digits 10 n)"
    using hd_digits [of 10 n] length_digits_1 [of 10 n] by auto
  ultimately show ?thesis
    using assms(1) by (auto simp: read_number_def sp digits_val_digits)
qed

lemma octet_less: "i < 4 \<Longrightarrow> unat (octet i ip) < 256"
  using unsigned_less [where 'a=nat, of "octet i ip"] by simp

lemma unat_four_octets:
  "unat ip = ((unat (octet 0 ip) * 256 + unat (octet 1 ip)) * 256 + unat (octet 2 ip)) * 256
     + unat (octet 3 ip)"
proof -
  let ?n = "unat ip"
  have "?n < 256 * (256 * (256 * 256))" using unsigned_less [where 'a=nat, of ip] by simp
  then have lt: "?n div 256 div 256 div 256 < 256" by (simp add: less_mult_imp_div_less mult.commute)
  have split: "m = m div 256 * 256 + m mod 256" for m :: nat by simp
  have o: "unat (octet 0 ip) = ?n div 256 div 256 div 256" "unat (octet 1 ip) = ?n div 256 div 256 mod 256"
    "unat (octet 2 ip) = ?n div 256 mod 256" "unat (octet 3 ip) = ?n mod 256"
    using lt by (simp_all add: unat_octet div_mult2_eq [symmetric])
  show ?thesis
    unfolding o split [of "?n div 256 div 256", symmetric] split [of "?n div 256", symmetric]
      split [of ?n, symmetric] by (rule refl)
qed

lemma parse_show_ipv4: "parse_ip (show_ip (V4 ip)) = Some (V4 ip)"
proof -
  let ?o = "\<lambda>i. unat (octet i ip)"
  have show4: "show_ip (V4 ip) = show_nat (?o 0) @ CHR ''.'' # show_nat (?o 1) @ CHR ''.'' #
      show_nat (?o 2) @ CHR ''.'' # show_nat (?o 3) @ []"
    by (simp add: show_ipv4_def octets_def)
  have dot: "digit_val 10 (CHR ''.'') = None"
    by (simp add: digit_val_def is_digit_def byte_def)
  have four: "read_ipv4_groups 4 0 s = read_ipv4_groups (Suc (Suc (Suc (Suc 0)))) 0 s" for s
    by (simp add: eval_nat_numeral)
  have "read_ipv4_addr (show_ip (V4 ip)) = Some ([?o 0, ?o 1, ?o 2, ?o 3], [])"
    unfolding show4 read_ipv4_addr_def four
    by (simp add: read_separator_def read_number_show read_number_show [of _ "[]", simplified]
        octet_less dot)
  moreover have "foldl (\<lambda>n g. n * 256 + g) 0 [?o 0, ?o 1, ?o 2, ?o 3] = unat ip"
    by (simp only: foldl.simps mult_0 add_0 unat_four_octets [of ip])
  then have "ipv4_of_octets [?o 0, ?o 1, ?o 2, ?o 3] = ip"
    by (simp only: ipv4_of_octets_def) simp
  ultimately show ?thesis
    by (simp add: parse_ip_def del: show_ip.simps One_nat_def)
qed

section \<open>Properties\<close>

text \<open>
  C35: The SSRF check cannot be bypassed by spelling an IPv4 address as an IPv6 one: whatever
  the allow list, an IPv4-compatible, IPv4-mapped or NAT64 spelling of an address gets the
  verdict of the IPv4 address itself, and with an empty allow list that verdict is refusal
  exactly inside the documented deny ranges.
\<close>

theorem is_allowed_embedded_v4:
  assumes "a \<in> set (embeddings v)"
  shows "is_allowed (V6 a) cidrs = is_allowed (V4 v) cidrs
    \<and> (is_allowed (V6 a) [] \<longleftrightarrow>
         \<not> list_ex (\<lambda>(p, len). ipv4_in_prefix v p len) blocked_v4_prefixes)"
  using normalize_embedding [OF assms]
  by (simp add: is_allowed_def is_blocked_v4_ranges normalize_ip_def [of "V4 v"])

theorem is_allowed_embedded_v4_witness:
  "is_allowed (V6 0xffff7f000001) [''10.0.0.0/8''] = is_allowed (V4 0x7f000001) [''10.0.0.0/8'']
    \<and> (is_allowed (V6 0xffff7f000001) [] \<longleftrightarrow>
         \<not> list_ex (\<lambda>(p, len). ipv4_in_prefix 0x7f000001 p len) blocked_v4_prefixes)"
  by (rule is_allowed_embedded_v4) (simp add: embeddings_def)

text \<open>
  Comparing under the shifted mask is comparing the leading bits: for lengths within the
  family, both prefix tests are equality of the addresses divided by the size of the block
  (so length 0 matches every address and the full length only the address itself).
\<close>

theorem prefix_test_is_quotient:
  assumes "len4 \<le> 32" and "len6 \<le> 128"
  shows "(ip_in_prefix (V4 a) (V4 p) len4 \<longleftrightarrow> unat a div 2 ^ (32 - len4) = unat p div 2 ^ (32 - len4))
    \<and> (ip_in_prefix (V6 b) (V6 q) len6 \<longleftrightarrow> unat b div 2 ^ (128 - len6) = unat q div 2 ^ (128 - len6))"
  using assms by (simp add: ip_in_prefix_def ipv4_in_prefix_iff ipv6_in_prefix_iff)

text \<open>
  Printing an IPv4 address and parsing it back gives the same address, so client
  addresses written to the logs and read from forwarding headers denote the same hosts.
\<close>

theorem parse_show_ipv4_roundtrip: "parse_ip (show_ip (V4 ip)) = Some (V4 ip)"
  by (rule parse_show_ipv4)

end
