(* ===== verification/Config.thy ===== *)
theory Config
  imports Net_Addr Dlp
begin

text \<open>
  The configuration (\<open>src/src/config.rs\<close>): the structures, the built-in defaults and the
  checks of \<open>ConfigApp::new\<close>. Reading and merging the file, the environment and the defaults
  is the work of the crate \<open>config\<close>: the argument \<open>load\<close>, which gives the merged
  configuration or an error. A path is text; durations are whole seconds.
\<close>

section \<open>The structures\<close>

record server_config =
  server_host :: string
  server_port :: nat
  health_detail :: bool
  cache_cleanup_interval_secs :: nat
  cache_max_entries :: nat
  graceful_timeout_secs :: nat
  trusted_proxies :: "trusted_proxy list"
  trusted_proxy_hops :: nat

record auth_config =
  auth_enabled :: bool

record database_config =
  db_path :: string
  reader_pool_size :: nat

record loki_config =
  loki_enabled :: bool
  loki_url :: string
  loki_labels :: "(string \<times> string) list"
  loki_batch_size :: nat
  loki_interval_secs :: nat
  loki_timeout_secs :: nat
  basic_auth_user :: "string option"
  basic_auth_password :: "string option"
  bearer_token :: "string option"

record log_config =
  log_path :: string
  retention_days :: nat
  flush_interval_secs :: nat
  flush_batch :: nat
  channel_cap :: nat
  retention_every :: nat
  log_level :: string
  log_axum :: string
  tower_http_trace :: string
  analytics_timeout_secs :: nat
  analytics_workers :: nat
  duckdb_memory_limit_mb :: nat
  duckdb_threads :: nat
  duckdb_query_timeout_secs :: nat
  loki :: loki_config

record proxy_config =
  timeout_secs :: nat
  proxy_stream :: bool
  sse_idle_timeout_secs :: nat
  sse_max_duration_secs :: nat
  connect_timeout_secs :: nat
  max_response_body_bytes :: nat
  max_request_body_bytes :: nat
  prompt_token_divisor :: nat

record security_config =
  ssrf_allowed_cidrs :: "string list"
  cors_allowed_origins :: "string list"
  cors_allow_credentials :: bool
  dlp_cfg :: dlp_config

record config_app =
  server :: server_config
  auth :: auth_config
  database_cfg :: database_config
  log_cfg :: log_config
  proxy_cfg :: proxy_config
  security :: security_config

section \<open>Defaults\<close>

definition default_loki_labels :: "(string \<times> string) list" where
  "default_loki_labels = [(''app'', ''ait'')]"

definition default_loki :: loki_config where
  "default_loki = \<lparr>loki_enabled = False, loki_url = [], loki_labels = default_loki_labels,
     loki_batch_size = 100, loki_interval_secs = 5, loki_timeout_secs = 5,
     basic_auth_user = None, basic_auth_password = None, bearer_token = None\<rparr>"

text \<open>
  The values \<open>ConfigApp::new\<close> sets before any source is read; the trusted proxies are parsed
  from their texts, as deserialising them does.
\<close>

definition default_trusted :: "trusted_proxy list" where
  "default_trusted = List.map_filter
     (\<lambda>s. case trusted_proxy_parse s of Inr t \<Rightarrow> Some t | Inl _ \<Rightarrow> None) [''127.0.0.1'', ''::1'']"

definition default_config :: config_app where
  "default_config = \<lparr>
     server = \<lparr>server_host = ''127.0.0.1'', server_port = 8000, health_detail = False,
       cache_cleanup_interval_secs = 300, cache_max_entries = 1000, graceful_timeout_secs = 10,
       trusted_proxies = default_trusted, trusted_proxy_hops = 1\<rparr>,
     auth = \<lparr>auth_enabled = True\<rparr>,
     database_cfg = \<lparr>db_path = ''./data/ait.db'', reader_pool_size = 4\<rparr>,
     log_cfg = \<lparr>log_path = ''./data/ait-logs.duckdb'', retention_days = 30,
       flush_interval_secs = 10, flush_batch = 100, channel_cap = 10000, retention_every = 100,
       log_level = ''info'', log_axum = ''info'', tower_http_trace = ''info'',
       analytics_timeout_secs = 10, analytics_workers = 2, duckdb_memory_limit_mb = 512,
       duckdb_threads = 2, duckdb_query_timeout_secs = 60, loki = default_loki\<rparr>,
     proxy_cfg = \<lparr>timeout_secs = 300, proxy_stream = True, sse_idle_timeout_secs = 60,
       sse_max_duration_secs = 1800, connect_timeout_secs = 30,
       max_response_body_bytes = 8 * 1024 * 1024, max_request_body_bytes = 8 * 1024 * 1024,
       prompt_token_divisor = 3\<rparr>,
     security = \<lparr>ssrf_allowed_cidrs = [], cors_allowed_origins = [],
       cors_allow_credentials = False,
       dlp_cfg = \<lparr>cfg_enabled = False, sensitive_values = [], cfg_scan_numbers = False\<rparr>\<rparr>\<rparr>"

section \<open>Loading\<close>

definition max_retention_days :: nat where
  "max_retention_days = 36500"

definition require_positive_secs :: "nat \<Rightarrow> string \<Rightarrow> string + unit" where
  "require_positive_secs secs key =
     (if secs = 0 then Inl (key @ '' must be >= 1'') else Inr ())"

fun require_all_positive :: "(nat \<times> string) list \<Rightarrow> string + unit" where
  "require_all_positive [] = Inr ()"
| "require_all_positive ((secs, key) # rest) =
     and_then (require_positive_secs secs key) (\<lambda>_. require_all_positive rest)"

definition reject_if :: "bool \<Rightarrow> string \<Rightarrow> string + unit" where
  "reject_if b msg = (if b then Inl msg else Inr ())"

definition check_config :: "config_app \<Rightarrow> string + config_app" where
  "check_config app =
     and_then (reject_if (retention_every (log_cfg app) = 0)
       ''log.retention_every must be >= 1 (0 crashes the log worker)'') (\<lambda>_.
     and_then (reject_if (\<not> (1 \<le> prompt_token_divisor (proxy_cfg app)
           \<and> prompt_token_divisor (proxy_cfg app) \<le> 5))
       ''proxy.prompt_token_divisor must be between 1 and 5'') (\<lambda>_.
     and_then (require_all_positive
       [(cache_cleanup_interval_secs (server app), ''server.cache_cleanup_interval_secs''),
        (flush_interval_secs (log_cfg app), ''log.flush_interval_secs''),
        (timeout_secs (proxy_cfg app), ''proxy.timeout_secs''),
        (sse_idle_timeout_secs (proxy_cfg app), ''proxy.sse_idle_timeout_secs''),
        (connect_timeout_secs (proxy_cfg app), ''proxy.connect_timeout_secs'')]) (\<lambda>_.
     and_then (reject_if (channel_cap (log_cfg app) = 0) ''log.channel_cap must be >= 1'') (\<lambda>_.
     and_then (reject_if (\<not> (1 \<le> reader_pool_size (database_cfg app)
           \<and> reader_pool_size (database_cfg app) \<le> 32))
       ''database.reader_pool_size must be between 1 and 32'') (\<lambda>_.
     and_then (reject_if (\<not> (1 \<le> analytics_workers (log_cfg app)
           \<and> analytics_workers (log_cfg app) \<le> 8))
       ''log.analytics_workers must be between 1 and 8'') (\<lambda>_.
     and_then (reject_if ((basic_auth_user (loki (log_cfg app)) \<noteq> None)
           \<noteq> (basic_auth_password (loki (log_cfg app)) \<noteq> None))
       ''log.loki.basic_auth_user and log.loki.basic_auth_password must be set together (or neither)'') (\<lambda>_.
     and_then (reject_if (duckdb_memory_limit_mb (log_cfg app) = 0)
       ''log.duckdb_memory_limit_mb must be >= 1'') (\<lambda>_.
     and_then (require_positive_secs (duckdb_threads (log_cfg app)) ''log.duckdb_threads'') (\<lambda>_.
     and_then (reject_if (retention_days (log_cfg app) > max_retention_days)
       (''log.retention_days must be <= '' @ show_nat max_retention_days)) (\<lambda>_.
     and_then (reject_if (analytics_timeout_secs (log_cfg app) = 0)
       ''log.analytics_timeout_secs must be >= 1'') (\<lambda>_.
     and_then (reject_if (cors_allow_credentials (security app)
           \<and> list_ex (\<lambda>origin. origin = ''*'') (cors_allowed_origins (security app)))
       (''security.cors_allowed_origins = [\"*\"] cannot be combined with ''
        @ ''security.cors_allow_credentials = true: it reflects any Origin ''
        @ ''while allowing credentials. List explicit origins instead.'')) (\<lambda>_.
     Inr app))))))))))))"

definition config_new ::
    "(string \<Rightarrow> string + config_app) \<Rightarrow> string option \<Rightarrow> string + config_app" where
  "config_new load config_path =
     and_then (load (case config_path of Some p \<Rightarrow> p | None \<Rightarrow> ''config/ait'')) check_config"

section \<open>Properties\<close>

definition config_ok :: "config_app \<Rightarrow> bool" where
  "config_ok app \<longleftrightarrow>
     0 < retention_every (log_cfg app) \<and> prompt_token_divisor (proxy_cfg app) \<in> {1..5}
   \<and> 0 < cache_cleanup_interval_secs (server app) \<and> 0 < flush_interval_secs (log_cfg app)
   \<and> 0 < timeout_secs (proxy_cfg app) \<and> 0 < sse_idle_timeout_secs (proxy_cfg app)
   \<and> 0 < connect_timeout_secs (proxy_cfg app) \<and> 0 < channel_cap (log_cfg app)
   \<and> reader_pool_size (database_cfg app) \<in> {1..32} \<and> analytics_workers (log_cfg app) \<in> {1..8}
   \<and> (basic_auth_user (loki (log_cfg app)) = None)
       = (basic_auth_password (loki (log_cfg app)) = None)
   \<and> 0 < duckdb_memory_limit_mb (log_cfg app) \<and> 0 < duckdb_threads (log_cfg app)
   \<and> retention_days (log_cfg app) \<le> 36500 \<and> 0 < analytics_timeout_secs (log_cfg app)
   \<and> \<not> (cors_allow_credentials (security app) \<and> ''*'' \<in> set (cors_allowed_origins (security app)))"

lemma reject_if_Inr [res_simps]: "reject_if b msg = Inr u \<longleftrightarrow> \<not> b"
  by (simp add: reject_if_def)

lemma require_positive_Inr [res_simps]: "require_positive_secs n key = Inr u \<longleftrightarrow> 0 < n"
  by (simp add: require_positive_secs_def)

lemma check_config_Inr: "check_config app = Inr app' \<longleftrightarrow> app' = app \<and> config_ok app"
  unfolding check_config_def config_ok_def max_retention_days_def
  by (auto simp: res_simps list_ex_iff)

lemma default_config_ok: "config_ok default_config"
  by (simp add: config_ok_def default_config_def default_loki_def)

text \<open>
  The program starts with a configuration exactly when the merged sources satisfy every
  check: no divisor, interval or pool size that a consumer would divide by, spin on or panic
  on is zero, pools are bounded, half a Loki credential pair and credentials for any origin
  are refused; the checks change nothing, and the built-in defaults satisfy them.
\<close>

theorem config_accepts_exactly:
  "(config_new load path = Inr app \<longleftrightarrow>
      load (case path of Some p \<Rightarrow> p | None \<Rightarrow> ''config/ait'') = Inr app \<and> config_ok app)
   \<and> check_config default_config = Inr default_config"
  using default_config_ok by (auto simp: config_new_def check_config_Inr res_simps)

end
