(* ===== verification/Codec.thy ===== *)
theory Codec
  imports Json
begin

text \<open>
  A concrete codec that meets \<open>codec_law\<close>: a tagged prefix encoding of JSON values. It is
  not JSON's grammar, and nothing in the model depends on it; the witnesses of properties that
  assume the codec's round trip use it to show that the assumption can be met.
\<close>

definition encode_nat :: "nat \<Rightarrow> string" where
  "encode_nat n = replicate n (CHR ''1'') @ ''0''"

definition encode_str :: "string \<Rightarrow> string" where
  "encode_str s = encode_nat (length s) @ s"

fun encode :: "json \<Rightarrow> string"
  and encode_fields :: "(string \<times> json) list \<Rightarrow> string" where
  "encode Null = ''n''"
| "encode (Bool b) = (if b then ''t'' else ''f'')"
| "encode (Number (Integer i)) =
     (if i < 0 then CHR ''m'' # encode_nat (nat (- i)) else CHR ''p'' # encode_nat (nat i))"
| "encode (Number (Float s)) = CHR ''d'' # encode_str s"
| "encode (String s) = CHR ''s'' # encode_str s"
| "encode (Array xs) = CHR ''a'' # encode_nat (length xs) @ concat (map encode xs)"
| "encode (Object m) = CHR ''o'' # encode_nat (length m) @ encode_fields m"
| "encode_fields [] = []"
| "encode_fields ((k, v) # m) = encode_str k @ encode v @ encode_fields m"

fun decode_nat :: "string \<Rightarrow> (nat \<times> string) option" where
  "decode_nat [] = None"
| "decode_nat (c # cs) =
     (if c = CHR ''0'' then Some (0, cs)
      else map_option (\<lambda>(n, r). (Suc n, r)) (decode_nat cs))"

definition decode_str :: "string \<Rightarrow> (string \<times> string) option" where
  "decode_str s = map_option (\<lambda>(n, r). (take n r, drop n r)) (decode_nat s)"

fun decode :: "nat \<Rightarrow> string \<Rightarrow> (json \<times> string) option"
  and decode_list :: "nat \<Rightarrow> nat \<Rightarrow> string \<Rightarrow> (json list \<times> string) option"
  and decode_fields :: "nat \<Rightarrow> nat \<Rightarrow> string \<Rightarrow> ((string \<times> json) list \<times> string) option" where
  "decode 0 s = None"
| "decode (Suc fuel) [] = None"
| "decode (Suc fuel) (c # cs) =
     (if c = CHR ''n'' then Some (Null, cs)
      else if c = CHR ''t'' then Some (Bool True, cs)
      else if c = CHR ''f'' then Some (Bool False, cs)
      else if c = CHR ''m'' then
        map_option (\<lambda>(n, r). (Number (Integer (- int n)), r)) (decode_nat cs)
      else if c = CHR ''p'' then map_option (\<lambda>(n, r). (Number (Integer (int n)), r)) (decode_nat cs)
      else if c = CHR ''d'' then map_option (\<lambda>(t, r). (Number (Float t), r)) (decode_str cs)
      else if c = CHR ''s'' then map_option (\<lambda>(t, r). (String t, r)) (decode_str cs)
      else (case decode_nat cs of
              None \<Rightarrow> None
            | Some (n, r) \<Rightarrow>
                if c = CHR ''a'' then map_option (\<lambda>(xs, r). (Array xs, r)) (decode_list fuel n r)
                else map_option (\<lambda>(m, r). (Object m, r)) (decode_fields fuel n r)))"
| "decode_list 0 n s = None"
| "decode_list (Suc fuel) 0 s = Some ([], s)"
| "decode_list (Suc fuel) (Suc n) s =
     (case decode fuel s of
        None \<Rightarrow> None
      | Some (x, r) \<Rightarrow> map_option (\<lambda>(xs, r). (x # xs, r)) (decode_list fuel n r))"
| "decode_fields 0 n s = None"
| "decode_fields (Suc fuel) 0 s = Some ([], s)"
| "decode_fields (Suc fuel) (Suc n) s =
     (case decode_str s of
        None \<Rightarrow> None
      | Some (k, r) \<Rightarrow>
          (case decode fuel r of
             None \<Rightarrow> None
           | Some (x, r) \<Rightarrow> map_option (\<lambda>(m, r). ((k, x) # m, r)) (decode_fields fuel n r)))"

text \<open>Enough fuel for a value: its number of nested steps.\<close>

fun depth :: "json \<Rightarrow> nat"
  and depth_fields :: "(string \<times> json) list \<Rightarrow> nat" where
  "depth (Array xs) = Suc (Suc (sum_list (map (\<lambda>x. Suc (depth x)) xs)))"
| "depth (Object m) = Suc (Suc (depth_fields m))"
| "depth _ = 1"
| "depth_fields [] = 0"
| "depth_fields ((k, v) # m) = Suc (depth v) + depth_fields m"

lemma decode_nat_encode [simp]: "decode_nat (encode_nat n @ r) = Some (n, r)"
  by (induction n) (simp_all add: encode_nat_def)

lemma decode_str_encode [simp]: "decode_str (encode_str s @ r) = Some (s, r)"
  by (simp add: decode_str_def encode_str_def)

lemma length_encode_nat [simp]: "length (encode_nat n) = Suc n"
  by (simp add: encode_nat_def)

lemma decode_list_encode:
  assumes "\<And>x fuel r. x \<in> set xs \<Longrightarrow> depth x \<le> fuel \<Longrightarrow> decode fuel (encode x @ r) = Some (x, r)"
    and "Suc (sum_list (map (\<lambda>x. Suc (depth x)) xs)) \<le> fuel"
  shows "decode_list fuel (length xs) (concat (map encode xs) @ r) = Some (xs, r)"
  using assms
proof (induction xs arbitrary: fuel)
  case Nil
  then show ?case by (cases fuel) simp_all
next
  case (Cons x xs)
  then show ?case by (cases fuel) simp_all
qed

lemma decode_encode:
  "depth v \<le> fuel \<Longrightarrow> decode fuel (encode v @ r) = Some (v, r)"
  "Suc (depth_fields m) \<le> fuel \<Longrightarrow>
     decode_fields fuel (length m) (encode_fields m @ r) = Some (m, r)"
proof (induction v and m arbitrary: fuel r and fuel r rule: encode_encode_fields.induct)
  case (1 fuel r)
  then show ?case by (cases fuel) simp_all
next
  case (2 b fuel r)
  then show ?case by (cases fuel) simp_all
next
  case (3 i fuel r)
  then show ?case by (cases fuel) simp_all
next
  case (4 s fuel r)
  then show ?case by (cases fuel) simp_all
next
  case (5 s fuel r)
  then show ?case by (cases fuel) simp_all
next
  case (6 xs fuel r)
  then obtain n where n: "fuel = Suc n" "Suc (sum_list (map (\<lambda>x. Suc (depth x)) xs)) \<le> n"
    by (cases fuel) auto
  have "decode_list n (length xs) (concat (map encode xs) @ r) = Some (xs, r)"
    using 6(1) n(2) by (intro decode_list_encode) auto
  with n(1) show ?case by simp
next
  case (7 m fuel r)
  then show ?case by (cases fuel) simp_all
next
  case (8 fuel r)
  then show ?case by (cases fuel) simp_all
next
  case (9 k v m fuel r)
  then show ?case by (cases fuel) simp_all
qed

text \<open>The length of a text bounds the depth of the value it encodes.\<close>

lemma sum_list_le_length:
  assumes "\<And>x. x \<in> set xs \<Longrightarrow> Suc (f x) \<le> 2 * length (g x)"
  shows "sum_list (map (\<lambda>x. Suc (f x)) xs) \<le> 2 * length (concat (map g xs))"
  using assms
proof (induction xs)
  case (Cons x xs)
  have "Suc (f x) \<le> 2 * length (g x)"
    and "sum_list (map (\<lambda>x. Suc (f x)) xs) \<le> 2 * length (concat (map g xs))"
    by (simp add: Cons.prems, rule Cons.IH, simp add: Cons.prems)
  then show ?case by simp
qed simp

lemma depth_le_length:
  "Suc (depth v) \<le> 2 * length (encode v)"
  "depth_fields m \<le> 2 * length (encode_fields m)"
proof (induction v and m rule: encode_encode_fields.induct)
  case (6 xs)
  have "sum_list (map (\<lambda>x. Suc (depth x)) xs) \<le> 2 * length (concat (map encode xs))"
    by (rule sum_list_le_length) (use 6 in auto)
  then show ?case by simp
qed simp_all

definition tagged_encode :: to_vec where
  "tagged_encode v = Inr (encode v)"

definition tagged_decode :: from_slice where
  "tagged_decode s = (case decode (2 * length s) s of
     Some (v, []) \<Rightarrow> Some v
   | _ \<Rightarrow> None)"

lemma tagged_decode_encode [simp]: "tagged_decode (encode v) = Some v"
proof -
  have "depth v \<le> 2 * length (encode v)"
    using depth_le_length(1) [of v] by simp
  then show ?thesis
    using decode_encode(1) [of v "2 * length (encode v)" "[]"] by (simp add: tagged_decode_def)
qed

lemma tagged_codec_law: "codec_law tagged_decode tagged_encode"
  by (simp add: codec_law_def tagged_encode_def)

end
