(* ===== verification/Validate.thy ===== *)
theory Validate
  imports Errors
begin

text \<open>
  Input validation: \<open>validate_string\<close> and its character classes (\<open>src/src/handlers/mod.rs\<close>)
  and \<open>validate_base_url\<close> (\<open>src/src/handlers/providers.rs\<close>). A character is its UTF-8 byte
  sequence. The URL parser is a crate: \<open>url_parse\<close> gives a URL's scheme, host and normalized
  text, or fails; \<open>alphanumeric\<close> is Unicode's class outside ASCII.
\<close>

section \<open>Strings\<close>

definition validate_string ::
    "string \<Rightarrow> string \<Rightarrow> nat \<Rightarrow> (string \<Rightarrow> bool) \<Rightarrow> ait_error + string" where
  "validate_string value field_name mx allowed_chars =
     (let trimmed = trim value
      in if trimmed = [] then Inl (bad_request (field_name @ '' must not be empty''))
         else if length trimmed > mx then
           Inl (bad_request
             (field_name @ '' must not exceed '' @ show_nat mx @ '' characters''))
         else if \<not> list_all allowed_chars (utf8_chars trimmed) then
           Inl (bad_request (field_name @ '' contains invalid characters''))
         else Inr trimmed)"

fun ident_chars :: "string \<Rightarrow> bool" where
  "ident_chars [c] = (is_ascii_alphanumeric c \<or> c \<in> set '' _-.'')"
| "ident_chars _ = False"

fun model_name_chars :: "string \<Rightarrow> bool" where
  "model_name_chars [c] = (is_ascii_alphanumeric c \<or> c \<in> set '' _-.:'')"
| "model_name_chars _ = False"

fun upstream_model_chars :: "string \<Rightarrow> bool" where
  "upstream_model_chars [c] = (is_ascii_alphanumeric c \<or> c \<in> set '' _-.:/()@'')"
| "upstream_model_chars _ = False"

definition is_ascii_hexdigit :: "char \<Rightarrow> bool" where
  "is_ascii_hexdigit c =
     (is_digit c \<or> (65 \<le> byte c \<and> byte c \<le> 70) \<or> (97 \<le> byte c \<and> byte c \<le> 102))"

fun uuid_chars :: "string \<Rightarrow> bool" where
  "uuid_chars [c] = (is_ascii_hexdigit c \<or> c = CHR ''-'')"
| "uuid_chars _ = False"

section \<open>Base URLs\<close>

record url =
  url_text :: string
  url_scheme :: string
  url_host :: "string option"
  url_port :: "nat option"

text \<open>
  \<open>reqwest::Url\<close> as the program uses it: \<open>url_text\<close> is \<open>to_string()\<close>, \<open>url_port\<close> is
  \<open>port_or_known_default()\<close>.
\<close>

type_synonym url_parse = "string \<Rightarrow> url option"

text \<open>What follows the first \<open>://\<close>, or the whole text if there is none.\<close>

fun after_scheme :: "string \<Rightarrow> string option" where
  "after_scheme [] = None"
| "after_scheme (c # cs) =
     (case strip_prefix ''://'' (c # cs) of Some r \<Rightarrow> Some r | None \<Rightarrow> after_scheme cs)"

definition raw_host :: "string \<Rightarrow> string" where
  "raw_host url =
     (let rest = (case after_scheme url of Some r \<Rightarrow> r | None \<Rightarrow> url);
          authority = takeWhile (\<lambda>c. c \<notin> set ''/?#'') rest
      in (case strip_prefix ''['' authority of
            Some after \<Rightarrow> takeWhile (\<lambda>c. c \<noteq> CHR '']'') after
          | None \<Rightarrow> takeWhile (\<lambda>c. c \<noteq> CHR '':'') authority))"

fun base_url_char :: "(string \<Rightarrow> bool) \<Rightarrow> string \<Rightarrow> bool" where
  "base_url_char alphanumeric [c] =
     (is_ascii_alphanumeric c \<or> c \<in> set ''.-_~:/[]%'')"
| "base_url_char alphanumeric s = alphanumeric s"

definition validate_base_url ::
    "(string \<Rightarrow> bool) \<Rightarrow> url_parse \<Rightarrow> string \<Rightarrow> ait_error + url" where
  "validate_base_url alphanumeric url_parse url =
     (if \<not> list_all (base_url_char alphanumeric) (utf8_chars url) then
        Inl (bad_request ''base_url contains invalid characters'')
      else (case url_parse url of
        None \<Rightarrow> Inl (bad_request ''base_url is not a valid URL'')
      | Some parsed \<Rightarrow>
          if url_scheme parsed \<noteq> ''http'' \<and> url_scheme parsed \<noteq> ''https'' then
            Inl (bad_request ''base_url must use http:// or https:// scheme'')
          else if url_host parsed = None then Inl (bad_request ''base_url must include a host'')
          else if list_all is_digit (raw_host url) then
            Inl (bad_request ''base_url host cannot be purely numeric'')
          else Inr parsed))"

section \<open>Trimming\<close>

text \<open>A list of characters is well formed if splitting its text again gives the list.\<close>

definition utf8_wf :: "string list \<Rightarrow> bool" where
  "utf8_wf cs \<longleftrightarrow> (\<forall>c \<in> set cs. c \<noteq> [] \<and> list_all is_continuation (tl c))
    \<and> (\<forall>c \<in> set (tl cs). \<not> is_continuation (hd c))"

lemma utf8_chars_append_char:
  assumes "list_all is_continuation t" and "s = [] \<or> \<not> is_continuation (hd s)"
  shows "utf8_chars ((c # t) @ s) = (c # t) # utf8_chars s"
  using assms
proof (induction t arbitrary: c)
  case Nil
  then show ?case
    by (cases s; cases "utf8_chars s") (auto split: list.split)
next
  case (Cons d t)
  then show ?case by simp
qed

lemma hd_concat: "cs \<noteq> [] \<Longrightarrow> hd cs \<noteq> [] \<Longrightarrow> hd (concat cs) = hd (hd cs)"
  by (cases cs) auto

lemma utf8_chars_concat: "utf8_wf cs \<Longrightarrow> utf8_chars (concat cs) = cs"
proof (induction cs)
  case (Cons x cs)
  from Cons.prems obtain c t where x: "x = c # t" "list_all is_continuation t"
    by (cases x) (auto simp: utf8_wf_def)
  have "utf8_wf cs" using Cons.prems by (cases cs) (auto simp: utf8_wf_def)
  moreover have "concat cs = [] \<or> \<not> is_continuation (hd (concat cs))"
    using Cons.prems by (cases cs) (auto simp: utf8_wf_def hd_concat)
  ultimately show ?case
    using utf8_chars_append_char [OF x(2)] Cons.IH x(1) by simp
qed simp

lemma utf8_chars_wf: "utf8_wf (utf8_chars s)"
proof (induction s)
  case (Cons c cs)
  have hd_eq: "hd (hd (utf8_chars cs)) = hd cs" if "utf8_chars cs \<noteq> []"
    using concat_utf8_chars [of cs] utf8_chars_nonempty [of "hd (utf8_chars cs)" cs] that
    by (metis hd_concat hd_in_set)
  note IH = Cons.IH
  show ?case
  proof (cases "utf8_chars cs")
    case Nil
    then show ?thesis by (simp add: utf8_wf_def)
  next
    case (Cons s ss)
    have hd_s: "hd s = hd cs" using hd_eq Cons by simp
    have s: "s \<noteq> []" "list_all is_continuation (tl s)"
      and ss: "\<forall>c \<in> set ss. c \<noteq> [] \<and> list_all is_continuation (tl c)"
      "\<forall>c \<in> set ss. \<not> is_continuation (hd c)"
      using IH by (simp_all add: Cons utf8_wf_def)
    show ?thesis
    proof (cases "is_continuation (hd cs)")
      case True
      then have "list_all is_continuation s" using s hd_s by (cases s) simp_all
      then show ?thesis using True ss by (simp add: Cons utf8_wf_def)
    next
      case False
      then show ?thesis using s ss hd_s by (simp add: Cons utf8_wf_def)
    qed
  qed
qed (simp add: utf8_wf_def)

lemma utf8_wf_append:
  assumes "utf8_wf (a @ b)"
  shows "utf8_wf a" and "utf8_wf b"
proof -
  show "utf8_wf a" using assms by (cases a) (auto simp: utf8_wf_def)
  have "set (tl b) \<subseteq> set (tl (a @ b))" by (cases a; cases b) auto
  then show "utf8_wf b" using assms by (auto simp: utf8_wf_def)
qed

definition trim_list :: "string list \<Rightarrow> string list" where
  "trim_list cs = rev (dropWhile is_whitespace (rev (dropWhile is_whitespace cs)))"

lemma trim_trim_list: "trim s = concat (trim_list (utf8_chars s))"
  by (simp add: trim_def trim_list_def)

lemma trim_list_wf: "utf8_wf cs \<Longrightarrow> utf8_wf (trim_list cs)"
proof -
  assume "utf8_wf cs"
  then have "utf8_wf (dropWhile is_whitespace cs)"
    using utf8_wf_append(2) [of "takeWhile is_whitespace cs"] by simp
  moreover have "dropWhile is_whitespace cs
      = trim_list cs @ rev (takeWhile is_whitespace (rev (dropWhile is_whitespace cs)))"
    unfolding trim_list_def by (metis rev_append rev_rev_ident takeWhile_dropWhile_id)
  ultimately show ?thesis using utf8_wf_append(1) by metis
qed

lemma utf8_chars_trim: "utf8_chars (trim s) = trim_list (utf8_chars s)"
  by (simp add: trim_trim_list utf8_chars_concat trim_list_wf utf8_chars_wf)

lemma dropWhile_id: "xs = [] \<or> \<not> P (hd xs) \<Longrightarrow> dropWhile P xs = xs"
  by (cases xs) auto

lemma trim_list_ends:
  "trim_list cs = [] \<or> \<not> is_whitespace (hd (trim_list cs))"
  "trim_list cs = [] \<or> \<not> is_whitespace (last (trim_list cs))"
proof -
  let ?d = "dropWhile is_whitespace cs"
  have split: "?d = trim_list cs @ rev (takeWhile is_whitespace (rev ?d))"
    unfolding trim_list_def by (metis rev_append rev_rev_ident takeWhile_dropWhile_id)
  show "trim_list cs = [] \<or> \<not> is_whitespace (hd (trim_list cs))"
  proof (rule disjCI)
    assume "\<not> \<not> is_whitespace (hd (trim_list cs))"
    moreover have "hd ?d = hd (trim_list cs) \<and> ?d \<noteq> []" if "trim_list cs \<noteq> []"
      using split that by (metis append_is_Nil_conv hd_append2)
    ultimately show "trim_list cs = []" using hd_dropWhile by metis
  qed
  show "trim_list cs = [] \<or> \<not> is_whitespace (last (trim_list cs))"
  proof (rule disjCI)
    assume "\<not> \<not> is_whitespace (last (trim_list cs))"
    then have "is_whitespace (hd (dropWhile is_whitespace (rev ?d)))"
      by (simp add: trim_list_def last_rev)
    then show "trim_list cs = []" using hd_dropWhile [of is_whitespace "rev ?d"]
      by (auto simp: trim_list_def)
  qed
qed

lemma trim_list_idem: "trim_list (trim_list cs) = trim_list cs"
proof -
  let ?t = "trim_list cs"
  have "dropWhile is_whitespace ?t = ?t"
    using trim_list_ends(1) [of cs] by (rule dropWhile_id)
  moreover have "dropWhile is_whitespace (rev ?t) = rev ?t"
    by (rule dropWhile_id) (use trim_list_ends(2) [of cs] in \<open>auto simp: hd_rev\<close>)
  ultimately show ?thesis unfolding trim_list_def [of ?t] by simp
qed

lemma trim_idem [simp]: "trim (trim s) = trim s"
  by (simp add: trim_trim_list [of "trim s"] utf8_chars_trim trim_list_idem)
    (simp add: trim_trim_list)

lemma validate_string_Inr [res_simps]:
  "validate_string v f mx ok = Inr r \<longleftrightarrow>
     r = trim v \<and> trim v \<noteq> [] \<and> length (trim v) \<le> mx \<and> list_all ok (utf8_chars (trim v))"
  by (auto simp: validate_string_def Let_def)

lemma validate_base_url_Inr [res_simps]:
  "validate_base_url al parse u = Inr p \<longleftrightarrow>
     list_all (base_url_char al) (utf8_chars u) \<and> parse u = Some p
     \<and> url_scheme p \<in> {''http'', ''https''} \<and> url_host p \<noteq> None
     \<and> \<not> list_all is_digit (raw_host u)"
  by (auto simp: validate_base_url_def split: option.splits if_splits)

section \<open>Properties\<close>

text \<open>
  A validated string is the trimmed input, not empty, within the limit in bytes and made of
  allowed characters only, and validation is exact and idempotent: it accepts precisely these
  inputs, what it returned is accepted again unchanged, and every refusal is a 400.
\<close>

theorem validate_string_exact:
  "(\<exists>r. validate_string v f mx ok = Inr r) =
      (trim v \<noteq> [] \<and> length (trim v) \<le> mx \<and> list_all ok (utf8_chars (trim v)))
   \<and> (case validate_string v f mx ok of
        Inr r \<Rightarrow> r = trim v \<and> validate_string r f mx ok = Inr r
      | Inl e \<Rightarrow> err_code e = 400 \<and> err_type e = ''invalid_request_error'')"
proof (cases "validate_string v f mx ok")
  case (Inl e)
  then have "\<not> (trim v \<noteq> [] \<and> length (trim v) \<le> mx \<and> list_all ok (utf8_chars (trim v)))"
    using validate_string_Inr [of v f mx ok "trim v"] by simp
  moreover from Inl have "err_code e = 400 \<and> err_type e = ''invalid_request_error''"
    by (auto simp: validate_string_def Let_def error_defs split: if_splits)
  ultimately show ?thesis using Inl by simp
next
  case (Inr r)
  then have "r = trim v" "trim v \<noteq> []" "length (trim v) \<le> mx"
      "list_all ok (utf8_chars (trim v))"
    by (simp_all add: validate_string_Inr)
  moreover from this have "validate_string r f mx ok = Inr r"
    by (simp add: validate_string_def Let_def)
  ultimately show ?thesis unfolding Inr by simp
qed

text \<open>
  A base URL is accepted only if its characters are in the allowed set (so it carries no
  user info, query, fragment or space), the parser accepts it, its scheme is http or
  https, it has a host, and that host as written is not a bare number.
\<close>

theorem validate_base_url_sound:
  assumes "validate_base_url alphanumeric url_parse u = Inr p"
  shows "url_parse u = Some p \<and> url_scheme p \<in> {''http'', ''https''}
    \<and> url_host p \<noteq> None \<and> raw_host u \<noteq> [] \<and> \<not> list_all is_digit (raw_host u)
    \<and> ''?'' \<notin> set (utf8_chars u) \<and> ''#'' \<notin> set (utf8_chars u)
    \<and> ''@'' \<notin> set (utf8_chars u) \<and> '' '' \<notin> set (utf8_chars u)"
proof -
  have acc: "url_parse u = Some p" "url_scheme p \<in> {''http'', ''https''}" "url_host p \<noteq> None"
      "\<not> list_all is_digit (raw_host u)" "list_all (base_url_char alphanumeric) (utf8_chars u)"
    using assms by (simp_all add: res_simps)
  have "raw_host u \<noteq> []" using acc(4) by (cases "raw_host u") simp_all
  moreover have "s \<notin> set (utf8_chars u)" if "\<not> base_url_char alphanumeric s" for s
    using acc(5) that by (auto simp: list_all_iff)
  moreover have "\<not> base_url_char alphanumeric ''?''" "\<not> base_url_char alphanumeric ''#''"
      "\<not> base_url_char alphanumeric ''@''" "\<not> base_url_char alphanumeric '' ''"
    by code_simp+
  ultimately show ?thesis using acc by simp
qed

theorem validate_base_url_sound_witness:
  "raw_host ''http://10.0.0.1:80/v1'' = ''10.0.0.1''
   \<and> url_scheme \<lparr>url_text = ''u'', url_scheme = ''http'', url_host = Some ''h'', url_port = None\<rparr> = ''http''"
  using validate_base_url_sound [of "\<lambda>_. False"
      "\<lambda>u. Some \<lparr>url_text = u, url_scheme = ''http'', url_host = Some ''10.0.0.1'', url_port = Some 80\<rparr>"
      "''http://10.0.0.1:80/v1''"
      "\<lparr>url_text = ''http://10.0.0.1:80/v1'', url_scheme = ''http'', url_host = Some ''10.0.0.1'', url_port = Some 80\<rparr>"]
  by code_simp

end
