(* ===== verification/Providers.thy ===== *)
theory Providers
  imports Db_Models Codec Validate
begin

text \<open>
  \<open>src/src/providers\<close>: what is sent to an upstream and how its answer is rewritten. The
  trait \<open>UpstreamProvider\<close> is the locale \<open>upstream_provider\<close>, interpreted below on the
  rewriting of every provider type. The HTTP client is a crate: \<open>build\<close> stands for the
  request builder's validation, which gives the parsed URL or an error text.
\<close>

record http_request =
  req_url :: url
  req_headers :: "(string \<times> string) list"
  req_body :: string

type_synonym url_builder = "string \<Rightarrow> (string \<times> string) list \<Rightarrow> string \<Rightarrow> string + url"

section \<open>Rewriting a response\<close>

fun inject_default_shadow :: "json \<Rightarrow> string \<Rightarrow> json" where
  "inject_default_shadow (Object obj) model =
     Object (obj_insert ''system_fingerprint'' (String ''ait-proxy'')
              (obj_insert ''model'' (String model) obj))"
| "inject_default_shadow v model = v"

fun remove_timings :: "json \<Rightarrow> json" where
  "remove_timings (Object obj) = Object (obj_remove ''timings'' obj)"
| "remove_timings v = v"

text \<open>The first step of \<open>rename_reasoning_key\<close> on one object.\<close>

definition rename_one :: "(string \<times> json) list \<Rightarrow> (string \<times> json) list" where
  "rename_one m = (case map_of m ''reasoning'' of
     Some val \<Rightarrow> obj_insert ''reasoning_content'' val (obj_remove ''reasoning'' m)
   | None \<Rightarrow> m)"

lemma snd_rename_one: "(k, v) \<in> set (rename_one m) \<Longrightarrow> \<exists>k'. (k', v) \<in> set m"
  using set_obj_insert
  by (fastforce simp: rename_one_def obj_remove_def dest: map_of_SomeD split: option.splits)

lemma size_field: "(k, v) \<in> set m \<Longrightarrow> size v < size (Object m)"
  by (induction m) auto

function rename_reasoning_key :: "json \<Rightarrow> json" where
  "rename_reasoning_key (Object m) =
     Object (map (\<lambda>(k, v). (k, rename_reasoning_key v)) (rename_one m))"
| "rename_reasoning_key (Array arr) = Array (map rename_reasoning_key arr)"
| "rename_reasoning_key Null = Null"
| "rename_reasoning_key (Bool b) = Bool b"
| "rename_reasoning_key (Number n) = Number n"
| "rename_reasoning_key (String s) = String s"
  by pat_completeness auto
termination
proof (relation "measure size", goal_cases)
  case (2 m x k v)
  then obtain k' where "(k', v) \<in> set m" using snd_rename_one by metis
  then show ?case using size_field by simp
next
  case (3 arr v)
  then show ?case by (induction arr) auto
qed simp

section \<open>Providers\<close>

record provider_core =
  core_provider :: provider
  auth_header_value :: "string option"

definition core_new :: "provider \<Rightarrow> provider_core" where
  "core_new p =
     \<lparr>core_provider = p,
      auth_header_value = map_option (\<lambda>k. ''Bearer '' @ k) (prov_api_key p)\<rparr>"

datatype upstream =
    OllamaProvider provider_core
  | LlamacppProvider provider_core
  | OpenAICompatProvider provider_core

fun upstream_core :: "upstream \<Rightarrow> provider_core" where
  "upstream_core (OllamaProvider c) = c"
| "upstream_core (LlamacppProvider c) = c"
| "upstream_core (OpenAICompatProvider c) = c"

definition create_provider :: "provider \<Rightarrow> upstream" where
  "create_provider p = (case prov_type p of
     Ollama \<Rightarrow> OllamaProvider (core_new p)
   | Llamacpp \<Rightarrow> LlamacppProvider (core_new p)
   | _ \<Rightarrow> OpenAICompatProvider (core_new p))"

fun rewrite :: "upstream \<Rightarrow> json \<Rightarrow> string \<Rightarrow> json" where
  "rewrite (OllamaProvider _) val model = rename_reasoning_key (inject_default_shadow val model)"
| "rewrite (LlamacppProvider _) val model = remove_timings (inject_default_shadow val model)"
| "rewrite (OpenAICompatProvider _) val model = inject_default_shadow val model"

definition transform_response ::
    "from_slice \<Rightarrow> to_vec \<Rightarrow> upstream \<Rightarrow> string \<Rightarrow> string \<Rightarrow> string" where
  "transform_response from_slice to_vec up body model =
     (case from_slice body of
        None \<Rightarrow> body
      | Some val \<Rightarrow>
          (case to_vec (rewrite up val model) of Inr b \<Rightarrow> b | Inl _ \<Rightarrow> body))"

section \<open>Building a request\<close>

definition upstream_url :: "provider_core \<Rightarrow> string \<Rightarrow> string" where
  "upstream_url core path = trim_end_char (CHR ''/'') (prov_base_url (core_provider core)) @ path"

definition request_headers :: "provider_core \<Rightarrow> (string \<times> string) list" where
  "request_headers core =
     (''Content-Type'', ''application/json'') #
     (case auth_header_value core of Some v \<Rightarrow> [(''Authorization'', v)] | None \<Rightarrow> [])"

text \<open>
  The body that is sent; \<open>None\<close> is the panic of indexing a value that is not an object.
\<close>

definition request_body :: "json \<Rightarrow> bool \<Rightarrow> string \<Rightarrow> string \<Rightarrow> json option" where
  "request_body body stream upstream_model upstream_path =
     Option.bind
       (if Option.bind (jget ''model'' body) as_str \<noteq> None
        then index_assign ''model'' (String upstream_model) body else Some body)
       (\<lambda>body.
         if stream then
           Option.bind (index_assign ''stream'' (Bool True) body)
             (\<lambda>body. if upstream_path \<noteq> ''/responses''
                then index_assign ''stream_options'' (Object [(''include_usage'', Bool True)]) body
                else Some body)
         else Some body)"

definition finalize_request ::
    "to_vec \<Rightarrow> url_builder \<Rightarrow> provider_core \<Rightarrow> json \<Rightarrow> bool \<Rightarrow> string \<Rightarrow> string
      \<Rightarrow> (string + http_request) option" where
  "finalize_request to_vec build core body stream upstream_model upstream_path =
     (case request_body body stream upstream_model upstream_path of
        None \<Rightarrow> None
      | Some body' \<Rightarrow>
          (case to_vec body' of
             Inl e \<Rightarrow> Some (Inl e)
           | Inr bytes \<Rightarrow>
               (let hs = request_headers core
                in Some (case build (upstream_url core upstream_path) hs bytes of
                     Inl e \<Rightarrow> Inl e
                   | Inr u \<Rightarrow> Inr \<lparr>req_url = u, req_headers = hs, req_body = bytes\<rparr>))))"

definition build_request ::
    "to_vec \<Rightarrow> url_builder \<Rightarrow> upstream \<Rightarrow> json \<Rightarrow> bool \<Rightarrow> string \<Rightarrow> string
      \<Rightarrow> (string + http_request) option" where
  "build_request to_vec build up body stream upstream_model upstream_path =
     finalize_request to_vec build (upstream_core up) body stream upstream_model upstream_path"

section \<open>Facts about the rewriting\<close>

text \<open>Whether a key occurs in an object anywhere inside a value.\<close>

fun has_key :: "string \<Rightarrow> json \<Rightarrow> bool"
  and has_key_fields :: "string \<Rightarrow> (string \<times> json) list \<Rightarrow> bool" where
  "has_key k (Object m) = has_key_fields k m"
| "has_key k (Array arr) = list_ex (has_key k) arr"
| "has_key k _ = False"
| "has_key_fields k [] = False"
| "has_key_fields k ((k', v) # m) = (k' = k \<or> has_key k v \<or> has_key_fields k m)"

lemma has_key_fields_iff:
  "has_key_fields k m \<longleftrightarrow> k \<in> fst ` set m \<or> (\<exists>(k', v) \<in> set m. has_key k v)"
  by (induction m) force+

lemma fst_rename_one: "''reasoning'' \<notin> fst ` set (rename_one m)"
proof (cases "map_of m ''reasoning''")
  case None
  then have "rename_one m = m" by (simp add: rename_one_def)
  with None show ?thesis by (simp only: map_of_eq_None_iff) simp
next
  case (Some v)
  have "set (rename_one m) \<subseteq> insert (''reasoning_content'', v) (set (obj_remove ''reasoning'' m))"
    using set_obj_insert by (simp add: rename_one_def Some)
  then show ?thesis by (auto simp: obj_remove_def)
qed

lemma rename_removes_reasoning: "\<not> has_key ''reasoning'' (rename_reasoning_key v)"
proof (induction v rule: rename_reasoning_key.induct)
  case (1 m)
  have "k \<noteq> ''reasoning''" if "(k, v) \<in> set (rename_one m)" for k v
    using fst_rename_one that by force
  with 1 show ?case by (fastforce simp: has_key_fields_iff)
next
  case (2 arr)
  then show ?case by (auto simp: list_ex_iff)
qed simp_all

lemma rename_one_id: "''reasoning'' \<notin> fst ` set m \<Longrightarrow> rename_one m = m"
  using map_of_eq_None_iff [of m "''reasoning''"] by (simp add: rename_one_def)

lemma rename_identity: "\<not> has_key ''reasoning'' v \<Longrightarrow> rename_reasoning_key v = v"
proof (induction v rule: rename_reasoning_key.induct)
  case (1 m)
  then have "rename_one m = m" by (simp add: has_key_fields_iff rename_one_id)
  moreover have "rename_reasoning_key v = v" if "(k, v) \<in> set m" for k v
    using 1 that calculation by (force simp: has_key_fields_iff)
  ultimately show ?case by (auto intro!: map_idI)
next
  case (2 arr)
  then show ?case by (auto simp: list_ex_iff intro!: map_idI)
qed simp_all

lemma map_of_map_snd: "map_of (map (\<lambda>(k, v). (k, f v)) m) k = map_option f (map_of m k)"
  by (induction m) auto

lemma rename_one_other:
  "k \<noteq> ''reasoning'' \<Longrightarrow> k \<noteq> ''reasoning_content'' \<Longrightarrow> map_of (rename_one m) k = map_of m k"
  by (auto simp: rename_one_def split: option.splits)

lemma rewrite_object:
  "\<exists>o'. rewrite up (Object obj) model = Object o' \<and> map_of o' ''model'' = Some (String model)
      \<and> map_of o' ''system_fingerprint'' = Some (String ''ait-proxy'')"
  by (cases up) (simp_all add: map_of_map_snd rename_one_other)

lemma rewrite_other: "\<not> is_object val \<Longrightarrow> \<exists>val'. rewrite up val model = val' \<and> \<not> is_object val'"
  by (cases up; cases val) simp_all

section \<open>The trait as an interface\<close>

text \<open>
  What the rest of the proxy relies on in \<open>UpstreamProvider::transform_response\<close>: bytes that
  are not JSON pass through, and a JSON object comes back as an object that names the model
  the client asked for and the proxy's fingerprint.
\<close>

locale upstream_provider =
  fixes from_slice :: from_slice
    and to_vec :: to_vec
    and transform :: "string \<Rightarrow> string \<Rightarrow> string"
  assumes passes_non_json: "from_slice body = None \<Longrightarrow> transform body model = body"
    and rewrites_object: "from_slice body = Some (Object obj) \<Longrightarrow>
      \<exists>o'. map_of o' ''model'' = Some (String model)
         \<and> map_of o' ''system_fingerprint'' = Some (String ''ait-proxy'')
         \<and> transform body model =
             (case to_vec (Object o') of Inr b \<Rightarrow> b | Inl _ \<Rightarrow> body)"
begin

lemma names_requested_model:
  assumes "from_slice body = Some (Object obj)"
    and "codec_law from_slice to_vec"
  shows "\<exists>val. from_slice (transform body model) = Some val
    \<and> jget ''model'' val = Some (String model)
    \<and> jget ''system_fingerprint'' val = Some (String ''ait-proxy'')"
proof -
  obtain o' where o': "map_of o' ''model'' = Some (String model)"
      "map_of o' ''system_fingerprint'' = Some (String ''ait-proxy'')"
      "transform body model = (case to_vec (Object o') of Inr b \<Rightarrow> b | Inl _ \<Rightarrow> body)"
    using rewrites_object [OF assms(1)] by blast
  obtain b where "to_vec (Object o') = Inr b" "from_slice b = Some (Object o')"
    using assms(2) by (auto simp: codec_law_def)
  with o' show ?thesis by simp
qed

end

interpretation up: upstream_provider from_slice to_vec "transform_response from_slice to_vec u"
  for from_slice to_vec u
proof
  show "from_slice body = None \<Longrightarrow> transform_response from_slice to_vec u body model = body"
    for body model by (simp add: transform_response_def)
next
  fix body model obj assume "from_slice body = Some (Object obj)"
  then show "\<exists>o'. map_of o' ''model'' = Some (String model)
      \<and> map_of o' ''system_fingerprint'' = Some (String ''ait-proxy'')
      \<and> transform_response from_slice to_vec u body model =
          (case to_vec (Object o') of Inr b \<Rightarrow> b | Inl _ \<Rightarrow> body)"
    using rewrite_object [of u obj model] by (auto simp: transform_response_def)
qed

section \<open>Facts about requests\<close>

lemma request_body_object:
  "request_body (Object m) stream upstream_model path =
     Some (Object
       (let m1 = (if Option.bind (map_of m ''model'') as_str \<noteq> None
                  then obj_insert ''model'' (String upstream_model) m else m)
        in if stream then
             (let m2 = obj_insert ''stream'' (Bool True) m1
              in if path \<noteq> ''/responses''
                 then obj_insert ''stream_options'' (Object [(''include_usage'', Bool True)]) m2
                 else m2)
           else m1))"
  by (auto simp: request_body_def Let_def)

lemma upstream_url_core_new:
  "upstream_url (core_new p) path = trim_end_char (CHR ''/'') (prov_base_url p) @ path"
  by (simp add: upstream_url_def core_new_def)

section \<open>Properties\<close>

text \<open>
  C37: Whatever the provider type, an upstream answer that is a JSON object reaches the client
  as a JSON object whose \<open>model\<close> is the name the client asked for (the upstream's own model
  name is never shown) and whose fingerprint is the proxy's; an answer that is not JSON
  reaches the client byte for byte. The hypothesis is the round trip of the JSON codec.
\<close>

theorem transform_names_requested_model:
  assumes "codec_law from_slice to_vec"
  shows "(\<forall>obj. from_slice body = Some (Object obj) \<longrightarrow>
      (\<exists>val. from_slice (transform_response from_slice to_vec u body model) = Some val
         \<and> jget ''model'' val = Some (String model)
         \<and> jget ''system_fingerprint'' val = Some (String ''ait-proxy'')))
    \<and> (from_slice body = None \<longrightarrow> transform_response from_slice to_vec u body model = body)"
  using up.names_requested_model [OF _ assms] up.passes_non_json by metis

definition demo_upstream :: upstream where
  "demo_upstream = create_provider \<lparr>prov_id = ''p1'', prov_name = ''local'', prov_type = Ollama,
     prov_base_url = ''http://h'', prov_api_key = None, prov_enabled = True, prov_created_at = 0,
     prov_updated_at = 0\<rparr>"

theorem transform_names_requested_model_witness:
  "\<exists>val. tagged_decode (transform_response tagged_decode tagged_encode demo_upstream
        (encode (Object [(''model'', String ''llama3:8b'')])) ''my-model'') = Some val
     \<and> jget ''model'' val = Some (String ''my-model'')"
  using transform_names_requested_model [OF tagged_codec_law,
      of "encode (Object [(''model'', String ''llama3:8b'')])" demo_upstream "''my-model''"]
    tagged_decode_encode by metis

text \<open>
  The Ollama rewriting leaves no \<open>reasoning\<close> key at any depth, also where
  \<open>reasoning_content\<close> was present, and changes nothing in a value that has none.
\<close>

theorem rename_reasoning_complete:
  "\<not> has_key ''reasoning'' (rename_reasoning_key v)
    \<and> (has_key ''reasoning'' v \<or> rename_reasoning_key v = v)"
  using rename_removes_reasoning rename_identity by blast

text \<open>
  A proxied request never makes the request builder panic and carries what the route
  promises: for a body that is an object with a string \<open>model\<close>, the upstream model name
  replaces it; streaming sets \<open>stream\<close>, and asks for usage except on \<open>/responses\<close>; every
  other field is the client's; the credentials header is exactly the provider's key.
\<close>

theorem request_body_carries:
  assumes "jget ''model'' body = Some (String name)"
  shows "\<exists>m. request_body body stream upstream_model path = Some (Object m)
    \<and> map_of m ''model'' = Some (String upstream_model)
    \<and> (stream \<longrightarrow> map_of m ''stream'' = Some (Bool True))
    \<and> (stream \<and> path \<noteq> ''/responses'' \<longrightarrow>
         map_of m ''stream_options'' = Some (Object [(''include_usage'', Bool True)]))
    \<and> (\<forall>k. k \<notin> {''model'', ''stream'', ''stream_options''} \<longrightarrow> map_of m k = jget k body)
    \<and> (\<not> stream \<longrightarrow> (\<forall>k. k \<noteq> ''model'' \<longrightarrow> map_of m k = jget k body))
    \<and> request_headers (core_new p) = (''Content-Type'', ''application/json'') #
        (case prov_api_key p of Some k \<Rightarrow> [(''Authorization'', ''Bearer '' @ k)] | None \<Rightarrow> [])"
proof -
  obtain obj where obj: "body = Object obj" "map_of obj ''model'' = Some (String name)"
    using jget_Some_object [OF assms] by blast
  show ?thesis
    by (simp add: obj request_body_object Let_def request_headers_def core_new_def
        split: option.split)
qed

theorem request_body_carries_witness:
  "\<exists>m. request_body (Object [(''model'', String ''gpt''), (''n'', Number (Integer 1))]) True ''up'' ''/responses''
      = Some (Object m) \<and> map_of m ''model'' = Some (String ''up'')"
  using request_body_carries [of "Object [(''model'', String ''gpt''), (''n'', Number (Integer 1))]"
      "''gpt''" True "''up''" "''/responses''"] by auto

end
