(* ===== verification/App.thy ===== *)
theory App
  imports Store_Facts Config Providers
begin

text \<open>
  The shared state of the server (\<open>src/src/app.rs\<close>) and the bounded insertion of its caches
  (\<open>insert_capped\<close> in \<open>src/src/handlers/proxy/resolve.rs\<close>). An \<open>Instant\<close> is the number of
  nanoseconds on the monotonic clock. The \<open>Arc\<close>s of the source are shared, so the state is
  one record that every handler reads and updates; the HTTP client of the source holds no
  state the program reads and is left out. The order of a map's entries stands for its
  iteration order.
\<close>

section \<open>Time\<close>

type_synonym instant = nat

definition from_secs :: "nat \<Rightarrow> nat" where
  "from_secs n = n * 1000000000"

definition elapsed :: "instant \<Rightarrow> instant \<Rightarrow> nat" where
  "elapsed now t = now - t"

definition cache_ttl :: nat where
  "cache_ttl = from_secs 300"

definition negative_cache_ttl :: nat where
  "negative_cache_ttl = from_secs 30"

section \<open>The state\<close>

text \<open>
  A \<open>reqwest::Client\<close> built by \<open>pinned_client\<close>: the host name and the socket addresses its
  builder's \<open>resolve\<close> calls name, in order. A client's own name resolution is overridden for
  that host by these addresses only.
\<close>

record pinned =
  pin_host :: string
  pin_addrs :: "(ip_addr \<times> nat) list"

record app_state =
  config :: config_app
  db :: database
  log_sent :: "log_event list"
  start_time :: datetime
  api_key_cache :: "(string, api_key_info \<times> instant) dash_map"
  negative_key_cache :: "(string, instant) dash_map"
  model_cache :: "(string, (model \<times> provider) \<times> instant) dash_map"
  negative_model_cache :: "(string, instant) dash_map"
  provider_cache :: "(string, upstream \<times> instant) dash_map"
  ssrf_dns_cache :: "(string, ip_addr list \<times> instant) dash_map"
  pinned_clients :: "(string, pinned \<times> instant) dash_map"
  key_revision :: "64 word"
  dlp :: dlp_scanner

definition app_state_new ::
    "ac_builder \<Rightarrow> datetime \<Rightarrow> config_app \<Rightarrow> database \<Rightarrow> app_state" where
  "app_state_new ac_new now cfg database =
     \<lparr>config = cfg, db = database, log_sent = [], start_time = now, api_key_cache = [],
      negative_key_cache = [], model_cache = [], negative_model_cache = [], provider_cache = [],
      ssrf_dns_cache = [], pinned_clients = [], key_revision = 0,
      dlp = dlp_new ac_new (dlp_cfg (security cfg))\<rparr>"

definition cache_cap :: "app_state \<Rightarrow> nat" where
  "cache_cap s = cache_max_entries (server (config s))"

text \<open>\<open>LogManager::log_access\<close>, \<open>log_proxy\<close> and \<open>log_audit\<close>: hand an event to the log worker.\<close>

definition send_log :: "log_event \<Rightarrow> app_state \<Rightarrow> app_state" where
  "send_log e s = s\<lparr>log_sent := log_sent s @ [e]\<rparr>"

section \<open>Running a handler\<close>

text \<open>
  What the environment decides while one request is handled: the monotonic and the UTC clock,
  the database's environment, whether the blocking task completes in time, and the request id
  that the access-log middleware put in scope. A task that times out keeps running and its
  write still happens; one that panics is rolled back.
\<close>

record run_env =
  re_clk :: instant
  re_utc :: datetime
  re_db :: db_env
  re_out :: blocking_outcome
  re_rid :: "string option"

definition run_db_write ::
    "run_env \<Rightarrow> (database \<Rightarrow> (db_error + 'a) \<times> database) \<Rightarrow> app_state
      \<Rightarrow> (blocking_error + (db_error + 'a)) \<times> app_state" where
  "run_db_write env f s =
     (if re_out env = Panicked then (Inl Join, s)
      else (case f (db s) of (r, db') \<Rightarrow> (run_blocking (re_out env) r, s\<lparr>db := db'\<rparr>)))"

definition run_db_read ::
    "run_env \<Rightarrow> (database \<Rightarrow> db_error + 'a) \<Rightarrow> app_state \<Rightarrow> blocking_error + (db_error + 'a)" where
  "run_db_read env f s = run_blocking (re_out env) (f (db s))"

section \<open>Bounded insertion\<close>

text \<open>\<open>Iterator::min_by_key\<close>: the first of the least entries.\<close>

fun min_by_key :: "('a \<Rightarrow> nat) \<Rightarrow> 'a list \<Rightarrow> 'a option" where
  "min_by_key f [] = None"
| "min_by_key f (x # xs) =
     (case min_by_key f xs of
        None \<Rightarrow> Some x
      | Some y \<Rightarrow> Some (if f x \<le> f y then x else y))"

definition insert_capped ::
    "('v \<Rightarrow> instant) \<Rightarrow> string \<Rightarrow> 'v \<Rightarrow> nat \<Rightarrow> (string, 'v) dash_map \<Rightarrow> (string, 'v) dash_map" where
  "insert_capped inserted_at key entry max_entries m =
     (if max_entries = 0 then m
      else if dm_get m key \<noteq> None then dm_insert key entry m
      else
        (let m' =
           (if length m \<ge> max_entries then
              (case min_by_key (\<lambda>(k, v). inserted_at v) m of
                 Some (oldest, _) \<Rightarrow> dm_remove oldest m
               | None \<Rightarrow> m)
            else m)
         in dm_insert key entry m'))"

section \<open>Cleanup\<close>

definition aggressive :: "nat \<Rightarrow> nat \<Rightarrow> nat" where
  "aggressive max_entries len =
     (if len > (min (max_entries * 9) (2 ^ 64 - 1)) div 10 then cache_ttl div 2 else cache_ttl)"

definition retain_fresh ::
    "('v \<Rightarrow> instant) \<Rightarrow> instant \<Rightarrow> nat \<Rightarrow> ('k, 'v) dash_map \<Rightarrow> ('k, 'v) dash_map" where
  "retain_fresh inserted_at now ttl m = dm_retain (\<lambda>_ v. elapsed now (inserted_at v) < ttl) m"

definition cleanup_caches :: "nat \<Rightarrow> instant \<Rightarrow> app_state \<Rightarrow> app_state" where
  "cleanup_caches max_entries now s =
     s\<lparr>api_key_cache :=
          retain_fresh snd now (aggressive max_entries (length (api_key_cache s))) (api_key_cache s),
       model_cache :=
          retain_fresh snd now (aggressive max_entries (length (model_cache s))) (model_cache s),
       provider_cache :=
          retain_fresh snd now (aggressive max_entries (length (provider_cache s))) (provider_cache s),
       ssrf_dns_cache :=
          retain_fresh snd now (aggressive max_entries (length (ssrf_dns_cache s))) (ssrf_dns_cache s)\<rparr>"

text \<open>One tick of the background task; its blocking half may be lost to a panic.\<close>

definition cleanup_tick :: "blocking_outcome \<Rightarrow> instant \<Rightarrow> app_state \<Rightarrow> app_state" where
  "cleanup_tick out now s =
     (let s1 = (if out = Panicked then s else cleanup_caches (cache_cap s) now s)
      in s1\<lparr>negative_key_cache := retain_fresh id now negative_cache_ttl (negative_key_cache s1),
            negative_model_cache := retain_fresh id now negative_cache_ttl (negative_model_cache s1),
            pinned_clients := retain_fresh snd now cache_ttl (pinned_clients s1)\<rparr>)"

section \<open>Facts\<close>

lemma min_by_key_None [simp]: "min_by_key f xs = None \<longleftrightarrow> xs = []"
  by (cases xs) (auto split: option.splits)

lemma min_by_key_Some: "min_by_key f xs = Some y \<Longrightarrow> y \<in> set xs \<and> (\<forall>x \<in> set xs. f y \<le> f x)"
proof (induction xs arbitrary: y)
  case (Cons x xs)
  then show ?case
    by (cases "min_by_key f xs") (auto split: if_splits intro: order_trans)
qed simp

lemma retain_fresh_get:
  "dm_wf m \<Longrightarrow> dm_get (retain_fresh f now ttl m) k = Some v \<longleftrightarrow>
     dm_get m k = Some v \<and> elapsed now (f v) < ttl"
  by (auto simp: retain_fresh_def dash_simps split: option.splits)

lemma insert_capped_wf [simp]: "dm_wf m \<Longrightarrow> dm_wf (insert_capped f k v n m)"
  by (auto simp: insert_capped_def Let_def split: option.split)

lemma insert_capped_get:
  "dm_get (insert_capped f k v n m) k' = Some w \<Longrightarrow> (k' = k \<and> w = v) \<or> dm_get m k' = Some w"
  by (auto simp: insert_capped_def Let_def dash_simps split: if_splits option.splits)

lemma insert_capped_free:
  "n \<noteq> 0 \<Longrightarrow> dm_get m k \<noteq> None \<or> length m < n \<Longrightarrow> insert_capped f k v n m = dm_insert k v m"
  by (auto simp: insert_capped_def Let_def)

lemma insert_capped_full:
  assumes "n \<noteq> 0" and "dm_get m k = None" and "n \<le> length m"
  obtains x w where "min_by_key (\<lambda>(k, v). f v) m = Some (x, w)"
    and "insert_capped f k v n m = dm_insert k v (dm_remove x m)"
proof (cases "min_by_key (\<lambda>(k, v). f v) m")
  case None
  then show ?thesis using assms by simp
next
  case (Some e)
  then show ?thesis using assms that by (cases e) (simp add: insert_capped_def)
qed

lemma insert_capped_length:
  assumes "dm_wf m" and "length m \<le> n"
  shows "length (insert_capped f k v n m) \<le> n"
proof (cases "n = 0")
  case True
  then show ?thesis using assms(2) by (simp add: insert_capped_def)
next
  case False
  show ?thesis
  proof (cases "dm_get m k \<noteq> None \<or> length m < n")
    case True
    then show ?thesis
      using assms(2) unfolding insert_capped_free [OF False True] length_dm_insert by auto
  next
    case full: False
    then obtain x w where x: "min_by_key (\<lambda>(k, v). f v) m = Some (x, w)"
        "insert_capped f k v n m = dm_insert k v (dm_remove x m)"
      using insert_capped_full [OF False] by (metis not_less)
    have "x \<in> set (dm_keys m)" using min_by_key_Some [OF x(1)] by force
    then have "Suc (length (dm_remove x m)) = length m" by (rule length_dm_remove [OF assms(1)])
    then show ?thesis using assms(2) unfolding x(2) length_dm_insert by simp
  qed
qed

text \<open>
  What the rest of the program relies on in a bounded cache: insertion keeps the bound, and a
  lookup afterwards finds the new entry or what was there before. The lemma proved from it
  carries the coherence of the caches with the database.
\<close>

locale bounded_cache =
  fixes put :: "string \<Rightarrow> 'v \<Rightarrow> (string, 'v) dash_map \<Rightarrow> (string, 'v) dash_map"
    and cap :: nat
  assumes put_wf: "dm_wf m \<Longrightarrow> dm_wf (put k v m)"
    and put_bound: "dm_wf m \<Longrightarrow> length m \<le> cap \<Longrightarrow> length (put k v m) \<le> cap"
    and put_get: "dm_wf m \<Longrightarrow> dm_get (put k v m) k' = Some w \<Longrightarrow>
      (k' = k \<and> w = v) \<or> dm_get m k' = Some w"
begin

lemma puts_bound:
  "dm_wf m \<Longrightarrow> length m \<le> cap \<Longrightarrow>
     dm_wf (fold (\<lambda>(k, v). put k v) kvs m) \<and> length (fold (\<lambda>(k, v). put k v) kvs m) \<le> cap"
proof (induction kvs arbitrary: m)
  case (Cons kv kvs)
  obtain k v where kv: "kv = (k, v)" by (cases kv)
  show ?case
    unfolding kv fold.simps comp_def prod.case
    by (rule Cons.IH [OF put_wf [OF Cons.prems(1)] put_bound [OF Cons.prems]])
qed simp

lemma put_coherent:
  assumes "dm_wf m" and "\<And>k' w. dm_get m k' = Some w \<Longrightarrow> P k' w" and "P k v"
    and "dm_get (put k v m) k' = Some w"
  shows "P k' w"
  using put_get [OF assms(1,4)]
proof
  assume "k' = k \<and> w = v"
  with assms(3) show ?thesis by simp
next
  assume "dm_get m k' = Some w"
  then show ?thesis by (rule assms(2))
qed

end

interpretation capped: bounded_cache "\<lambda>k v. insert_capped inserted_at k v n" n
  for inserted_at :: "'v \<Rightarrow> instant" and n
  by unfold_locales (auto simp: insert_capped_length dest: insert_capped_get)

section \<open>Properties\<close>

text \<open>
  A capped cache that attackers can fill stays bounded and useful: any sequence of
  insertions keeps it within the cap; a new entry is always cached (unless the cap is 0); and
  inserting removes at most one other entry, the least recently stamped one, only when the
  cache is full and the key is new.
\<close>

theorem insert_capped_evicts_oldest:
  assumes "dm_wf m" and "length m \<le> n"
  shows "length (fold (\<lambda>(k, v). insert_capped f k v n) kvs m) \<le> n
   \<and> (0 < n \<longrightarrow> dm_get (insert_capped f k v n m) k = Some v)
   \<and> (\<forall>k'. k' \<noteq> k \<longrightarrow> dm_get (insert_capped f k v n m) k' \<noteq> dm_get m k' \<longrightarrow>
        length m = n \<and> dm_get m k = None
        \<and> (\<exists>w. dm_get m k' = Some w \<and> (\<forall>(x, u) \<in> set m. f w \<le> f u)
             \<and> (\<forall>k''. k'' \<noteq> k \<longrightarrow> k'' \<noteq> k' \<longrightarrow>
                  dm_get (insert_capped f k v n m) k'' = dm_get m k'')))"
proof -
  have new: "0 < n \<longrightarrow> dm_get (insert_capped f k v n m) k = Some v"
    by (simp add: insert_capped_def Let_def dash_simps)
  moreover have "length m = n \<and> dm_get m k = None
        \<and> (\<exists>w. dm_get m k' = Some w \<and> (\<forall>(x, u) \<in> set m. f w \<le> f u)
             \<and> (\<forall>k''. k'' \<noteq> k \<longrightarrow> k'' \<noteq> k' \<longrightarrow>
                  dm_get (insert_capped f k v n m) k'' = dm_get m k''))"
    if k': "k' \<noteq> k" "dm_get (insert_capped f k v n m) k' \<noteq> dm_get m k'" for k'
  proof -
    have c: "n \<noteq> 0" "dm_get m k = None" "n \<le> length m"
      using k' by (auto simp: insert_capped_def Let_def dash_simps split: if_splits)
    then obtain o' w where o: "min_by_key (\<lambda>(k, v). f v) m = Some (o', w)"
      and ins: "insert_capped f k v n m = dm_insert k v (dm_remove o' m)"
      by (rule insert_capped_full)
    have get: "dm_get (insert_capped f k v n m) x = (if x = k then Some v else
        if x = o' then None else dm_get m x)" for x
      by (simp add: ins dash_simps)
    then have "o' = k'" using k' by (auto split: if_splits)
    moreover have "dm_get m o' = Some w" "\<forall>(x, u) \<in> set m. f w \<le> f u"
      using min_by_key_Some [OF o] assms(1) by (auto simp: dm_get_in)
    moreover have "length m = n" using c assms(2) by simp
    ultimately show ?thesis using c(2) get by auto
  qed
  moreover have "length (fold (\<lambda>(k, v). insert_capped f k v n) kvs m) \<le> n"
    using capped.puts_bound [OF assms] by blast
  ultimately show ?thesis by blast
qed

theorem insert_capped_evicts_oldest_witness:
  "length (fold (\<lambda>(k, v). insert_capped id k v 2) [(''c'', 9), (''d'', 10)] [(''a'', 5), (''b'', 3)]) \<le> 2
   \<and> dm_get (insert_capped id ''c'' 9 2 [(''a'', 5), (''b'', 3)]) ''c'' = Some 9"
  using insert_capped_evicts_oldest [of "[(''a'', 5), (''b'', 3)]" 2 id "[(''c'', 9), (''d'', 10)]"
      "''c''" 9]
  by (simp add: dm_wf_def)

text \<open>
  A cleanup pass leaves no entry that a lookup would refuse as stale, drops no entry that is
  less than half its time to live old, invents none, and touches nothing but the caches.
\<close>

theorem cleanup_tick_exact:
  assumes "out \<noteq> Panicked" and "dm_wf (model_cache s)" and "dm_wf (negative_key_cache s)"
  shows "(\<forall>k v. dm_get (model_cache (cleanup_tick out now s)) k = Some v \<longrightarrow>
        dm_get (model_cache s) k = Some v \<and> elapsed now (snd v) < cache_ttl)
   \<and> (\<forall>k v. dm_get (model_cache s) k = Some v \<and> elapsed now (snd v) < from_secs 150 \<longrightarrow>
        dm_get (model_cache (cleanup_tick out now s)) k = Some v)
   \<and> (\<forall>k t. dm_get (negative_key_cache (cleanup_tick out now s)) k = Some t \<longleftrightarrow>
        dm_get (negative_key_cache s) k = Some t \<and> elapsed now t < negative_cache_ttl)
   \<and> db (cleanup_tick out now s) = db s \<and> log_sent (cleanup_tick out now s) = log_sent s
   \<and> key_revision (cleanup_tick out now s) = key_revision s"
proof -
  let ?ttl = "aggressive (cache_cap s) (length (model_cache s))"
  have m: "dm_get (model_cache (cleanup_tick out now s)) k = Some v \<longleftrightarrow>
      dm_get (model_cache s) k = Some v \<and> elapsed now (snd v) < ?ttl" for k v
    using assms(1,2) by (simp add: cleanup_tick_def cleanup_caches_def Let_def retain_fresh_get)
  have n: "dm_get (negative_key_cache (cleanup_tick out now s)) k = Some t \<longleftrightarrow>
      dm_get (negative_key_cache s) k = Some t \<and> elapsed now t < negative_cache_ttl" for k t
    using assms(3) by (simp add: cleanup_tick_def cleanup_caches_def Let_def retain_fresh_get)
  have ttl: "?ttl \<le> cache_ttl" "from_secs 150 \<le> ?ttl"
    by (simp_all add: aggressive_def cache_ttl_def from_secs_def)
  have rest: "db (cleanup_tick out now s) = db s"
      "log_sent (cleanup_tick out now s) = log_sent s"
      "key_revision (cleanup_tick out now s) = key_revision s"
    by (simp_all add: cleanup_tick_def cleanup_caches_def Let_def)
  show ?thesis
    unfolding m n rest using ttl less_le_trans by blast
qed

definition demo_state :: app_state where
  "demo_state = app_state_new direct_matcher 0 default_config demo_db"

lemma demo_state_caches [simp]:
  "model_cache demo_state = []" "negative_model_cache demo_state = []"
  "negative_key_cache demo_state = []" "api_key_cache demo_state = []"
  "provider_cache demo_state = []" "ssrf_dns_cache demo_state = []"
  "pinned_clients demo_state = []" "db demo_state = demo_db" "config demo_state = default_config"
  by (simp_all add: demo_state_def app_state_new_def)

definition demo_run :: run_env where
  "demo_run = \<lparr>re_clk = 0, re_utc = 0, re_db = demo_env, re_out = Completed, re_rid = None\<rparr>"

theorem cleanup_tick_exact_witness:
  "dm_get (negative_key_cache (cleanup_tick Completed (from_secs 31)
     (demo_state\<lparr>negative_key_cache := [(''h'', 0)]\<rparr>))) ''h'' = None"
proof -
  let ?s = "demo_state\<lparr>negative_key_cache := [(''h'', 0)]\<rparr>"
  have "dm_get (negative_key_cache (cleanup_tick Completed (from_secs 31) ?s)) ''h'' \<noteq> Some t" for t
  proof
    assume "dm_get (negative_key_cache (cleanup_tick Completed (from_secs 31) ?s)) ''h'' = Some t"
    then have "dm_get [(''h'', 0)] ''h'' = Some t \<and> elapsed (from_secs 31) t < negative_cache_ttl"
      using cleanup_tick_exact [of Completed ?s "from_secs 31"] by (simp add: dm_wf_def)
    then show False by (auto simp: dm_get_def elapsed_def negative_cache_ttl_def from_secs_def)
  qed
  then show ?thesis by blast
qed

end
