(* ===== verification/Auth.thy ===== *)
theory Auth
  imports App
begin

text \<open>
  \<open>src/src/middleware.rs\<close>: API key authentication, the client address behind reverse proxies
  and the access log. A request's headers are name-value pairs with lower-case names, a value
  is its bytes. \<open>auth_middleware\<close> is cut where it awaits, at the database lookup, so that the
  step relation at the end can interleave lookups with changes of keys; run without a pause it
  is \<open>auth_middleware\<close>. The semaphore of the source bounds how many lookups run at once and
  is never closed, so acquiring it only delays.
\<close>

section \<open>Requests\<close>

record request =
  rq_method :: string
  rq_path :: string
  rq_headers :: "(string \<times> string) list"
  rq_connect_ip :: "ip_addr option"
  rq_key_context :: "api_key_context option"
  rq_client_ip :: "ip_addr option option"
  rq_request_id :: "string option"

definition header_get :: "string \<Rightarrow> (string \<times> string) list \<Rightarrow> string option" where
  "header_get name hs = map_of hs name"

text \<open>\<open>HeaderValue::to_str\<close>: visible ASCII and the horizontal tab.\<close>

definition to_str :: "string \<Rightarrow> string option" where
  "to_str v = (if list_all (\<lambda>c. (32 \<le> byte c \<and> byte c < 127) \<or> byte c = 9) v then Some v else None)"

definition extract_bearer_token :: "(string \<times> string) list \<Rightarrow> string option" where
  "extract_bearer_token headers =
     Option.bind (header_get ''authorization'' headers) (\<lambda>v.
     Option.bind (to_str v) (\<lambda>v. strip_prefix ''Bearer '' v))"

definition invalid_key_message :: string where
  "invalid_key_message = ''Unauthorized: invalid or missing API key''"

definition verify_key ::
    "run_env \<Rightarrow> api_key_info \<Rightarrow> request \<Rightarrow> http_error + request" where
  "verify_key env info req =
     (if \<not> info_enabled info then Inl (unauthorized (re_rid env) invalid_key_message)
      else if (case info_expires_at info of Some e \<Rightarrow> e \<le> re_utc env | None \<Rightarrow> False) then
        Inl (unauthorized (re_rid env) invalid_key_message)
      else Inr (req\<lparr>rq_key_context := Some \<lparr>ctx_name = Some (info_name info)\<rparr>\<rparr>))"

section \<open>The client's address\<close>

definition forwarded_client_ip :: "string \<Rightarrow> nat \<Rightarrow> ip_addr option" where
  "forwarded_client_ip value hops =
     (let parts = map trim (split_on (CHR '','') value)
      in if length parts < hops then None
         else (let i = length parts - hops
               in if i < length parts then parse_ip (parts ! i) else None))"

definition get_client_ip :: "request \<Rightarrow> trusted_proxy list \<Rightarrow> nat \<Rightarrow> ip_addr option" where
  "get_client_ip req proxies hops =
     (let direct_ip = rq_connect_ip req;
          trusted = (case direct_ip of Some ip \<Rightarrow> is_trusted_proxy ip proxies | None \<Rightarrow> False);
          forwarded = Option.bind (header_get ''x-forwarded-for'' (rq_headers req)) (\<lambda>v.
            Option.bind (to_str v) (\<lambda>v. forwarded_client_ip v hops));
          real = Option.bind (header_get ''x-real-ip'' (rq_headers req)) (\<lambda>v.
            Option.bind (to_str v) parse_ip)
      in if trusted then
           (case forwarded of Some ip \<Rightarrow> Some ip
            | None \<Rightarrow> (case real of Some ip \<Rightarrow> Some ip | None \<Rightarrow> direct_ip))
         else direct_ip)"

definition client_ip_of :: "app_state \<Rightarrow> request \<Rightarrow> ip_addr option" where
  "client_ip_of s req =
     get_client_ip req (trusted_proxies (server (config s))) (trusted_proxy_hops (server (config s)))"

section \<open>Authentication\<close>

text \<open>Up to the lookup: the request is decided, or its token has to be looked up.\<close>

datatype auth_start = Denied http_error | Granted request | Lookup string string

definition auth_begin :: "run_env \<Rightarrow> request \<Rightarrow> app_state \<Rightarrow> auth_start \<times> app_state" where
  "auth_begin env req s =
     (let client_ip = client_ip_of s req
      in if \<not> auth_enabled (auth (config s)) then
           (Granted (req\<lparr>rq_key_context := Some \<lparr>ctx_name = None\<rparr>, rq_client_ip := Some client_ip\<rparr>), s)
         else (case extract_bearer_token (rq_headers req) of
           None \<Rightarrow> (Denied (unauthorized (re_rid env) invalid_key_message), s)
         | Some token \<Rightarrow>
             (let hash = hash_key (re_db env) token
              in if (case dm_get (negative_key_cache s) hash of
                       Some seen \<Rightarrow> elapsed (re_clk env) seen < negative_cache_ttl | None \<Rightarrow> False) then
                   (Denied (unauthorized (re_rid env) invalid_key_message), s)
                 else (case dm_get (api_key_cache s) hash of
                   None \<Rightarrow> (Lookup token hash, s)
                 | Some (info, t) \<Rightarrow>
                     if elapsed (re_clk env) t < cache_ttl then
                       (case verify_key env info req of
                          Inl e \<Rightarrow> Denied e
                        | Inr req' \<Rightarrow> Granted (req'\<lparr>rq_client_ip := Some client_ip\<rparr>),
                        s\<lparr>api_key_cache := dm_insert hash (info, re_clk env) (api_key_cache s)\<rparr>)
                     else (Lookup token hash, s)))))"

text \<open>After the lookup: what it found may be cached only if no key changed meanwhile.\<close>

definition auth_cache ::
    "run_env \<Rightarrow> string \<Rightarrow> api_key_info option \<Rightarrow> bool \<Rightarrow> app_state \<Rightarrow> app_state" where
  "auth_cache env hash key_info still_current s = (case key_info of
     Some info \<Rightarrow>
       if still_current
       then s\<lparr>api_key_cache := dm_insert hash (info, re_clk env) (api_key_cache s)\<rparr> else s
   | None \<Rightarrow>
       if still_current \<and> length (negative_key_cache s) < cache_cap s
       then s\<lparr>negative_key_cache := dm_insert hash (re_clk env) (negative_key_cache s)\<rparr> else s)"

definition auth_decide ::
    "run_env \<Rightarrow> ip_addr option \<Rightarrow> api_key_info option \<Rightarrow> request \<Rightarrow> http_error + request" where
  "auth_decide env client_ip key_info req = (case key_info of
     Some info \<Rightarrow> (case verify_key env info req of
        Inl e \<Rightarrow> Inl e | Inr req' \<Rightarrow> Inr (req'\<lparr>rq_client_ip := Some client_ip\<rparr>))
   | None \<Rightarrow> Inl (unauthorized (re_rid env) invalid_key_message))"

definition auth_middleware ::
    "run_env \<Rightarrow> request \<Rightarrow> app_state \<Rightarrow> (http_error + request) \<times> app_state" where
  "auth_middleware env req s = (case auth_begin env req s of
     (Denied e, s1) \<Rightarrow> (Inl e, s1)
   | (Granted req', s1) \<Rightarrow> (Inr req', s1)
   | (Lookup token hash, s1) \<Rightarrow>
       (let revision = key_revision s1
        in case run_db_read env (get_api_key_by_raw (re_db env) token) s1 of
             Inl _ \<Rightarrow> (Inl (internal_error (re_rid env)), s1)
           | Inr (Inl _) \<Rightarrow> (Inl (db_error_response (re_rid env)), s1)
           | Inr (Inr key_info) \<Rightarrow>
               (let still_current = (key_revision s1 = revision)
                in (auth_decide env (client_ip_of s req) key_info req,
                    auth_cache env hash key_info still_current s1))))"

section \<open>The access log\<close>

record 'b response =
  resp_status :: nat
  resp_headers :: "(string \<times> string) list"
  resp_body :: 'b

definition header_insert :: "string \<Rightarrow> string \<Rightarrow> (string \<times> string) list \<Rightarrow> (string \<times> string) list" where
  "header_insert name v hs = (name, v) # filter (\<lambda>(n, _). n \<noteq> name) hs"

text \<open>
  The rest of the stack is \<open>next\<close>; \<open>uuid\<close> is the fresh request id, \<open>t1\<close> and \<open>utc1\<close> the clocks
  when it returns.
\<close>

definition access_log_middleware ::
    "run_env \<Rightarrow> string \<Rightarrow> instant \<Rightarrow> datetime
      \<Rightarrow> (run_env \<Rightarrow> request \<Rightarrow> app_state \<Rightarrow> 'b response \<times> app_state)
      \<Rightarrow> request \<Rightarrow> app_state \<Rightarrow> 'b response \<times> app_state" where
  "access_log_middleware env uuid t1 utc1 next req s =
     (let client_ip = map_option show_ip (client_ip_of s req);
          (resp, s1) = next (env\<lparr>re_rid := Some uuid\<rparr>) (req\<lparr>rq_request_id := Some uuid\<rparr>) s;
          resp' = resp\<lparr>resp_headers := header_insert ''x-request-id'' uuid (resp_headers resp)\<rparr>
      in (resp',
          send_log (Access \<lparr>ae_timestamp = utc1, ae_request_id = uuid, ae_method = rq_method req,
            ae_path = rq_path req, ae_status = int (resp_status resp'),
            ae_latency_ms = int (elapsed t1 (re_clk env) div 1000000),
            ae_client_ip = client_ip\<rparr>) s1))"

section \<open>Facts\<close>

lemma extract_bearer_token_Some:
  "extract_bearer_token hs = Some tok \<Longrightarrow> header_get ''authorization'' hs = Some (''Bearer '' @ tok)"
  by (auto simp: extract_bearer_token_def to_str_def strip_prefix_Some
      split: option.splits if_splits dest!: iffD1 [OF Option.bind_eq_Some_conv])

lemma split_on_no_sep: "c \<notin> set s \<Longrightarrow> split_on c s = [s]"
  by (induction s) auto

lemma unauthorized_status: "fst (unauthorized rid msg) = 401"
  by (simp add: error_defs)

lemma verify_key_Inr:
  "verify_key env info req = Inr r \<Longrightarrow> info_enabled info
     \<and> (case info_expires_at info of Some e \<Rightarrow> re_utc env < e | None \<Rightarrow> True)
     \<and> r = req\<lparr>rq_key_context := Some \<lparr>ctx_name = Some (info_name info)\<rparr>\<rparr>"
  by (auto simp: verify_key_def split: if_splits option.splits)

lemma auth_begin_cases:
  assumes "auth_enabled (auth (config s))" and "auth_begin env req s = (a, s1)"
  obtains (denied) e where "a = Denied e" "fst e = 401"
  | (granted) tok info t r where
      "extract_bearer_token (rq_headers req) = Some tok"
      "dm_get (api_key_cache s) (hash_key (re_db env) tok) = Some (info, t)"
      "elapsed (re_clk env) t < cache_ttl" "verify_key env info req = Inr r"
      "a = Granted (r\<lparr>rq_client_ip := Some (client_ip_of s req)\<rparr>)"
  | (lookup) tok where "extract_bearer_token (rq_headers req) = Some tok"
      "a = Lookup tok (hash_key (re_db env) tok)" "s1 = s"
proof (cases "extract_bearer_token (rq_headers req)")
  case None
  then have "a = Denied (unauthorized (re_rid env) invalid_key_message)"
    using assms by (simp add: auth_begin_def Let_def)
  then show ?thesis by (rule denied) (rule unauthorized_status)
next
  case (Some tok)
  note tok = this
  let ?h = "hash_key (re_db env) tok"
  consider (neg) seen where "dm_get (negative_key_cache s) ?h = Some seen"
        "elapsed (re_clk env) seen < negative_cache_ttl"
    | (pos) "\<not> (case dm_get (negative_key_cache s) ?h of
         Some seen \<Rightarrow> elapsed (re_clk env) seen < negative_cache_ttl | None \<Rightarrow> False)"
    by (cases "dm_get (negative_key_cache s) ?h") auto
  then show ?thesis
  proof cases
    case neg
    then have "a = Denied (unauthorized (re_rid env) invalid_key_message)"
      using assms tok by (simp add: auth_begin_def Let_def)
    then show ?thesis by (rule denied) (rule unauthorized_status)
  next
    case pos
    show ?thesis
    proof (cases "dm_get (api_key_cache s) ?h")
      case None
      then show ?thesis using assms tok pos lookup by (simp add: auth_begin_def Let_def)
    next
      case (Some it)
      obtain info t where it: "it = (info, t)" by (cases it)
      show ?thesis
      proof (cases "elapsed (re_clk env) t < cache_ttl")
        case False
        then show ?thesis using assms tok pos lookup Some it by (simp add: auth_begin_def Let_def)
      next
        case True
        show ?thesis
        proof (cases "verify_key env info req")
          case (Inl e)
          then have "fst e = 401"
            by (auto simp: verify_key_def unauthorized_status split: if_splits)
          moreover have "a = Denied e"
            using assms tok pos Some it True Inl by (simp add: auth_begin_def Let_def)
          ultimately show ?thesis using denied by blast
        next
          case (Inr r)
          then have "a = Granted (r\<lparr>rq_client_ip := Some (client_ip_of s req)\<rparr>)"
            using assms tok pos Some it True by (simp add: auth_begin_def Let_def)
          with tok Some it True Inr show ?thesis using granted by blast
        qed
      qed
    qed
  qed
qed

section \<open>Properties\<close>

text \<open>
  C39: The address taken from \<open>X-Forwarded-For\<close> cannot be spoofed: behind \<open>n\<close> trusted proxies
  it is the entry the outermost of them appended, whatever the client put in front of it, and
  a header is looked at only if the direct peer is itself a trusted proxy.
\<close>

theorem forwarded_ip_not_spoofable:
  assumes "length (split_on (CHR '','') appended) = n" and "0 < n"
  shows "forwarded_client_ip (spoofed @ '','' @ appended) n
       = parse_ip (trim (hd (split_on (CHR '','') appended)))
    \<and> (\<not> (\<exists>ip. rq_connect_ip req = Some ip \<and> is_trusted_proxy ip trusted) \<longrightarrow>
         get_client_ip req trusted n = rq_connect_ip req)"
proof -
  have parts: "split_on (CHR '','') (spoofed @ '','' @ appended)
      = split_on (CHR '','') spoofed @ split_on (CHR '','') appended"
    using split_on_append [of "CHR '',''" spoofed appended] by simp
  have "(map trim (split_on (CHR '','') spoofed @ split_on (CHR '','') appended)) !
      length (split_on (CHR '','') spoofed) = trim (hd (split_on (CHR '','') appended))"
    using assms by (simp add: nth_append hd_conv_nth)
  then have "forwarded_client_ip (spoofed @ '','' @ appended) n
       = parse_ip (trim (hd (split_on (CHR '','') appended)))"
    unfolding forwarded_client_ip_def parts using assms by (simp add: Let_def)
  then show ?thesis
    by (auto simp: get_client_ip_def Let_def split: option.splits)
qed

theorem forwarded_ip_not_spoofable_witness:
  "forwarded_client_ip ''1.1.1.1, 203.0.113.9'' 1 = parse_ip ''203.0.113.9''"
proof -
  have "trim '' 203.0.113.9'' = ''203.0.113.9''" by code_simp
  then show ?thesis
    using forwarded_ip_not_spoofable [of "'' 203.0.113.9''" 1 "''1.1.1.1''"] by simp
qed

lemma auth_middleware_sound:
  assumes "auth_enabled (auth (config s))" and "auth_middleware env req s = (r, s')"
  shows "case r of
      Inr req' \<Rightarrow> \<exists>tok info. header_get ''authorization'' (rq_headers req) = Some (''Bearer '' @ tok)
        \<and> (get_api_key_by_raw (re_db env) tok (db s) = Inr (Some info)
           \<or> (\<exists>t. dm_get (api_key_cache s) (hash_key (re_db env) tok) = Some (info, t)
                  \<and> elapsed (re_clk env) t < cache_ttl))
        \<and> info_enabled info
        \<and> (case info_expires_at info of Some e \<Rightarrow> re_utc env < e | None \<Rightarrow> True)
        \<and> rq_key_context req' = Some \<lparr>ctx_name = Some (info_name info)\<rparr>
        \<and> rq_client_ip req' = Some (client_ip_of s req)
    | Inl e \<Rightarrow> fst e = 401 \<or> fst e = 500"
proof -
  obtain a s1 where b: "auth_begin env req s = (a, s1)" by (cases "auth_begin env req s")
  show ?thesis
  proof (cases rule: auth_begin_cases [OF assms(1) b])
    case (1 e)
    then show ?thesis using assms(2) b by (auto simp: auth_middleware_def)
  next
    case (2 tok info t r0)
    then have "r = Inr (r0\<lparr>rq_client_ip := Some (client_ip_of s req)\<rparr>)"
      using assms(2) b by (simp add: auth_middleware_def)
    then show ?thesis
      using 2 extract_bearer_token_Some [OF 2(1)] verify_key_Inr [OF 2(4)]
      by (auto intro!: exI [of _ tok] exI [of _ info])
  next
    case (3 tok)
    let ?q = "run_db_read env (get_api_key_by_raw (re_db env) tok) s"
    show ?thesis
    proof (cases "\<exists>info r0. ?q = Inr (Inr (Some info)) \<and> verify_key env info req = Inr r0")
      case True
      then obtain info r0 where q: "?q = Inr (Inr (Some info))" "verify_key env info req = Inr r0"
        by blast
      then have "r = Inr (r0\<lparr>rq_client_ip := Some (client_ip_of s req)\<rparr>)"
        using assms(2) b 3 by (simp add: auth_middleware_def auth_decide_def Let_def)
      moreover have "get_api_key_by_raw (re_db env) tok (db s) = Inr (Some info)"
        using q(1) by (simp add: run_db_read_def res_simps)
      ultimately show ?thesis
        using extract_bearer_token_Some [OF 3(1)] verify_key_Inr [OF q(2)]
        by (auto intro!: exI [of _ tok] exI [of _ info])
    next
      case False
      have "\<exists>e. auth_middleware env req s = (Inl e, s') \<and> (fst e = 401 \<or> fst e = 500)"
        using assms(2) b 3 False
        by (auto simp: auth_middleware_def auth_decide_def verify_key_def Let_def error_defs
            split: sum.splits option.splits if_splits)
      then show ?thesis using assms(2) by auto
    qed
  qed
qed

text \<open>
  C3: With authentication on, a request reaches a handler only with a bearer token whose digest
  is that of a key that is enabled and not expired, as the database says now or as a cache
  entry younger than its time to live says; every other request gets a 401, or a 500 if the
  lookup failed; and the handler sees that key's name.
\<close>

theorem auth_only_valid_keys:
  assumes "auth_enabled (auth (config s))" and "auth_middleware env req s = (r, s')"
  shows "case r of
      Inr req' \<Rightarrow> \<exists>tok info. header_get ''authorization'' (rq_headers req) = Some (''Bearer '' @ tok)
        \<and> (get_api_key_by_raw (re_db env) tok (db s) = Inr (Some info)
           \<or> (\<exists>t. dm_get (api_key_cache s) (hash_key (re_db env) tok) = Some (info, t)
                  \<and> elapsed (re_clk env) t < cache_ttl))
        \<and> info_enabled info
        \<and> (case info_expires_at info of Some e \<Rightarrow> re_utc env < e | None \<Rightarrow> True)
        \<and> rq_key_context req' = Some \<lparr>ctx_name = Some (info_name info)\<rparr>
        \<and> rq_client_ip req' = Some (client_ip_of s req)
    | Inl e \<Rightarrow> fst e = 401 \<or> fst e = 500"
  by (rule auth_middleware_sound [OF assms])

definition demo_request :: request where
  "demo_request = \<lparr>rq_method = ''POST'', rq_path = ''/v1/chat/completions'', rq_headers = [],
     rq_connect_ip = None, rq_key_context = None, rq_client_ip = None, rq_request_id = None\<rparr>"

theorem auth_only_valid_keys_witness:
  "\<exists>e. fst (auth_middleware demo_run demo_request demo_state) = Inl e \<and> (fst e = 401 \<or> fst e = 500)"
proof -
  have on: "auth_enabled (auth (config demo_state))" by (simp add: default_config_def)
  have none: "header_get ''authorization'' (rq_headers demo_request) = None"
    by (simp add: demo_request_def header_get_def)
  obtain r s' where m: "auth_middleware demo_run demo_request demo_state = (r, s')"
    by (cases "auth_middleware demo_run demo_request demo_state")
  show ?thesis
    using auth_only_valid_keys [OF on m] by (cases r) (simp_all add: m none)
qed

end
