(* ===== verification/Auth_Race.thy ===== *)
theory Auth_Race
  imports Auth
begin

text \<open>
  Authentication and changes of API keys run at the same time. Here the code of
  \<open>auth_middleware\<close> (\<open>src/src/middleware.rs\<close>) and of the handlers \<open>delete_api_key\<close> and
  \<open>update_api_key\<close> (\<open>src/src/handlers/apikeys.rs\<close>) is cut at its shared accesses, and a step
  relation interleaves any number of lookups with one admin request at a time. Each step runs
  a definition of \<open>Auth\<close> or \<open>Store\<close> on the shared state. \<open>past\<close> (every database there was) and
  \<open>bumps\<close> (how often the revision was advanced) are ghosts the program does not have.
\<close>

section \<open>The system\<close>

text \<open>Where a lookup is: before the query, before the revision check, before the cache insert.\<close>

datatype lookup =
    Idle
  | Reading string string "64 word"
  | Found string "api_key_info option" "64 word"
  | Checked string "api_key_info option" bool

text \<open>Where the admin request is: the row is changed, then uncached, then the revision moves.\<close>

datatype admin_pc = NoAdmin | RowChanged string bool | Uncached

record system =
  app :: app_state
  lookups :: "nat \<Rightarrow> lookup"
  admin :: admin_pc
  past :: "database list"
  bumps :: nat

definition system_init :: "app_state \<Rightarrow> system" where
  "system_init s = \<lparr>app = s\<lparr>api_key_cache := [], negative_key_cache := [], key_revision := 0\<rparr>,
     lookups = (\<lambda>_. Idle), admin = NoAdmin, past = [], bumps = 0\<rparr>"

text \<open>The digest function and the calendar are the same in every step.\<close>

definition same_env :: "db_env \<Rightarrow> db_env \<Rightarrow> bool" where
  "same_env e0 e \<longleftrightarrow> env_sha256 e = env_sha256 e0 \<and> env_from_ts e = env_from_ts e0"

definition write_db :: "database \<Rightarrow> admin_pc \<Rightarrow> system \<Rightarrow> system" where
  "write_db d pc w = w\<lparr>app := (app w)\<lparr>db := d\<rparr>, admin := pc, past := db (app w) # past w\<rparr>"

lemma write_db_sel [simp]:
  "bumps (write_db d pc w) = bumps w" "admin (write_db d pc w) = pc"
  "db (app (write_db d pc w)) = d" "past (write_db d pc w) = db (app w) # past w"
  "lookups (write_db d pc w) = lookups w"
  "key_revision (app (write_db d pc w)) = key_revision (app w)"
  "api_key_cache (app (write_db d pc w)) = api_key_cache (app w)"
  by (simp_all add: write_db_def)

inductive step :: "db_env \<Rightarrow> system \<Rightarrow> system \<Rightarrow> bool" for e0 where
  start: "same_env e0 (re_db env) \<Longrightarrow> lookups w i = Idle \<Longrightarrow>
    auth_begin env req (app w) = (Lookup tok h, s1) \<Longrightarrow>
    step e0 w (w\<lparr>app := s1, lookups := (lookups w)(i := Reading tok h (key_revision s1))\<rparr>)"
| decided: "same_env e0 (re_db env) \<Longrightarrow>
    auth_begin env req (app w) = (a, s1) \<Longrightarrow> \<nexists>tok h. a = Lookup tok h \<Longrightarrow>
    step e0 w (w\<lparr>app := s1\<rparr>)"
| query: "same_env e0 denv \<Longrightarrow> lookups w i = Reading tok h rv \<Longrightarrow>
    get_api_key_by_raw denv tok (db (app w)) = Inr ki \<Longrightarrow>
    step e0 w (w\<lparr>lookups := (lookups w)(i := Found h ki rv)\<rparr>)"
| failed: "lookups w i = Reading tok h rv \<Longrightarrow> step e0 w (w\<lparr>lookups := (lookups w)(i := Idle)\<rparr>)"
| check: "lookups w i = Found h ki rv \<Longrightarrow>
    step e0 w (w\<lparr>lookups := (lookups w)(i := Checked h ki (key_revision (app w) = rv))\<rparr>)"
| finish: "lookups w i = Checked h ki still \<Longrightarrow>
    step e0 w (w\<lparr>app := auth_cache env h ki still (app w), lookups := (lookups w)(i := Idle)\<rparr>)"
| create: "same_env e0 denv \<Longrightarrow> admin w = NoAdmin \<Longrightarrow>
    insert_api_key denv name expires_at (db (app w)) = (Inr k, d) \<Longrightarrow>
    step e0 w (write_db d NoAdmin w)"
| delete: "admin w = NoAdmin \<Longrightarrow> delete_api_key denv kid (db (app w)) = (Inr h, d) \<Longrightarrow>
    step e0 w (write_db d (RowChanged h False) w)"
| update: "same_env e0 denv \<Longrightarrow> admin w = NoAdmin \<Longrightarrow>
    update_api_key denv u (db (app w)) = (Inr (k, h), d) \<Longrightarrow>
    step e0 w (write_db d (RowChanged h True) w)"
| uncache: "admin w = RowChanged h upd \<Longrightarrow>
    step e0 w (w\<lparr>app := (app w)\<lparr>api_key_cache := dm_remove h (api_key_cache (app w)),
        negative_key_cache := (if upd then dm_remove h (negative_key_cache (app w))
          else negative_key_cache (app w))\<rparr>, admin := Uncached\<rparr>)"
| bump: "admin w = Uncached \<Longrightarrow>
    step e0 w (w\<lparr>app := (app w)\<lparr>key_revision := key_revision (app w) + 1\<rparr>, admin := NoAdmin,
      bumps := Suc (bumps w)\<rparr>)"

inductive reach :: "db_env \<Rightarrow> app_state \<Rightarrow> system \<Rightarrow> bool" for e0 s0 where
  init: "reach e0 s0 (system_init s0)"
| next_step: "reach e0 s0 w \<Longrightarrow> step e0 w w' \<Longrightarrow> reach e0 s0 w'"

section \<open>What lookups and caches hold\<close>

text \<open>The row of a digest, as a lookup reports it.\<close>

definition row_info :: "db_env \<Rightarrow> database \<Rightarrow> string \<Rightarrow> api_key_info option" where
  "row_info e0 d h = map_option (row_to_api_key_info e0) (tbl_find kr_key_hash h (api_keys d))"

lemma row_to_info_same:
  assumes "same_env e0 e"
  shows "row_to_api_key_info e = row_to_api_key_info e0"
proof -
  have ts: "ts e = ts e0" using assms by (simp add: same_env_def ts_def fun_eq_iff)
  then have "opt_ts e = opt_ts e0" by (intro ext) (simp add: opt_ts_def)
  with ts show ?thesis by (simp add: row_to_api_key_info_def fun_eq_iff)
qed

lemma lookup_row_info:
  assumes "same_env e0 e" and "get_api_key_by_raw e tok d = Inr ki"
  shows "ki = row_info e0 d (env_sha256 e0 tok)"
proof -
  have "ki = map_option (row_to_api_key_info e)
      (tbl_find kr_key_hash (env_sha256 e tok) (api_keys d))"
    using assms(2) by (auto simp: get_api_key_by_raw_def res_simps hash_key_def)
  moreover have "env_sha256 e = env_sha256 e0" using assms(1) by (simp add: same_env_def)
  ultimately show ?thesis
    unfolding row_info_def row_to_info_same [OF assms(1)] by simp
qed

lemma insert_keeps_row_info:
  assumes "insert_api_key e name x d = (Inr k, d')" and "row_info e0 d h = Some info"
  shows "row_info e0 d' h = Some info"
proof -
  obtain r where "d' = d\<lparr>api_keys := api_keys d @ [r]\<rparr>"
    using assms(1)
    by (auto simp: insert_api_key_def Let_def transact_def res_simps insert_api_key_row_def
        split: sum.splits if_splits)
  then show ?thesis
    using assms(2) by (auto simp: row_info_def tbl_simps split: option.splits)
qed

lemma auth_begin_facts:
  assumes "auth_begin env req s = (a, s1)"
  shows "db s1 = db s" and "key_revision s1 = key_revision s"
    and "a = Lookup tok h \<Longrightarrow> h = hash_key (re_db env) tok"
    and "dm_get (api_key_cache s1) k = Some (info, t1) \<Longrightarrow> \<exists>t. dm_get (api_key_cache s) k = Some (info, t)"
  using assms
  by (auto simp: auth_begin_def Let_def dash_simps split: if_splits option.splits sum.splits)

lemma auth_cache_facts:
  "db (auth_cache env h ki still s) = db s"
  "key_revision (auth_cache env h ki still s) = key_revision s"
  "dm_get (api_key_cache (auth_cache env h ki still s)) k = Some (info, t) \<Longrightarrow>
     (k = h \<and> ki = Some info) \<or> dm_get (api_key_cache s) k = Some (info, t)"
  by (auto simp: auth_cache_def dash_simps split: option.splits if_splits)

text \<open>A digest and an entry that some database, now or before, had.\<close>

definition was_key :: "db_env \<Rightarrow> system \<Rightarrow> string \<Rightarrow> api_key_info \<Rightarrow> bool" where
  "was_key e0 w h info \<longleftrightarrow> (\<exists>d \<in> set (db (app w) # past w). row_info e0 d h = Some info)"

fun lookup_ok :: "db_env \<Rightarrow> system \<Rightarrow> lookup \<Rightarrow> bool" where
  "lookup_ok e0 w Idle = True"
| "lookup_ok e0 w (Reading tok h rv) =
     (h = env_sha256 e0 tok \<and> (\<exists>b \<le> bumps w. rv = of_nat b))"
| "lookup_ok e0 w (Found h ki rv) =
     (\<forall>info. ki = Some info \<longrightarrow> was_key e0 w h info
        \<and> (\<exists>b \<le> bumps w. rv = of_nat b
             \<and> (b = bumps w \<and> admin w = NoAdmin \<longrightarrow> row_info e0 (db (app w)) h = Some info)))"
| "lookup_ok e0 w (Checked h ki still) = (\<forall>info. ki = Some info \<longrightarrow> was_key e0 w h info)"

definition sys_inv :: "db_env \<Rightarrow> system \<Rightarrow> bool" where
  "sys_inv e0 w \<longleftrightarrow> key_revision (app w) = of_nat (bumps w)
     \<and> (\<forall>i. lookup_ok e0 w (lookups w i))
     \<and> (\<forall>h info t. dm_get (api_key_cache (app w)) h = Some (info, t) \<longrightarrow> was_key e0 w h info)"

lemma was_key_same:
  "db (app w') = db (app w) \<Longrightarrow> past w' = past w \<Longrightarrow> was_key e0 w' = was_key e0 w"
  by (simp add: was_key_def fun_eq_iff)

lemma was_key_write: "was_key e0 w h info \<Longrightarrow> was_key e0 (write_db d pc w) h info"
  by (auto simp: was_key_def)

text \<open>A step that changes neither the database, the ghosts nor the admin request.\<close>

lemma lookup_ok_same:
  assumes "db (app w') = db (app w)" "past w' = past w" "bumps w' = bumps w" "admin w' = admin w"
  shows "lookup_ok e0 w' l = lookup_ok e0 w l"
  using assms by (cases l) (simp_all add: was_key_same [OF assms(1,2)])

text \<open>A step that starts or ends an admin request keeps what lookups hold.\<close>

lemma lookup_ok_busy:
  assumes "admin w' \<noteq> NoAdmin \<or> bumps w < bumps w'" "bumps w \<le> bumps w'"
    and "\<And>h info. was_key e0 w h info \<Longrightarrow> was_key e0 w' h info" and "lookup_ok e0 w l"
  shows "lookup_ok e0 w' l"
  using assms by (cases l) (auto, (metis le_trans order.strict_iff_not)+)

lemma lookup_ok_create:
  assumes "\<And>h info. row_info e0 (db (app w)) h = Some info \<Longrightarrow> row_info e0 d h = Some info"
    and "admin w = NoAdmin" and "lookup_ok e0 w l"
  shows "lookup_ok e0 (write_db d NoAdmin w) l"
proof (cases l)
  case (Found h ki rv)
  show ?thesis
    unfolding Found lookup_ok.simps write_db_sel
  proof (intro allI impI)
    fix info assume ki: "ki = Some info"
    obtain b where b: "was_key e0 w h info" "b \<le> bumps w" "rv = of_nat b"
        "b = bumps w \<longrightarrow> row_info e0 (db (app w)) h = Some info"
      using assms(2,3) ki unfolding Found lookup_ok.simps by blast
    then show "was_key e0 (write_db d NoAdmin w) h info \<and> (\<exists>b\<le>bumps w. rv = of_nat b
        \<and> (b = bumps w \<and> NoAdmin = NoAdmin \<longrightarrow> row_info e0 d h = Some info))"
      using assms(1) was_key_write by blast
  qed
qed (use assms(3) was_key_write in auto)

lemma sys_invI:
  assumes "key_revision (app w) = of_nat (bumps w)" and "\<And>i. lookup_ok e0 w (lookups w i)"
    and "\<And>h info t. dm_get (api_key_cache (app w)) h = Some (info, t) \<Longrightarrow> was_key e0 w h info"
  shows "sys_inv e0 w"
  using assms by (simp add: sys_inv_def)

text \<open>Steps of one lookup: the database and the admin request stay, one lookup moves.\<close>

lemma sys_inv_lookup:
  assumes "sys_inv e0 w" and "w' = w\<lparr>app := sa, lookups := (lookups w)(i := l)\<rparr>"
    and "db sa = db (app w)" and "key_revision sa = key_revision (app w)"
    and "\<And>h info t. dm_get (api_key_cache sa) h = Some (info, t) \<Longrightarrow> was_key e0 w h info"
    and "lookup_ok e0 w l"
  shows "sys_inv e0 w'"
proof (rule sys_invI)
  have same: "db (app w') = db (app w)" "past w' = past w" "bumps w' = bumps w" "admin w' = admin w"
    by (simp_all add: assms(2,3))
  show "key_revision (app w') = of_nat (bumps w')"
    using assms(1,4) by (simp add: assms(2) sys_inv_def)
  show "lookup_ok e0 w' (lookups w' j)" for j
    unfolding lookup_ok_same [OF same]
    using assms(1,6) by (simp add: assms(2) sys_inv_def)
  show "was_key e0 w' h info" if "dm_get (api_key_cache (app w')) h = Some (info, t)" for h info t
    unfolding was_key_same [OF same(1,2)] using assms(5) that by (simp add: assms(2))
qed

lemma sys_inv_cache:
  "sys_inv e0 w \<Longrightarrow> dm_get (api_key_cache (app w)) h = Some (info, t) \<Longrightarrow> was_key e0 w h info"
  by (auto simp: sys_inv_def)

lemma sys_inv_write:
  assumes "sys_inv e0 w" and "\<And>i. lookup_ok e0 (write_db d pc w) (lookups w i)"
  shows "sys_inv e0 (write_db d pc w)"
  using assms was_key_write by (intro sys_invI) (auto simp: sys_inv_def)

lemma step_sys_inv: "step e0 w w' \<Longrightarrow> sys_inv e0 w \<Longrightarrow> sys_inv e0 w'"
proof (induction rule: step.induct)
  case (start env w i req tok h s1)
  note f = auth_begin_facts [OF start.hyps(3)]
  have "lookup_ok e0 w (Reading tok h (key_revision s1))"
    using start.prems f(2) f(3) [OF refl] start.hyps(1)
    by (auto simp: sys_inv_def same_env_def hash_key_def)
  then show ?case
    using sys_inv_lookup [OF start.prems refl f(1,2)] f(4) sys_inv_cache [OF start.prems] by blast
next
  case (decided env req w a s1)
  note f = auth_begin_facts [OF decided.hyps(2)]
  have "sys_inv e0 (w\<lparr>app := s1, lookups := (lookups w)(0 := lookups w 0)\<rparr>)"
    using sys_inv_lookup [OF decided.prems refl f(1,2)] f(4) sys_inv_cache [OF decided.prems]
      decided.prems by (metis sys_inv_def)
  then show ?case by simp
next
  case (query denv w i tok h rv ki)
  have r: "lookup_ok e0 w (Reading tok h rv)" using query.prems query.hyps(2)
    by (metis sys_inv_def)
  have "ki = row_info e0 (db (app w)) h"
    using lookup_row_info [OF query.hyps(1,3)] r by simp
  then have "lookup_ok e0 w (Found h ki rv)" using r by (auto simp: was_key_def)
  then show ?case
    using sys_inv_lookup [OF query.prems, where sa = "app w" and i = i and l = "Found h ki rv"] sys_inv_cache [OF query.prems]
    by simp
next
  case (failed w i tok h rv)
  then show ?case
    using sys_inv_lookup [OF failed.prems, where sa = "app w" and i = i and l = Idle] sys_inv_cache [OF failed.prems]
    by simp
next
  case (check w i h ki rv)
  have "lookup_ok e0 w (Found h ki rv)" using check.prems check.hyps
    by (metis sys_inv_def)
  then have "lookup_ok e0 w (Checked h ki (key_revision (app w) = rv))" by auto
  then show ?case
    using sys_inv_lookup [OF check.prems, where sa = "app w" and i = i] sys_inv_cache [OF check.prems] by simp
next
  case (finish w i h ki still env)
  have "lookup_ok e0 w (Checked h ki still)" using finish.prems finish.hyps
    by (metis sys_inv_def)
  then have "was_key e0 w k info"
    if "dm_get (api_key_cache (auth_cache env h ki still (app w))) k = Some (info, t)" for k info t
    using auth_cache_facts(3) [OF that] sys_inv_cache [OF finish.prems] by auto
  then show ?case
    using sys_inv_lookup [OF finish.prems refl auth_cache_facts(1,2), where l = Idle] by simp
next
  case (create denv w name expires_at k d)
  have "lookup_ok e0 (write_db d NoAdmin w) (lookups w i)" for i
    using lookup_ok_create [OF insert_keeps_row_info [OF create.hyps(3)] create.hyps(2)]
      create.prems by (metis sys_inv_def)
  then show ?case by (rule sys_inv_write [OF create.prems])
next
  case (delete w denv kid h d)
  have "lookup_ok e0 (write_db d (RowChanged h False) w) (lookups w i)" for i
    by (rule lookup_ok_busy [where w = w]) (use delete.prems was_key_write in \<open>auto simp: sys_inv_def\<close>)
  then show ?case by (rule sys_inv_write [OF delete.prems])
next
  case (update denv w u k h d)
  have "lookup_ok e0 (write_db d (RowChanged h True) w) (lookups w i)" for i
    by (rule lookup_ok_busy [where w = w]) (use update.prems was_key_write in \<open>auto simp: sys_inv_def\<close>)
  then show ?case by (rule sys_inv_write [OF update.prems])
next
  case (uncache w h upd)
  let ?w = "w\<lparr>app := (app w)\<lparr>api_key_cache := dm_remove h (api_key_cache (app w)),
        negative_key_cache := (if upd then dm_remove h (negative_key_cache (app w))
          else negative_key_cache (app w))\<rparr>, admin := Uncached\<rparr>"
  have was: "was_key e0 ?w = was_key e0 w" by (rule was_key_same) simp_all
  show ?case
  proof (rule sys_invI)
    show "lookup_ok e0 ?w (lookups ?w i)" for i
      by (rule lookup_ok_busy [where w = w]) (use uncache.prems was in \<open>auto simp: sys_inv_def\<close>)
  qed (use uncache.prems was in \<open>auto simp: sys_inv_def dash_simps split: if_splits\<close>)
next
  case (bump w)
  let ?w = "w\<lparr>app := (app w)\<lparr>key_revision := key_revision (app w) + 1\<rparr>, admin := NoAdmin,
      bumps := Suc (bumps w)\<rparr>"
  have was: "was_key e0 ?w = was_key e0 w" by (rule was_key_same) simp_all
  show ?case
  proof (rule sys_invI)
    show "lookup_ok e0 ?w (lookups ?w i)" for i
      by (rule lookup_ok_busy [where w = w]) (use bump.prems was in \<open>auto simp: sys_inv_def\<close>)
  qed (use bump.prems was in \<open>auto simp: sys_inv_def\<close>)
qed

lemma reach_sys_inv: "reach e0 s0 w \<Longrightarrow> sys_inv e0 w"
proof (induction rule: reach.induct)
  case init
  then show ?case by (simp add: sys_inv_def system_init_def dash_simps)
next
  case (next_step w w')
  then show ?case using step_sys_inv by blast
qed

section \<open>A race\<close>

definition race_row :: api_key_row where
  "race_row = \<lparr>kr_id = ''k1'', kr_key_hash = ''tok'', kr_display = ''****'', kr_name = ''ci'',
     kr_enabled = 1, kr_created_at = 1, kr_updated_at = 1, kr_expires_at = None\<rparr>"

definition race_start :: app_state where
  "race_start = demo_state\<lparr>db := demo_db\<lparr>api_keys := [race_row]\<rparr>\<rparr>"

definition race_request :: request where
  "race_request = demo_request\<lparr>rq_headers := [(''authorization'', ''Bearer tok'')]\<rparr>"

lemma race_token: "extract_bearer_token (rq_headers race_request) = Some ''tok''"
  by code_simp

lemma race_begin:
  "auth_begin demo_run race_request (app (system_init race_start))
     = (Lookup ''tok'' ''tok'', app (system_init race_start))"
  unfolding auth_begin_def race_token
  by (simp add: Let_def system_init_def race_start_def default_config_def hash_key_def demo_run_def
      demo_env_def dash_simps)

lemma race_lookup:
  "get_api_key_by_raw demo_env ''tok'' (db (app (system_init race_start)))
     = Inr (Some (row_to_api_key_info demo_env race_row))"
  by (simp add: get_api_key_by_raw_def demo_env_def system_init_def race_start_def race_row_def
      tbl_find_def hash_key_def)

lemma race_delete:
  "delete_api_key demo_env ''k1'' (db (app (system_init race_start)))
     = (Inr ''tok'', demo_db\<lparr>api_keys := []\<rparr>)"
  by (simp add: delete_api_key_def demo_env_def system_init_def race_start_def race_row_def
      tbl_find_def tbl_delete_def transact_def ok_or_def)

text \<open>The lookup reads the row and passes the check; the whole delete runs; the lookup ends.\<close>

lemma race_trace:
  defines "w0 \<equiv> system_init race_start" and "info \<equiv> row_to_api_key_info demo_env race_row"
  shows "\<exists>w. reach demo_env race_start w \<and> admin w = NoAdmin \<and> (\<forall>i. lookups w i = Idle)
    \<and> bumps w = 1 \<and> db (app w) = demo_db\<lparr>api_keys := []\<rparr> \<and> auth (config (app w)) = auth default_config
    \<and> api_key_cache (app w) = [(''tok'', (info, 0))] \<and> negative_key_cache (app w) = []"
proof -
  have e: "same_env demo_env demo_env" by (simp add: same_env_def)
  have r: "re_db demo_run = demo_env" by (simp add: demo_run_def)
  have w0: "lookups w0 = (\<lambda>_. Idle)" "admin w0 = NoAdmin" "key_revision (app w0) = 0"
      "api_key_cache (app w0) = []" "negative_key_cache (app w0) = []" "bumps w0 = 0"
      "config (app w0) = default_config"
    by (simp_all add: w0_def system_init_def race_start_def)
  let ?w1 = "w0\<lparr>app := app w0, lookups := (lookups w0)(0 := Reading ''tok'' ''tok'' (key_revision (app w0)))\<rparr>"
  let ?w2 = "?w1\<lparr>lookups := (lookups ?w1)(0 := Found ''tok'' (Some info) 0)\<rparr>"
  let ?w3 = "?w2\<lparr>lookups := (lookups ?w2)(0 := Checked ''tok'' (Some info) (key_revision (app ?w2) = 0))\<rparr>"
  let ?w4 = "write_db (demo_db\<lparr>api_keys := []\<rparr>) (RowChanged ''tok'' False) ?w3"
  let ?w5 = "?w4\<lparr>app := (app ?w4)\<lparr>api_key_cache := dm_remove ''tok'' (api_key_cache (app ?w4)),
      negative_key_cache := (if False then dm_remove ''tok'' (negative_key_cache (app ?w4))
        else negative_key_cache (app ?w4))\<rparr>, admin := Uncached\<rparr>"
  let ?w6 = "?w5\<lparr>app := (app ?w5)\<lparr>key_revision := key_revision (app ?w5) + 1\<rparr>, admin := NoAdmin,
      bumps := Suc (bumps ?w5)\<rparr>"
  let ?w7 = "?w6\<lparr>app := auth_cache demo_run ''tok'' (Some info) True (app ?w6),
      lookups := (lookups ?w6)(0 := Idle)\<rparr>"
  have r0: "reach demo_env race_start w0" unfolding w0_def by (rule reach.init)
  have s1: "step demo_env w0 ?w1"
    by (rule step.start [of _ demo_run _ _ race_request]) (simp_all add: r e w0 race_begin [folded w0_def])
  have s2: "step demo_env ?w1 ?w2"
    by (rule step.query [OF e, where tok = "''tok''"])
      (simp add: w0, simp add: race_lookup w0_def info_def)
  have s3: "step demo_env ?w2 ?w3" by (rule step.check) simp
  have s4: "step demo_env ?w3 ?w4"
    by (rule step.delete [of _ demo_env "''k1''"]) (simp_all add: w0 race_delete [folded w0_def])
  have s5: "step demo_env ?w4 ?w5" by (rule step.uncache) simp
  have s6: "step demo_env ?w5 ?w6" by (rule step.bump) simp
  have s7: "step demo_env ?w6 ?w7" by (rule step.finish) (simp add: w0)
  have "reach demo_env race_start ?w7"
    by (rule reach.next_step [OF reach.next_step [OF reach.next_step [OF reach.next_step
        [OF reach.next_step [OF reach.next_step [OF reach.next_step [OF r0 s1] s2] s3] s4] s5] s6] s7])
  moreover have "api_key_cache (app ?w7) = [(''tok'', (info, 0))]"
    by (simp add: auth_cache_def w0 dm_remove_def dm_insert_def demo_run_def)
  ultimately show ?thesis
    by (intro exI [of _ ?w7]) (simp add: w0 auth_cache_def write_db_def fun_eq_iff)
qed

section \<open>Properties\<close>


definition race_found :: system where
  "race_found = (system_init race_start)\<lparr>lookups :=
     (\<lambda>_. Idle)(0 := Found ''tok'' (Some (row_to_api_key_info demo_env race_row)) 0)\<rparr>"

lemma race_found_reach: "reach demo_env race_start race_found"
proof -
  let ?w0 = "system_init race_start"
  let ?w1 = "?w0\<lparr>app := app ?w0,
      lookups := (lookups ?w0)(0 := Reading ''tok'' ''tok'' (key_revision (app ?w0)))\<rparr>"
  have e: "same_env demo_env demo_env" by (simp add: same_env_def)
  have s1: "step demo_env ?w0 ?w1"
    by (rule step.start [of _ demo_run _ _ race_request])
      (simp_all add: e race_begin, simp_all add: demo_run_def e system_init_def)
  have s2: "step demo_env ?w1 race_found"
  proof -
    have eq: "race_found = ?w1\<lparr>lookups := (lookups ?w1)(0 :=
        Found ''tok'' (Some (row_to_api_key_info demo_env race_row)) 0)\<rparr>"
      by (simp add: race_found_def system_init_def)
    show ?thesis
      unfolding eq
      by (rule step.query [OF e, where tok = "''tok''"])
        (simp add: system_init_def, simp add: race_lookup)
  qed
  show ?thesis by (rule reach.next_step [OF reach.next_step [OF reach.init s1] s2])
qed


text \<open>
  C34: The comment in \<open>delete_api_key\<close> (every lookup already in flight is invalidated) does not
  hold: there is an interleaving after which the key's row is gone, the delete has returned, no
  lookup is in flight, and yet the cache holds the key as valid, so that the next request with
  the revoked token is let through.
\<close>

theorem revoked_key_race:
  "\<exists>w s'. reach demo_env race_start w \<and> admin w = NoAdmin \<and> (\<forall>i. lookups w i = Idle)
     \<and> bumps w = 1 \<and> row_info demo_env (db (app w)) ''tok'' = None
     \<and> auth_middleware demo_run race_request (app w)
         = (Inr (race_request\<lparr>rq_key_context := Some \<lparr>ctx_name = Some ''ci''\<rparr>,
              rq_client_ip := Some (client_ip_of (app w) race_request)\<rparr>), s')"
proof -
  let ?info = "row_to_api_key_info demo_env race_row"
  obtain w where w: "reach demo_env race_start w" "admin w = NoAdmin" "\<forall>i. lookups w i = Idle"
      "bumps w = 1" "db (app w) = demo_db\<lparr>api_keys := []\<rparr>"
      "auth (config (app w)) = auth default_config"
      "api_key_cache (app w) = [(''tok'', (?info, 0))]" "negative_key_cache (app w) = []"
    using race_trace by blast
  have h: "hash_key (re_db demo_run) ''tok'' = ''tok''"
    by (simp add: hash_key_def demo_run_def demo_env_def)
  have v: "verify_key demo_run ?info race_request
      = Inr (race_request\<lparr>rq_key_context := Some \<lparr>ctx_name = Some ''ci''\<rparr>\<rparr>)"
    by (simp add: verify_key_def row_to_api_key_info_def race_row_def opt_ts_def)
  have "\<exists>s'. auth_middleware demo_run race_request (app w)
      = (Inr (race_request\<lparr>rq_key_context := Some \<lparr>ctx_name = Some ''ci''\<rparr>,
              rq_client_ip := Some (client_ip_of (app w) race_request)\<rparr>), s')"
    unfolding auth_middleware_def auth_begin_def race_token
    by (simp add: Let_def w h v dm_get_def default_config_def elapsed_def cache_ttl_def
        from_secs_def)
      (simp add: demo_run_def)
  moreover have "row_info demo_env (db (app w)) ''tok'' = None"
    by (simp add: row_info_def w tbl_find_def)
  ultimately show ?thesis using w by blast
qed

end
