(* ===== verification/Guard.thy ===== *)
theory Guard
  imports App
begin

text \<open>
  \<open>src/src/handlers/proxy/guard.rs\<close>: the token counts of a response and the guard that makes
  every proxied request leave one log entry. What a \<open>LogManager\<close> has been handed is the list of
  events sent, in order. Integer arithmetic is that of the release profile: an \<open>i64\<close> sum wraps.
\<close>

section \<open>Usage\<close>

definition wrap_i64 :: "int \<Rightarrow> int" where
  "wrap_i64 i = (i + 2 ^ 63) mod 2 ^ 64 - 2 ^ 63"

definition as_millis :: "nat \<Rightarrow> int" where
  "as_millis nanos = wrap_i64 (int (nanos div 1000000))"

record usage_tokens =
  ut_prompt :: "int option"
  ut_completion :: "int option"
  ut_total :: "int option"
  ut_cached :: "int option"

definition no_usage :: usage_tokens where
  "no_usage = \<lparr>ut_prompt = None, ut_completion = None, ut_total = None, ut_cached = None\<rparr>"

definition or_else :: "'a option \<Rightarrow> 'a option \<Rightarrow> 'a option" where
  "or_else x y = (case x of Some a \<Rightarrow> Some a | None \<Rightarrow> y)"

text \<open>\<open>u.get(k).and_then(|v| v.as_i64())\<close>\<close>

definition get_i64 :: "string \<Rightarrow> json \<Rightarrow> int option" where
  "get_i64 k u = Option.bind (jget k u) as_i64"

definition parse_usage :: "from_slice \<Rightarrow> string \<Rightarrow> usage_tokens" where
  "parse_usage from_slice body = (case from_slice body of
     None \<Rightarrow> no_usage
   | Some val \<Rightarrow>
       (let usage = or_else (jget ''usage'' val)
              (Option.bind (jget ''response'' val) (jget ''usage''));
            prompt = or_else (Option.bind usage (get_i64 ''prompt_tokens''))
              (Option.bind usage (get_i64 ''input_tokens''));
            completion = or_else (Option.bind usage (get_i64 ''completion_tokens''))
              (Option.bind usage (get_i64 ''output_tokens''));
            total = or_else (Option.bind usage (get_i64 ''total_tokens''))
              (case (prompt, completion) of
                 (Some p, Some c) \<Rightarrow> Some (wrap_i64 (p + c))
               | _ \<Rightarrow> None);
            cached = or_else
              (Option.bind (Option.bind usage (\<lambda>u.
                   or_else (jget ''prompt_tokens_details'' u) (jget ''completion_tokens_details'' u)))
                 (get_i64 ''cached_tokens''))
              (or_else
                 (Option.bind (Option.bind usage (jget ''input_tokens_details''))
                   (get_i64 ''cached_tokens''))
                 (Option.bind usage (get_i64 ''cached_tokens'')))
        in \<lparr>ut_prompt = prompt, ut_completion = completion, ut_total = total, ut_cached = cached\<rparr>))"

section \<open>The log guard\<close>

type_synonym event_log = "log_event list"

definition log_proxy :: "proxy_event \<Rightarrow> event_log \<Rightarrow> event_log" where
  "log_proxy e log = log @ [Proxy e]"

record log_guard =
  lg_event :: proxy_event
  lg_start :: instant
  lg_finalized :: bool

definition guard_new :: "proxy_event \<Rightarrow> instant \<Rightarrow> log_guard" where
  "guard_new event start = \<lparr>lg_event = event, lg_start = start, lg_finalized = False\<rparr>"

text \<open>Merging reported counts into an event: a missing prompt count keeps the estimate.\<close>

definition with_usage :: "usage_tokens \<Rightarrow> proxy_event \<Rightarrow> proxy_event" where
  "with_usage usage e =
     e\<lparr>pe_prompt_tokens := or_else (ut_prompt usage) (pe_prompt_tokens e),
       pe_completion_tokens := ut_completion usage, pe_total_tokens := ut_total usage,
       pe_cached_tokens := ut_cached usage\<rparr>"

definition guard_finalize ::
    "instant \<Rightarrow> usage_tokens \<Rightarrow> string \<Rightarrow> log_guard \<Rightarrow> event_log \<Rightarrow> log_guard \<times> event_log" where
  "guard_finalize now usage status g log =
     (let e = (with_usage usage (lg_event g))
            \<lparr>pe_latency_ms := as_millis (elapsed now (lg_start g)), pe_status := status\<rparr>
      in (g\<lparr>lg_event := e, lg_finalized := True\<rparr>, log_proxy e log))"

definition suppress_drop_log :: "log_guard \<Rightarrow> log_guard" where
  "suppress_drop_log g = g\<lparr>lg_finalized := True\<rparr>"

definition guard_drop :: "instant \<Rightarrow> log_guard \<Rightarrow> event_log \<Rightarrow> event_log" where
  "guard_drop now g log =
     (if lg_finalized g then log
      else log_proxy ((lg_event g)\<lparr>pe_latency_ms := as_millis (elapsed now (lg_start g)),
        pe_status := ''499''\<rparr>) log)"

section \<open>Facts\<close>

definition in_i64 :: "int option \<Rightarrow> bool" where
  "in_i64 x = (case x of None \<Rightarrow> True | Some i \<Rightarrow> - (2 ^ 63) \<le> i \<and> i < 2 ^ 63)"

lemma wrap_i64_range: "- (2 ^ 63) \<le> wrap_i64 i \<and> wrap_i64 i < 2 ^ 63"
  using pos_mod_bound [of "2 ^ 64" "i + 2 ^ 63"] pos_mod_sign [of "2 ^ 64" "i + 2 ^ 63"]
  by (simp add: wrap_i64_def)

lemma wrap_i64_id: "- (2 ^ 63) \<le> i \<Longrightarrow> i < 2 ^ 63 \<Longrightarrow> wrap_i64 i = i"
  by (simp add: wrap_i64_def)

lemma in_i64_simps [simp]:
  "in_i64 None" "in_i64 (or_else x y) \<longleftrightarrow> (case x of None \<Rightarrow> in_i64 y | Some a \<Rightarrow> in_i64 (Some a))"
  by (simp_all add: in_i64_def or_else_def split: option.split)

lemma in_i64_get [simp]: "in_i64 (get_i64 k u)" "in_i64 (Option.bind x (get_i64 k))"
proof -
  show *: "in_i64 (get_i64 k u)" for k u
  proof (cases "jget k u")
    case (Some v)
    then show ?thesis
      by (cases v rule: as_i64.cases) (auto simp: in_i64_def get_i64_def)
  qed (simp add: get_i64_def)
  show "in_i64 (Option.bind x (get_i64 k))" by (cases x) (simp_all add: *)
qed

lemma in_i64_wrap [simp]: "in_i64 (Some (wrap_i64 i))"
  using wrap_i64_range by (simp add: in_i64_def)

lemma or_else_in_i64: "in_i64 x \<Longrightarrow> in_i64 y \<Longrightarrow> in_i64 (or_else x y)"
  by (cases x) (simp_all add: or_else_def)

lemma in_i64_bind: "(\<And>u. in_i64 (f u)) \<Longrightarrow> in_i64 (Option.bind x f)"
  by (cases x) simp_all

section \<open>Property\<close>


end
