(* ===== verification/Sse.thy ===== *)
theory Sse
  imports Guard
begin

text \<open>
  \<open>src/src/handlers/proxy/sse.rs\<close>: the stream that re-frames an upstream's server-sent events,
  rewrites their payloads and writes the log entry when it ends. The inner stream is the list of
  what it has ready, after which it is pending; one poll sees one reading \<open>now\<close> of the
  monotonic clock, and \<open>cancelled\<close> says whether shutdown was requested. \<open>fs\<close> and \<open>tv\<close> are
  \<open>serde_json\<close>'s parser and serialiser. Sizes are \<open>usize\<close> values below their range.
\<close>

section \<open>Text\<close>

text \<open>\<open>std::str::from_utf8\<close>: well-formed UTF-8.\<close>

definition in_range :: "nat \<Rightarrow> nat \<Rightarrow> char \<Rightarrow> bool" where
  "in_range a b c = (a \<le> byte c \<and> byte c \<le> b)"

fun utf8_valid :: "string \<Rightarrow> bool" where
  "utf8_valid [] = True"
| "utf8_valid (a # s) =
     (if byte a < 0x80 then utf8_valid s
      else if in_range 0xC2 0xDF a then
        (case s of b # r \<Rightarrow> in_range 0x80 0xBF b \<and> utf8_valid r | _ \<Rightarrow> False)
      else if in_range 0xE0 0xEF a then
        (case s of b # c # r \<Rightarrow>
           (if byte a = 0xE0 then in_range 0xA0 0xBF b
            else if byte a = 0xED then in_range 0x80 0x9F b else in_range 0x80 0xBF b)
           \<and> in_range 0x80 0xBF c \<and> utf8_valid r
         | _ \<Rightarrow> False)
      else if in_range 0xF0 0xF4 a then
        (case s of b # c # d # r \<Rightarrow>
           (if byte a = 0xF0 then in_range 0x90 0xBF b
            else if byte a = 0xF4 then in_range 0x80 0x8F b else in_range 0x80 0xBF b)
           \<and> in_range 0x80 0xBF c \<and> in_range 0x80 0xBF d \<and> utf8_valid r
         | _ \<Rightarrow> False)
      else False)"

definition strip_cr :: "string \<Rightarrow> string" where
  "strip_cr l = (if l \<noteq> [] \<and> last l = CHR 0x0D then butlast l else l)"

text \<open>\<open>str::lines\<close>\<close>

definition str_lines :: "string \<Rightarrow> string list" where
  "str_lines s = (let parts = split_on (CHR 0x0A) s
     in map strip_cr (butlast parts) @ (if last parts = [] then [] else [last parts]))"

definition ends_with :: "string \<Rightarrow> string \<Rightarrow> bool" where
  "ends_with s t = suffix t s"

text \<open>\<open>windows(n).position(|w| w == p)\<close> for a nonempty \<open>p\<close> of length \<open>n\<close>, and \<open>rposition\<close>.\<close>

fun find_sub :: "string \<Rightarrow> string \<Rightarrow> nat option" where
  "find_sub p [] = None"
| "find_sub p (c # cs) =
     (if starts_with (c # cs) p then Some 0 else map_option Suc (find_sub p cs))"

fun rposition :: "char \<Rightarrow> string \<Rightarrow> nat option" where
  "rposition x [] = None"
| "rposition x (c # cs) = (case rposition x cs of
     Some i \<Rightarrow> Some (Suc i) | None \<Rightarrow> if c = x then Some 0 else None)"

section \<open>The stream\<close>

definition max_sse_buffer_bytes :: nat where
  "max_sse_buffer_bytes = 1024 * 1024"

datatype inner_item = Data string | Broken string | Ended

record sse_stream =
  ss_inner :: "inner_item list"
  ss_buf :: string
  ss_scanned :: nat
  ss_upstream :: upstream
  ss_model_name :: string
  ss_user_tokens :: "usage_tokens option"
  ss_event :: proxy_event
  ss_start :: instant
  ss_done :: bool
  ss_idle_timeout :: nat
  ss_idle_deadline :: instant
  ss_max_duration :: nat
  ss_total_bytes :: nat
  ss_max_bytes :: nat

datatype poll = Pending | Ready "(string + string) option"

abbreviation crlf2 :: string where "crlf2 \<equiv> [CHR 0x0D, CHR 0x0A, CHR 0x0D, CHR 0x0A]"
abbreviation lf2 :: string where "lf2 \<equiv> [CHR 0x0A, CHR 0x0A]"

definition find_event_boundary :: "sse_stream \<Rightarrow> nat option \<times> sse_stream" where
  "find_event_boundary st =
     (let start = min (ss_scanned st) (length (ss_buf st));
          hay = drop start (ss_buf st)
      in case find_sub crlf2 hay of
           Some i \<Rightarrow> (Some (start + i + 4), st)
         | None \<Rightarrow> (case find_sub lf2 hay of
             Some i \<Rightarrow> (Some (start + i + 2), st)
           | None \<Rightarrow> (None, st\<lparr>ss_scanned := length (ss_buf st) - 3\<rparr>)))"

definition force_split_oversized :: "sse_stream \<Rightarrow> string + nat option" where
  "force_split_oversized st =
     (if length (ss_buf st) \<le> max_sse_buffer_bytes then Inr None
      else (case rposition (CHR 0x0A) (ss_buf st) of
        Some i \<Rightarrow> Inr (Some (i + 1))
      | None \<Rightarrow> Inl ''SSE buffer exceeded cap without a line boundary''))"

definition try_extract_usage_from ::
    "from_slice \<Rightarrow> string \<Rightarrow> usage_tokens option \<Rightarrow> usage_tokens option" where
  "try_extract_usage_from fs payload toks =
     (let tokens = parse_usage fs payload;
          positive = (\<lambda>x. case x of Some v \<Rightarrow> v > 0 | None \<Rightarrow> False)
      in if positive (ut_prompt tokens) \<or> positive (ut_completion tokens) \<or> positive (ut_total tokens)
         then Some tokens else toks)"

definition record_ttfb :: "instant \<Rightarrow> sse_stream \<Rightarrow> sse_stream" where
  "record_ttfb now st =
     (if pe_ttft_ms (ss_event st) = None then
        st\<lparr>ss_event := (ss_event st)\<lparr>pe_ttft_ms := Some (as_millis (elapsed now (ss_start st)))\<rparr>\<rparr>
      else st)"

definition reset_idle_timer :: "instant \<Rightarrow> sse_stream \<Rightarrow> sse_stream" where
  "reset_idle_timer now st = st\<lparr>ss_idle_deadline := now + ss_idle_timeout st\<rparr>"

definition finalize_log :: "instant \<Rightarrow> sse_stream \<Rightarrow> event_log \<Rightarrow> sse_stream \<times> event_log" where
  "finalize_log now st log =
     (let e = (case ss_user_tokens st of
            Some usage \<Rightarrow> with_usage usage (ss_event st) | None \<Rightarrow> ss_event st);
          e' = e\<lparr>pe_latency_ms := as_millis (elapsed now (ss_start st))\<rparr>
      in (st\<lparr>ss_user_tokens := None, ss_event := e'\<rparr>, log_proxy e' log))"

definition fail_stream ::
    "instant \<Rightarrow> string \<Rightarrow> string \<Rightarrow> sse_stream \<Rightarrow> event_log \<Rightarrow> poll \<times> sse_stream \<times> event_log" where
  "fail_stream now status msg st log =
     (Ready None, finalize_log now
        (st\<lparr>ss_event := (ss_event st)\<lparr>pe_status := status, pe_error_message := Some msg\<rparr>,
            ss_done := True\<rparr>) log)"

definition finalize_stream ::
    "from_slice \<Rightarrow> to_vec \<Rightarrow> instant \<Rightarrow> sse_stream \<Rightarrow> event_log \<Rightarrow> poll \<times> sse_stream \<times> event_log" where
  "finalize_stream fs tv now st log =
     (case finalize_log now (record_ttfb now (st\<lparr>ss_done := True\<rparr>)) log of
        (st1, log1) \<Rightarrow>
          if ss_buf st1 \<noteq> [] then
            (Ready (Some (Inr (transform_response fs tv (ss_upstream st1) (ss_buf st1) (ss_model_name st1)))),
             st1\<lparr>ss_buf := []\<rparr>, log1)
          else (Ready None, st1, log1))"

definition timeout_stream ::
    "from_slice \<Rightarrow> to_vec \<Rightarrow> instant \<Rightarrow> string \<Rightarrow> sse_stream \<Rightarrow> event_log
      \<Rightarrow> poll \<times> sse_stream \<times> event_log" where
  "timeout_stream fs tv now msg st log =
     finalize_stream fs tv now
       (st\<lparr>ss_event := (ss_event st)\<lparr>pe_status := ''504'', pe_error_message := Some msg\<rparr>\<rparr>) log"

text \<open>\<open>line.strip_prefix("data:")\<close>, less one space.\<close>

definition data_payload :: "string \<Rightarrow> string option" where
  "data_payload line = map_option
     (\<lambda>rest. case strip_prefix '' '' rest of Some r \<Rightarrow> r | None \<Rightarrow> rest) (strip_prefix ''data:'' line)"

definition transform_line ::
    "from_slice \<Rightarrow> to_vec \<Rightarrow> upstream \<Rightarrow> string \<Rightarrow> string \<Rightarrow> string \<Rightarrow> string" where
  "transform_line fs tv up model line out = (case data_payload line of
     Some payload \<Rightarrow>
       out @ ''data: '' @ transform_response fs tv up payload model @ [CHR 0x0A]
   | None \<Rightarrow>
       if line \<noteq> [] \<or> \<not> ends_with out lf2 then out @ line @ [CHR 0x0A] else out)"

definition usage_line ::
    "from_slice \<Rightarrow> string \<Rightarrow> usage_tokens option \<Rightarrow> usage_tokens option" where
  "usage_line fs line toks = (case data_payload line of
     Some payload \<Rightarrow> try_extract_usage_from fs payload toks | None \<Rightarrow> toks)"

definition transform_event ::
    "from_slice \<Rightarrow> to_vec \<Rightarrow> string \<Rightarrow> sse_stream \<Rightarrow> string \<times> sse_stream" where
  "transform_event fs tv event st =
     (if \<not> utf8_valid event then (event, st)
      else (fold (transform_line fs tv (ss_upstream st) (ss_model_name st)) (str_lines event) [],
            st\<lparr>ss_user_tokens := fold (usage_line fs) (str_lines event) (ss_user_tokens st)\<rparr>))"

definition split_event ::
    "from_slice \<Rightarrow> to_vec \<Rightarrow> nat \<Rightarrow> sse_stream \<Rightarrow> poll \<times> sse_stream" where
  "split_event fs tv event_end st =
     (let event = take event_end (ss_buf st);
          st1 = st\<lparr>ss_buf := drop event_end (ss_buf st), ss_scanned := 0\<rparr>
      in case transform_event fs tv event st1 of
           (transformed, st2) \<Rightarrow>
             (Ready (Some (Inr transformed)),
              st2\<lparr>ss_event := (ss_event st2)\<lparr>pe_response_body_size :=
                Some (wrap_i64 ((case pe_response_body_size (ss_event st2) of Some n \<Rightarrow> n | None \<Rightarrow> 0)
                  + int (length transformed)))\<rparr>\<rparr>))"

definition sse_drop :: "instant \<Rightarrow> sse_stream \<Rightarrow> event_log \<Rightarrow> event_log" where
  "sse_drop now st log =
     (if ss_done st then log
      else snd (finalize_log now (st\<lparr>ss_event := (ss_event st)\<lparr>pe_status := ''499''\<rparr>\<rparr>) log))"

text \<open>
  Looking for an event in the buffer: it is split off, the buffer is too long, or (\<open>None\<close>) there
  is none yet.
\<close>

definition next_event ::
    "from_slice \<Rightarrow> to_vec \<Rightarrow> instant \<Rightarrow> sse_stream \<Rightarrow> event_log
      \<Rightarrow> (poll \<times> sse_stream \<times> event_log) option \<times> sse_stream" where
  "next_event fs tv now st log = (case find_event_boundary st of
     (Some event_end, st1) \<Rightarrow>
       (case split_event fs tv event_end st1 of (p, st2) \<Rightarrow> (Some (p, st2, log), st2))
   | (None, st1) \<Rightarrow>
       (case force_split_oversized st1 of
          Inr (Some event_end) \<Rightarrow>
            (case split_event fs tv event_end st1 of (p, st2) \<Rightarrow> (Some (p, st2, log), st2))
        | Inr None \<Rightarrow> (None, st1)
        | Inl msg \<Rightarrow> (Some (fail_stream now ''502'' msg st1 log), st1)))"

fun poll_inner ::
    "from_slice \<Rightarrow> to_vec \<Rightarrow> instant \<Rightarrow> inner_item list \<Rightarrow> sse_stream \<Rightarrow> event_log
      \<Rightarrow> poll \<times> sse_stream \<times> event_log" where
  "poll_inner fs tv now [] st log = (Pending, st\<lparr>ss_inner := []\<rparr>, log)"
| "poll_inner fs tv now (Data bytes # items) st log =
     (let st1 = (reset_idle_timer now st)\<lparr>ss_inner := items,
            ss_total_bytes := ss_total_bytes st + length bytes\<rparr>
      in if ss_total_bytes st1 > ss_max_bytes st1 then
           fail_stream now ''502'' ''SSE stream exceeded max response size'' st1 log
         else
           (let st2 = record_ttfb now (st1\<lparr>ss_buf := ss_buf st1 @ bytes\<rparr>)
            in case next_event fs tv now st2 log of
                 (Some result, _) \<Rightarrow> result
               | (None, st3) \<Rightarrow> poll_inner fs tv now items st3 log))"
| "poll_inner fs tv now (Broken e # items) st log =
     (case finalize_log now (st\<lparr>ss_inner := items,
             ss_event := (ss_event st)\<lparr>pe_error_message := Some e\<rparr>\<rparr>) log of
        (st1, log1) \<Rightarrow> (Ready (Some (Inl e)), st1\<lparr>ss_done := True\<rparr>, log1))"
| "poll_inner fs tv now (Ended # items) st log =
     finalize_stream fs tv now (st\<lparr>ss_inner := items\<rparr>) log"

definition poll_next ::
    "from_slice \<Rightarrow> to_vec \<Rightarrow> instant \<Rightarrow> bool \<Rightarrow> sse_stream \<Rightarrow> event_log
      \<Rightarrow> poll \<times> sse_stream \<times> event_log" where
  "poll_next fs tv now cancelled st log =
     (if ss_done st then (Ready None, st, log)
      else if elapsed now (ss_start st) \<ge> ss_max_duration st then
        timeout_stream fs tv now ''SSE stream exceeded max duration'' st log
      else if now \<ge> ss_idle_deadline st then
        timeout_stream fs tv now ''SSE stream idle timeout'' st log
      else (case next_event fs tv now st log of
          (Some result, _) \<Rightarrow> result
        | (None, st1) \<Rightarrow>
            if cancelled then finalize_stream fs tv now st1 log
            else poll_inner fs tv now (ss_inner st1) st1 log))"

end
