(* ===== verification/Sse_Facts.thy ===== *)
theory Sse_Facts
  imports Sse
begin

text \<open>
  What the event stream guarantees: the incremental search for an event boundary is a full scan
  of the buffer, no byte is lost between events, a stream leaves exactly one log entry, and it
  always comes to an end.
\<close>

section \<open>The incremental search\<close>

lemma starts_with_append: "length p \<le> length s \<Longrightarrow> starts_with (s @ t) p = starts_with s p"
  by (auto simp: starts_with_iff prefix_def append_eq_append_conv2)

lemma find_sub_None: "p \<noteq> [] \<Longrightarrow> find_sub p s = None \<longleftrightarrow> \<not> sublist p s"
proof (induction s)
  case (Cons c s)
  then show ?case by (auto simp: starts_with_iff sublist_Cons_right)
qed simp

lemma find_sub_Some:
  "find_sub p s = Some i \<Longrightarrow> starts_with (drop i s) p \<and> i < length s"
  by (induction s arbitrary: i) (auto split: if_splits)

lemma find_sub_bound:
  assumes "find_sub p s = Some i" shows "i + length p \<le> length s"
proof -
  have "prefix p (drop i s)" "i < length s"
    using find_sub_Some [OF assms] by (auto simp: starts_with_iff)
  then show ?thesis using prefix_length_le [of p "drop i s"] by simp
qed

text \<open>If nothing starts before \<open>k\<close>, searching from \<open>k\<close> on is searching everywhere.\<close>

lemma find_sub_drop:
  assumes "\<forall>j < k. \<not> starts_with (drop j s) p" and "k \<le> length s"
  shows "find_sub p s = map_option ((+) k) (find_sub p (drop k s))"
  using assms
proof (induction s arbitrary: k)
  case (Cons c s)
  show ?case
  proof (cases k)
    case 0
    then show ?thesis by (simp add: option.map_ident)
  next
    case (Suc k')
    have "\<not> starts_with (c # s) p" using Cons.prems(1) Suc by force
    moreover have "\<forall>j < k'. \<not> starts_with (drop j s) p"
      using Cons.prems(1) Suc by force
    ultimately show ?thesis
      using Cons.IH [of k'] Cons.prems(2) Suc by (simp add: option.map_comp comp_def)
  qed
qed simp

text \<open>The buffer has no boundary in its scanned part.\<close>

definition scan_ok :: "sse_stream \<Rightarrow> bool" where
  "scan_ok st \<longleftrightarrow> ss_scanned st \<le> length (ss_buf st)
     \<and> (\<forall>j < ss_scanned st. \<not> starts_with (drop j (ss_buf st)) crlf2
          \<and> \<not> starts_with (drop j (ss_buf st)) lf2)"

definition full_scan :: "string \<Rightarrow> nat option" where
  "full_scan buf = (case find_sub crlf2 buf of
     Some i \<Rightarrow> Some (i + 4)
   | None \<Rightarrow> map_option (\<lambda>i. i + 2) (find_sub lf2 buf))"

lemma boundary_is_full_scan:
  assumes "scan_ok st"
  shows "fst (find_event_boundary st) = full_scan (ss_buf st)"
proof -
  have "find_sub p (ss_buf st) =
      map_option ((+) (ss_scanned st)) (find_sub p (drop (ss_scanned st) (ss_buf st)))"
    if "p \<in> {crlf2, lf2}" for p
    using that assms by (intro find_sub_drop) (auto simp: scan_ok_def)
  then show ?thesis
    using assms
    by (auto simp: find_event_boundary_def full_scan_def scan_ok_def Let_def min_absorb1
        split: option.split)
qed

lemma full_scan_bound: "full_scan buf = Some n \<Longrightarrow> 0 < n \<and> n \<le> length buf"
  by (auto simp: full_scan_def dest!: find_sub_bound split: option.splits)

lemma boundary_bound:
  assumes "fst (find_event_boundary st) = Some n" shows "0 < n \<and> n \<le> length (ss_buf st)"
  using assms
  by (auto simp: find_event_boundary_def Let_def min_def dest!: find_sub_bound
      split: option.splits if_splits)

text \<open>Nothing found: the whole buffer but its last three bytes is scanned, also for the bytes to come.\<close>

lemma no_sub_start:
  assumes "find_sub p s = None" and "p \<noteq> []" shows "\<not> starts_with (drop j s) p"
proof
  assume "starts_with (drop j s) p"
  then obtain r where "drop j s = p @ r" by (auto simp: starts_with_iff prefix_def)
  then have "s = take j s @ p @ r" using append_take_drop_id [of j s] by simp
  then have "sublist p s" unfolding sublist_def by blast
  then show False using assms by (simp add: find_sub_None)
qed

lemma starts_with_drop_append:
  "j + length p \<le> length s \<Longrightarrow> starts_with (drop j (s @ t)) p = starts_with (drop j s) p"
  by (simp add: starts_with_append)

lemma scan_ok_append:
  assumes "scan_ok st" and "ss_scanned st \<le> length (ss_buf st) - 3"
  shows "scan_ok (st\<lparr>ss_buf := ss_buf st @ bytes\<rparr>)"
proof -
  have "starts_with (drop j (ss_buf st @ bytes)) p = starts_with (drop j (ss_buf st)) p"
    if "j < ss_scanned st" "p \<in> {crlf2, lf2}" for j p
    using that assms(2) by (intro starts_with_drop_append) auto
  with assms(1) show ?thesis by (simp add: scan_ok_def del: drop_append)
qed

lemma boundary_miss:
  assumes "find_event_boundary st = (None, st')" and "scan_ok st"
  shows "st' = st\<lparr>ss_scanned := length (ss_buf st) - 3\<rparr>" "scan_ok st'"
    "ss_scanned st' \<le> length (ss_buf st') - 3"
proof -
  show st': "st' = st\<lparr>ss_scanned := length (ss_buf st) - 3\<rparr>"
    using assms(1) by (auto simp: find_event_boundary_def Let_def split: option.splits)
  have "full_scan (ss_buf st) = None"
    using boundary_is_full_scan [OF assms(2)] assms(1) by simp
  then have "find_sub crlf2 (ss_buf st) = None" "find_sub lf2 (ss_buf st) = None"
    by (auto simp: full_scan_def split: option.splits)
  then show "scan_ok st'" using no_sub_start st' by (simp add: scan_ok_def)
  show "ss_scanned st' \<le> length (ss_buf st') - 3" by (simp add: st')
qed

section \<open>One poll\<close>

text \<open>\<open>st'\<close> has received \<open>pre\<close> from the inner stream of \<open>st\<close>.\<close>

definition received :: "sse_stream \<Rightarrow> string list \<Rightarrow> sse_stream \<Rightarrow> bool" where
  "received st pre st' \<longleftrightarrow> ss_inner st = map Data pre @ ss_inner st'"

definition same_cfg :: "sse_stream \<Rightarrow> sse_stream \<Rightarrow> bool" where
  "same_cfg st st' \<longleftrightarrow> ss_upstream st' = ss_upstream st \<and> ss_model_name st' = ss_model_name st
     \<and> ss_start st' = ss_start st \<and> ss_max_duration st' = ss_max_duration st
     \<and> ss_max_bytes st' = ss_max_bytes st"

definition sse_inv :: "sse_stream \<Rightarrow> bool" where
  "sse_inv st \<longleftrightarrow> scan_ok st \<and> length (ss_buf st) \<le> ss_total_bytes st \<and> ss_total_bytes st \<le> ss_max_bytes st"

definition event_out :: "from_slice \<Rightarrow> to_vec \<Rightarrow> sse_stream \<Rightarrow> string \<Rightarrow> string" where
  "event_out fs tv st ev = fst (transform_event fs tv ev st)"

text \<open>
  The outcome of a poll of an open stream: it stays open, and forwards one event or waits; or it
  ends, with one log entry, and forwards at most what is left.
\<close>

definition outcome ::
    "from_slice \<Rightarrow> to_vec \<Rightarrow> sse_stream \<Rightarrow> event_log \<Rightarrow> poll \<times> sse_stream \<times> event_log \<Rightarrow> bool" where
  "outcome fs tv st log r \<longleftrightarrow> (case r of (p, st', log') \<Rightarrow> same_cfg st st'
     \<and> (if ss_done st' then
          (\<exists>e. log' = log @ [Proxy e])
          \<and> (p = Ready None \<or> (\<exists>e. p = Ready (Some (Inl e)))
             \<or> (\<exists>pre rest. ss_inner st = map Data pre @ rest
                 \<and> p = Ready (Some (Inr (transform_response fs tv (ss_upstream st)
                     (ss_buf st @ concat pre) (ss_model_name st))))))
        else log' = log \<and> sse_inv st'
          \<and> (\<exists>pre. received st pre st'
               \<and> (p = Pending \<and> ss_inner st' = [] \<and> ss_buf st' = ss_buf st @ concat pre
                  \<or> (\<exists>ev. ev \<noteq> [] \<and> p = Ready (Some (Inr (event_out fs tv st ev)))
                      \<and> ss_buf st @ concat pre = ev @ ss_buf st')))))"

lemma outcome_endI:
  assumes "same_cfg st st'" and "ss_done st'" and "\<exists>e. log' = log @ [Proxy e]"
    and "p = Ready None \<or> (\<exists>e. p = Ready (Some (Inl e)))"
  shows "outcome fs tv st log (p, st', log')"
  unfolding outcome_def prod.case using assms by auto

lemma outcome_leftI:
  assumes "same_cfg st st'" and "ss_done st'" and "\<exists>e. log' = log @ [Proxy e]"
    and "ss_inner st = map Data pre @ rest" and "bytes = ss_buf st @ concat pre"
    and "up = ss_upstream st" and "m = ss_model_name st"
  shows "outcome fs tv st log (Ready (Some (Inr (transform_response fs tv up bytes m))), st', log')"
  unfolding outcome_def prod.case assms(5-7) using assms(1-4) by auto

lemma outcome_eventI:
  assumes "same_cfg st st'" and "\<not> ss_done st'" and "sse_inv st'" and "received st pre st'"
    and "ev \<noteq> []" and "ss_buf st @ concat pre = ev @ ss_buf st'"
  shows "outcome fs tv st log (Ready (Some (Inr (event_out fs tv st ev))), st', log)"
  unfolding outcome_def prod.case using assms by auto

lemma outcome_pendingI:
  assumes "same_cfg st st'" and "\<not> ss_done st'" and "sse_inv st'" and "received st pre st'"
    and "ss_inner st' = []" and "ss_buf st' = ss_buf st @ concat pre"
  shows "outcome fs tv st log (Pending, st', log)"
  unfolding outcome_def prod.case using assms by auto

lemma outcome_cases:
  assumes "outcome fs tv st log (p, st', log')"
  obtains (finished) "same_cfg st st'" "ss_done st'" "\<exists>e. log' = log @ [Proxy e]"
      "p = Ready None \<or> (\<exists>e. p = Ready (Some (Inl e)))"
  | (left) pre rest where "same_cfg st st'" "ss_done st'" "\<exists>e. log' = log @ [Proxy e]"
      "ss_inner st = map Data pre @ rest"
      "p = Ready (Some (Inr (transform_response fs tv (ss_upstream st) (ss_buf st @ concat pre)
         (ss_model_name st))))"
  | (event) pre ev where "same_cfg st st'" "\<not> ss_done st'" "sse_inv st'" "received st pre st'"
      "ev \<noteq> []" "ss_buf st @ concat pre = ev @ ss_buf st'" "log' = log"
      "p = Ready (Some (Inr (event_out fs tv st ev)))"
  | (waiting) pre where "same_cfg st st'" "\<not> ss_done st'" "sse_inv st'" "received st pre st'"
      "ss_inner st' = []" "ss_buf st' = ss_buf st @ concat pre" "log' = log" "p = Pending"
proof (cases "ss_done st'")
  case True
  then show ?thesis using assms finished left unfolding outcome_def prod.case by force
next
  case False
  then show ?thesis using assms event waiting unfolding outcome_def prod.case by auto
qed

lemma event_out_cong: "same_cfg st st' \<Longrightarrow> event_out fs tv st' ev = event_out fs tv st ev"
  by (simp add: event_out_def transform_event_def same_cfg_def)

lemma same_cfg_trans: "same_cfg a b \<Longrightarrow> same_cfg b c \<Longrightarrow> same_cfg a c"
  by (simp add: same_cfg_def)

text \<open>What a stream does after receiving data, it does from before.\<close>

lemma outcome_feed:
  assumes "outcome fs tv st' log r" and "same_cfg st st'" and "received st pre0 st'"
    and "ss_buf st' = ss_buf st @ concat pre0"
  shows "outcome fs tv st log r"
proof -
  obtain p st2 log' where r: "r = (p, st2, log')" by (cases r)
  have up: "ss_upstream st' = ss_upstream st" "ss_model_name st' = ss_model_name st"
    using assms(2) by (simp_all add: same_cfg_def)
  have inn: "ss_inner st = map Data (pre0 @ pre) @ rest" if "ss_inner st' = map Data pre @ rest" for pre rest
    using assms(3) that by (simp add: received_def)
  from assms(1) [unfolded r] show ?thesis
  proof (cases rule: outcome_cases)
    case finished
    then show ?thesis using outcome_endI same_cfg_trans [OF assms(2)] unfolding r by blast
  next
    case (left pre rest)
    show ?thesis
      unfolding r left(5)
      by (rule outcome_leftI [OF same_cfg_trans [OF assms(2) left(1)] left(2,3) inn [OF left(4)]])
        (simp_all add: assms(4) up)
  next
    case (event pre ev)
    have "received st (pre0 @ pre) st2" using event(4) inn by (simp add: received_def)
    then show ?thesis
      unfolding r event(7,8) event_out_cong [OF assms(2)]
      by (rule outcome_eventI [OF same_cfg_trans [OF assms(2) event(1)] event(2,3) _ event(5)])
        (use event(6) assms(4) in simp)
  next
    case (waiting pre)
    have "received st (pre0 @ pre) st2" using waiting(4) inn by (simp add: received_def)
    then show ?thesis
      unfolding r waiting(7,8)
      by (rule outcome_pendingI [OF same_cfg_trans [OF assms(2) waiting(1)] waiting(2,3) _ waiting(5)])
        (use waiting(6) assms(4) in simp)
  qed
qed

lemma finalize_log_facts:
  assumes "finalize_log now st log = (st', log')"
  shows "\<exists>e. log' = log @ [Proxy e]" "same_cfg st st'" "ss_done st' = ss_done st"
    "ss_buf st' = ss_buf st"
  using assms by (auto simp: finalize_log_def log_proxy_def Let_def same_cfg_def)

lemma fail_outcome: "outcome fs tv st log (fail_stream now status msg st log)"
proof -
  let ?st = "st\<lparr>ss_event := (ss_event st)\<lparr>pe_status := status, pe_error_message := Some msg\<rparr>, ss_done := True\<rparr>"
  obtain st' log' where f: "finalize_log now ?st log = (st', log')" by fastforce
  have "same_cfg st ?st" by (simp add: same_cfg_def)
  then show ?thesis
    using finalize_log_facts [OF f] same_cfg_trans by (auto simp: outcome_def fail_stream_def f)
qed

lemma finalize_outcome: "outcome fs tv st log (finalize_stream fs tv now st log)"
proof -
  let ?st = "record_ttfb now (st\<lparr>ss_done := True\<rparr>)"
  obtain st' log' where f: "finalize_log now ?st log = (st', log')" by fastforce
  have pre: "same_cfg st ?st" "ss_done ?st" "ss_buf ?st = ss_buf st"
    by (simp_all add: same_cfg_def record_ttfb_def)
  note post = finalize_log_facts [OF f]
  have cfg: "same_cfg st st'" "same_cfg st (st'\<lparr>ss_buf := []\<rparr>)"
    using same_cfg_trans [OF pre(1) post(2)] by (simp_all add: same_cfg_def)
  have up: "ss_upstream st' = ss_upstream st" "ss_model_name st' = ss_model_name st"
    using cfg(1) by (simp_all add: same_cfg_def)
  have fin: "ss_done st'" "ss_done (st'\<lparr>ss_buf := []\<rparr>)" using post(3) pre(2) by simp_all
  show ?thesis
  proof (cases "ss_buf st = []")
    case True
    then show ?thesis
      using outcome_endI [OF cfg(1) fin(1) post(1)] post(4) pre(3) by (simp add: finalize_stream_def f)
  next
    case False
    have "outcome fs tv st log (Ready (Some (Inr (transform_response fs tv (ss_upstream st') (ss_buf st')
        (ss_model_name st')))), st'\<lparr>ss_buf := []\<rparr>, log')"
      by (rule outcome_leftI [OF cfg(2) fin(2) post(1), of "[]" "ss_inner st"]) (simp_all add: up post(4) pre(3))
    then show ?thesis using False post(4) pre(3) by (simp add: finalize_stream_def f)
  qed
qed

lemma timeout_outcome: "outcome fs tv st log (timeout_stream fs tv now msg st log)"
proof -
  let ?st = "st\<lparr>ss_event := (ss_event st)\<lparr>pe_status := ''504'', pe_error_message := Some msg\<rparr>\<rparr>"
  have "outcome fs tv st log r" if "outcome fs tv ?st log r" for r
    by (rule outcome_feed [OF that, where ?pre0.0 = "[]"]) (simp_all add: same_cfg_def received_def)
  then show ?thesis using finalize_outcome by (simp add: timeout_stream_def)
qed

lemma split_event_facts:
  assumes "split_event fs tv n st = (p, st')"
  shows "p = Ready (Some (Inr (event_out fs tv st (take n (ss_buf st)))))"
    "ss_buf st' = drop n (ss_buf st)" "ss_scanned st' = 0" "same_cfg st st'" "ss_done st' = ss_done st"
    "ss_inner st' = ss_inner st" "ss_total_bytes st' = ss_total_bytes st"
  using assms
  by (auto simp: split_event_def event_out_def transform_event_def same_cfg_def Let_def split: if_splits)

lemma split_outcome:
  assumes "split_event fs tv n st = (p, st')" and "0 < n" and "n \<le> length (ss_buf st)"
    and "sse_inv st" and "\<not> ss_done st"
  shows "outcome fs tv st log (p, st', log)"
proof -
  note f = split_event_facts [OF assms(1)]
  have "sse_inv st'" using f(2,3,4,7) assms(4) by (auto simp: sse_inv_def scan_ok_def same_cfg_def)
  moreover have "received st [] st'" by (simp add: received_def f)
  moreover have "take n (ss_buf st) \<noteq> []" using assms(2,3) by auto
  ultimately show ?thesis
    unfolding f(1) by (intro outcome_eventI [OF f(4), where pre = "[]"]) (simp_all add: f assms(5))
qed

lemma rposition_bound: "rposition x s = Some i \<Longrightarrow> i < length s"
  by (induction s arbitrary: i) (auto split: option.splits if_splits)

lemma next_event_cases:
  assumes "sse_inv st" and "\<not> ss_done st"
  obtains (now_event) r st' where "next_event fs tv now st log = (Some r, st')" "outcome fs tv st log r"
  | (none) st' where "next_event fs tv now st log = (None, st')" "sse_inv st'"
      "ss_scanned st' \<le> length (ss_buf st') - 3" "same_cfg st st'" "ss_buf st' = ss_buf st"
      "\<not> ss_done st'" "ss_inner st' = ss_inner st" "full_scan (ss_buf st) = None"
proof -
  have ok: "scan_ok st" using assms(1) by (simp add: sse_inv_def)
  obtain b st1 where b: "find_event_boundary st = (b, st1)" by fastforce
  show ?thesis
  proof (cases b)
    case (Some n)
    have "st1 = st" using b Some by (auto simp: find_event_boundary_def Let_def split: option.splits)
    moreover obtain p st2 where s: "split_event fs tv n st = (p, st2)" by fastforce
    moreover have "outcome fs tv st log (p, st2, log)"
      using split_outcome [OF s _ _ assms] boundary_bound [of st n] b Some by simp
    ultimately show ?thesis using now_event b Some by (simp add: next_event_def)
  next
    case None
    note miss = boundary_miss [OF b [unfolded None] ok]
    have cfg: "same_cfg st st1" "ss_buf st1 = ss_buf st" "\<not> ss_done st1" "ss_inner st1 = ss_inner st"
      using assms(2) by (simp_all add: miss(1) same_cfg_def)
    have inv: "sse_inv st1" using assms(1) miss by (simp add: sse_inv_def)
    have none_found: "full_scan (ss_buf st) = None" using boundary_is_full_scan [OF ok] b None by simp
    have carry: "outcome fs tv st log r" if "outcome fs tv st1 log r" for r
      by (rule outcome_feed [OF that cfg(1), where ?pre0.0 = "[]"]) (simp_all add: received_def cfg)
    show ?thesis
    proof (cases "force_split_oversized st1")
      case (Inl msg)
      then show ?thesis
        using now_event b None carry [OF fail_outcome] by (simp add: next_event_def)
    next
      case (Inr e)
      show ?thesis
      proof (cases e)
        case None
        then show ?thesis
          using none [of st1] Inr b \<open>b = None\<close> inv miss(3) cfg none_found by (simp add: next_event_def)
      next
        case (Some n)
        obtain p st2 where s: "split_event fs tv n st1 = (p, st2)" by fastforce
        have "0 < n" "n \<le> length (ss_buf st1)"
          using Inr Some by (auto simp: force_split_oversized_def dest: rposition_bound
              split: if_splits option.splits)
        then have "outcome fs tv st log (p, st2, log)" using carry split_outcome [OF s _ _ inv cfg(3)] by blast
        then show ?thesis using now_event Inr Some s b \<open>b = None\<close> by (simp add: next_event_def)
      qed
    qed
  qed
qed

lemma poll_inner_outcome:
  "sse_inv st \<Longrightarrow> ss_scanned st \<le> length (ss_buf st) - 3 \<Longrightarrow> \<not> ss_done st \<Longrightarrow>
     outcome fs tv (st\<lparr>ss_inner := items\<rparr>) log (poll_inner fs tv now items st log)"
proof (induction items arbitrary: st)
  case Nil
  then show ?case
    by (auto simp: outcome_def same_cfg_def sse_inv_def scan_ok_def received_def intro!: exI [of _ "[]"])
next
  case (Cons item items)
  show ?case
  proof (cases item)
    case (Data b)
    define st1 where "st1 = (reset_idle_timer now st)\<lparr>ss_inner := items,
      ss_total_bytes := ss_total_bytes st + length b\<rparr>"
    define st2 where "st2 = record_ttfb now (st1\<lparr>ss_buf := ss_buf st1 @ b\<rparr>)"
    let ?s = "st\<lparr>ss_inner := item # items\<rparr>"
    have cfg: "same_cfg ?s st1" "same_cfg ?s st2" "received ?s [b] st2" "ss_buf st2 = ss_buf ?s @ concat [b]"
      by (simp_all add: st1_def st2_def same_cfg_def reset_idle_timer_def record_ttfb_def received_def Data)
    note run = poll_inner.simps(2) [of fs tv now b items st log, folded st1_def, unfolded Let_def,
        folded st2_def, folded Data]
    show ?thesis
    proof (cases "ss_total_bytes st1 > ss_max_bytes st1")
      case True
      have "same_cfg ?s x \<longleftrightarrow> same_cfg st1 x" for x using cfg(1) by (auto simp: same_cfg_def)
      then have "outcome fs tv ?s log (fail_stream now status msg st1 log)" for status msg
        using fail_outcome [of fs tv st1 log now status msg]
        by (auto simp: outcome_def fail_stream_def finalize_log_def Let_def)
      then show ?thesis using True unfolding run by simp
    next
      case False
      have "scan_ok (st\<lparr>ss_buf := ss_buf st @ b\<rparr>)"
        using scan_ok_append Cons.prems by (simp add: sse_inv_def)
      then have inv: "sse_inv st2" "\<not> ss_done st2"
        using Cons.prems False
        by (simp_all add: st1_def st2_def sse_inv_def scan_ok_def reset_idle_timer_def record_ttfb_def)
      have lift: "outcome fs tv ?s log r" if "outcome fs tv st2 log r" for r
        by (rule outcome_feed [OF that cfg(2-4)])
      show ?thesis
        using inv
      proof (cases rule: next_event_cases [where fs = fs and tv = tv and now = now and log = log])
        case (now_event r st')
        then show ?thesis using False lift unfolding run by simp
      next
        case (none st3)
        have inn: "ss_inner st3 = items"
          using none(7) by (simp add: st1_def st2_def record_ttfb_def)
        have "outcome fs tv (st3\<lparr>ss_inner := items\<rparr>) log (poll_inner fs tv now items st3 log)"
          by (rule Cons.IH [OF none(2,3,6)])
        moreover have "st3\<lparr>ss_inner := items\<rparr> = st3" using inn by simp
        ultimately have st3: "outcome fs tv st3 log (poll_inner fs tv now items st3 log)" by simp
        have "outcome fs tv st2 log (poll_inner fs tv now items st3 log)"
          by (rule outcome_feed [OF st3 none(4), where ?pre0.0 = "[]"]) (simp_all add: received_def none(5,7))
        then show ?thesis using False lift none(1) unfolding run by simp
      qed
    qed
  next
    case (Broken e)
    then show ?thesis
      by (auto simp: outcome_def finalize_log_def Let_def log_proxy_def same_cfg_def)
  next
    case Ended
    have out: "fst (finalize_stream fs tv now (st\<lparr>ss_inner := items\<rparr>) log) = Ready None
        \<or> fst (finalize_stream fs tv now (st\<lparr>ss_inner := items\<rparr>) log) = Ready (Some (Inr
          (transform_response fs tv (ss_upstream st) (ss_buf st @ concat []) (ss_model_name st))))"
      "ss_done (fst (snd (finalize_stream fs tv now (st\<lparr>ss_inner := items\<rparr>) log)))"
      by (simp_all add: finalize_stream_def finalize_log_def record_ttfb_def Let_def)
    have "outcome fs tv (st\<lparr>ss_inner := Ended # items\<rparr>) log r"
      if "outcome fs tv (st\<lparr>ss_inner := items\<rparr>) log r" "ss_done (fst (snd r))"
        "fst r = Ready None \<or> fst r = Ready (Some (Inr
          (transform_response fs tv (ss_upstream st) (ss_buf st @ concat []) (ss_model_name st))))" for r
    proof -
      have "\<exists>pre rest. Ended # items = map Data pre @ rest
          \<and> transform_response fs tv (ss_upstream st) (ss_buf st) (ss_model_name st)
            = transform_response fs tv (ss_upstream st) (ss_buf st @ concat pre) (ss_model_name st)"
        by (rule exI [of _ "[]"]) simp
      with that show ?thesis by (auto simp: outcome_def same_cfg_def)
    qed
    with out show ?thesis using finalize_outcome by (simp add: Ended)
  qed
qed

lemma poll_next_outcome:
  assumes "sse_inv st" and "\<not> ss_done st"
  shows "outcome fs tv st log (poll_next fs tv now cancelled st log)"
proof (cases "elapsed now (ss_start st) \<ge> ss_max_duration st \<or> now \<ge> ss_idle_deadline st")
  case True
  then show ?thesis using assms(2) timeout_outcome by (auto simp: poll_next_def)
next
  case live: False
  show ?thesis
    using assms
  proof (cases rule: next_event_cases [where fs = fs and tv = tv and now = now and log = log])
    case (now_event r st')
    then show ?thesis using live assms(2) by (simp add: poll_next_def)
  next
    case (none st')
    have "st'\<lparr>ss_inner := ss_inner st'\<rparr> = st'" by simp
    then have "outcome fs tv st' log (if cancelled then finalize_stream fs tv now st' log
        else poll_inner fs tv now (ss_inner st') st' log)"
      using poll_inner_outcome [OF none(2,3,6), of fs tv "ss_inner st'" log now] finalize_outcome by simp
    then have "outcome fs tv st log (if cancelled then finalize_stream fs tv now st' log
        else poll_inner fs tv now (ss_inner st') st' log)"
      by (rule outcome_feed [where ?pre0.0 = "[]"]) (simp_all add: received_def none(4,5,7))
    then show ?thesis using live assms(2) none(1) by (simp add: poll_next_def)
  qed
qed

lemma poll_done: "ss_done st \<Longrightarrow> poll_next fs tv now cancelled st log = (Ready None, st, log)"
  by (simp add: poll_next_def)

section \<open>Runs\<close>

text \<open>
  A run polls the stream again and again: at each turn the clock, whether shutdown was requested,
  and what the upstream sent since the last turn.
\<close>

type_synonym turn = "instant \<times> bool \<times> inner_item list"

fun sse_run ::
    "from_slice \<Rightarrow> to_vec \<Rightarrow> turn list \<Rightarrow> sse_stream \<Rightarrow> event_log
      \<Rightarrow> poll list \<times> sse_stream \<times> event_log" where
  "sse_run fs tv [] st log = ([], st, log)"
| "sse_run fs tv ((now, cancelled, items) # turns) st log =
     (case poll_next fs tv now cancelled (st\<lparr>ss_inner := ss_inner st @ items\<rparr>) log of
        (p, st1, log1) \<Rightarrow>
          (case sse_run fs tv turns st1 log1 of (ps, st2, log2) \<Rightarrow> (p # ps, st2, log2)))"

definition outputs :: "poll list \<Rightarrow> string list" where
  "outputs ps = concat (map (\<lambda>p. case p of Ready (Some (Inr out)) \<Rightarrow> [out] | _ \<Rightarrow> []) ps)"

lemma outputs_simps [simp]:
  "outputs [] = []" "outputs (Pending # ps) = outputs ps" "outputs (Ready None # ps) = outputs ps"
  "outputs (Ready (Some (Inl e)) # ps) = outputs ps" "outputs (Ready (Some (Inr x)) # ps) = x # outputs ps"
  by (simp_all add: outputs_def)

lemma run_done:
  "ss_done st \<Longrightarrow> sse_run fs tv turns st log = (ps, st', log') \<Longrightarrow>
     outputs ps = [] \<and> ss_done st' \<and> log' = log \<and> same_cfg st st'"
proof (induction turns arbitrary: st ps)
  case (Cons turn turns)
  obtain now c items where turn: "turn = (now, c, items)" by (cases turn)
  have d: "ss_done (st\<lparr>ss_inner := ss_inner st @ items\<rparr>)" using Cons.prems(1) by simp
  obtain ps1 where "sse_run fs tv turns (st\<lparr>ss_inner := ss_inner st @ items\<rparr>) log = (ps1, st', log')"
    "ps = Ready None # ps1"
    using Cons.prems(2) by (auto simp: turn poll_done [OF d] split: prod.splits)
  with Cons.IH [OF d this(1)] show ?case by (simp add: same_cfg_def)
qed (simp add: same_cfg_def)

text \<open>One turn of a run, by what its poll did.\<close>

lemma turn_cases:
  assumes "sse_run fs tv ((now, cancelled, items) # turns) st log = (ps, st', log')"
    and "sse_inv st" and "\<not> ss_done st"
  obtains p st1 log1 ps1 where
    "poll_next fs tv now cancelled (st\<lparr>ss_inner := ss_inner st @ items\<rparr>) log = (p, st1, log1)"
    "sse_run fs tv turns st1 log1 = (ps1, st', log')" "ps = p # ps1"
    "outcome fs tv (st\<lparr>ss_inner := ss_inner st @ items\<rparr>) log (p, st1, log1)"
proof -
  let ?st = "st\<lparr>ss_inner := ss_inner st @ items\<rparr>"
  obtain p st1 log1 where p: "poll_next fs tv now cancelled ?st log = (p, st1, log1)" by (cases "poll_next fs tv now cancelled ?st log")
  obtain ps1 where "sse_run fs tv turns st1 log1 = (ps1, st', log')" "ps = p # ps1"
    using assms(1) by (auto simp: p split: prod.splits)
  moreover have "sse_inv ?st" "\<not> ss_done ?st"
    using assms(2,3) by (simp_all add: sse_inv_def scan_ok_def)
  then have "outcome fs tv ?st log (p, st1, log1)" using poll_next_outcome p by metis
  ultimately show ?thesis using that p by blast
qed

lemma same_cfg_inner: "same_cfg (st\<lparr>ss_inner := xs\<rparr>) st' = same_cfg st st'"
  by (simp add: same_cfg_def)

lemma run_inv:
  "sse_run fs tv turns st log = (ps, st', log') \<Longrightarrow> sse_inv st \<Longrightarrow> \<not> ss_done st \<Longrightarrow>
     same_cfg st st' \<and> (if ss_done st' then \<exists>e. log' = log @ [Proxy e] else log' = log \<and> sse_inv st')"
proof (induction turns arbitrary: st ps log)
  case (Cons turn turns)
  obtain now c items where turn: "turn = (now, c, items)" by (cases turn)
  obtain p st1 log1 ps1 where
      "poll_next fs tv now c (st\<lparr>ss_inner := ss_inner st @ items\<rparr>) log = (p, st1, log1)"
    and r: "sse_run fs tv turns st1 log1 = (ps1, st', log')" and "ps = p # ps1"
    and o: "outcome fs tv (st\<lparr>ss_inner := ss_inner st @ items\<rparr>) log (p, st1, log1)"
    by (rule turn_cases [OF Cons.prems(1) [unfolded turn] Cons.prems(2,3)])
  have over: "ss_done st' \<and> log' = log1 \<and> same_cfg st st'" if "ss_done st1" "same_cfg st st1"
    using run_done [OF that(1) r] same_cfg_trans [OF that(2)] by blast
  from o show ?case
  proof (cases rule: outcome_cases)
    case (event pre ev)
    then show ?thesis
      using Cons.IH [OF r event(3,2)] same_cfg_trans by (auto simp: same_cfg_inner)
  next
    case (waiting pre)
    then show ?thesis
      using Cons.IH [OF r waiting(3,2)] same_cfg_trans by (auto simp: same_cfg_inner)
  qed (use over in \<open>auto simp: same_cfg_inner\<close>)
qed (simp add: same_cfg_def)

text \<open>Where the bytes go: into the events, what is left, and what was not yet taken.\<close>

definition arrivals :: "turn list \<Rightarrow> inner_item list" where
  "arrivals turns = concat (map (\<lambda>(_, _, items). items) turns)"

definition framed ::
    "from_slice \<Rightarrow> to_vec \<Rightarrow> sse_stream \<Rightarrow> inner_item list \<Rightarrow> string list \<Rightarrow> sse_stream \<Rightarrow> bool" where
  "framed fs tv st items outs st' \<longleftrightarrow>
     (\<exists>pre rest evs tail. items = map Data pre @ rest \<and> [] \<notin> set evs
        \<and> ss_buf st @ concat pre = concat evs @ tail
        \<and> (if ss_done st' then
             outs = map (event_out fs tv st) evs
             \<or> outs = map (event_out fs tv st) evs
                 @ [transform_response fs tv (ss_upstream st) tail (ss_model_name st)]
           else outs = map (event_out fs tv st) evs \<and> tail = ss_buf st' \<and> rest = ss_inner st'))"

lemma framed_step:
  assumes "framed fs tv st1 (ss_inner st1 @ later) outs st'" and "same_cfg st st1"
    and "items = map Data pre0 @ ss_inner st1" and "ss_buf st @ concat pre0 = concat evs0 @ ss_buf st1"
    and "[] \<notin> set evs0"
  shows "framed fs tv st (items @ later) (map (event_out fs tv st) evs0 @ outs) st'"
proof -
  obtain pre rest evs tail where f: "ss_inner st1 @ later = map Data pre @ rest" "[] \<notin> set evs"
      "ss_buf st1 @ concat pre = concat evs @ tail"
      "if ss_done st' then outs = map (event_out fs tv st1) evs \<or> outs = map (event_out fs tv st1) evs
                 @ [transform_response fs tv (ss_upstream st1) tail (ss_model_name st1)]
       else outs = map (event_out fs tv st1) evs \<and> tail = ss_buf st' \<and> rest = ss_inner st'"
    using assms(1) unfolding framed_def by blast
  have up: "event_out fs tv st1 = event_out fs tv st" "ss_upstream st1 = ss_upstream st"
      "ss_model_name st1 = ss_model_name st"
    using event_out_cong [OF assms(2)] assms(2) by (auto simp: same_cfg_def)
  have "items @ later = map Data (pre0 @ pre) @ rest" using assms(3) f(1) by simp
  moreover have "ss_buf st @ concat (pre0 @ pre) = concat (evs0 @ evs) @ tail"
    using assms(4) f(3) by (metis append.assoc concat_append)
  moreover have "[] \<notin> set (evs0 @ evs)" using assms(5) f(2) by simp
  ultimately show ?thesis
    unfolding framed_def using f(4) [unfolded up]
    by (intro exI [of _ "pre0 @ pre"] exI [of _ rest] exI [of _ "evs0 @ evs"] exI [of _ tail] conjI) auto
qed

lemma event_out_inner: "event_out fs tv (st\<lparr>ss_inner := xs\<rparr>) = event_out fs tv st"
  by (rule ext) (simp add: event_out_def transform_event_def)

lemma framed_inner: "framed fs tv (st\<lparr>ss_inner := xs\<rparr>) = framed fs tv st"
  unfolding framed_def event_out_inner by (intro ext) simp

lemma framed_end:
  assumes "ss_done st'" and "items = map Data pre @ rest"
    and "outs = [] \<or> outs = [transform_response fs tv (ss_upstream st) (ss_buf st @ concat pre) (ss_model_name st)]"
  shows "framed fs tv st items outs st'"
  unfolding framed_def
  by (intro exI [of _ pre] exI [of _ rest] exI [of _ "[]"] exI [of _ "ss_buf st @ concat pre"])
    (use assms in auto)

lemma run_framed:
  "sse_run fs tv turns st log = (ps, st', log') \<Longrightarrow> sse_inv st \<Longrightarrow> \<not> ss_done st \<Longrightarrow>
     framed fs tv st (ss_inner st @ arrivals turns) (outputs ps) st'"
proof (induction turns arbitrary: st ps log)
  case Nil
  then show ?case
    unfolding framed_def
    by (intro exI [of _ "[]"] exI [of _ "ss_inner st"] exI [of _ "ss_buf st"]) (auto simp: arrivals_def)
next
  case (Cons turn turns)
  obtain now c items where turn: "turn = (now, c, items)" by (cases turn)
  let ?st = "st\<lparr>ss_inner := ss_inner st @ items\<rparr>"
  obtain p st1 log1 ps1 where "poll_next fs tv now c ?st log = (p, st1, log1)"
    and r: "sse_run fs tv turns st1 log1 = (ps1, st', log')" "ps = p # ps1"
      "outcome fs tv ?st log (p, st1, log1)"
    by (rule turn_cases [OF Cons.prems(1) [unfolded turn] Cons.prems(2,3)])
  have arr: "ss_inner st @ arrivals (turn # turns) = ss_inner ?st @ arrivals turns"
    by (simp add: arrivals_def turn)
  from r(3) show ?case
  proof (cases rule: outcome_cases)
    case finished
    then have "outputs ps = []" "ss_done st'" using run_done [OF finished(2) r(1)] r(2) by auto
    then show ?thesis by (intro framed_end [where pre = "[]"]) simp_all
  next
    case (left pre rest)
    then have "outputs ps = [transform_response fs tv (ss_upstream st) (ss_buf st @ concat pre) (ss_model_name st)]"
        "ss_done st'" using run_done [OF left(2) r(1)] r(2) by auto
    then show ?thesis
      unfolding arr using left(4)
      by (intro framed_end [where pre = pre and rest = "rest @ arrivals turns"]) simp_all
  next
    case (event pre e)
    have "framed fs tv ?st (ss_inner ?st @ arrivals turns) (map (event_out fs tv ?st) [e] @ outputs ps1) st'"
      by (rule framed_step [OF Cons.IH [OF r(1) event(3,2)] event(1), where ?pre0.0 = pre])
        (use event(4-6) in \<open>auto simp: received_def\<close>)
    then show ?thesis unfolding arr framed_inner r(2) event(8) by simp
  next
    case (waiting pre)
    have "framed fs tv ?st (ss_inner ?st @ arrivals turns) (map (event_out fs tv ?st) [] @ outputs ps1) st'"
      by (rule framed_step [OF Cons.IH [OF r(1) waiting(3,2)] waiting(1), where ?pre0.0 = pre])
        (use waiting(4-6) in \<open>auto simp: received_def\<close>)
    then show ?thesis unfolding arr framed_inner r(2) waiting(8) by simp
  qed
qed

section \<open>Coming to an end\<close>

lemma done_finalize [simp]: "ss_done (fst (snd (finalize_stream fs tv now st log)))"
  by (simp add: finalize_stream_def finalize_log_def record_ttfb_def Let_def)

lemma late_poll_ends:
  assumes "ss_max_duration st \<le> elapsed now (ss_start st)"
  shows "ss_done (fst (snd (poll_next fs tv now cancelled st log)))"
  using assms by (simp add: poll_next_def timeout_stream_def)

lemma late_run_ends:
  "sse_run fs tv turns st log = (ps, st', log') \<Longrightarrow> sse_inv st \<Longrightarrow>
     (now, cancelled, items) \<in> set turns \<Longrightarrow> ss_max_duration st \<le> elapsed now (ss_start st) \<Longrightarrow> ss_done st'"
proof (induction turns arbitrary: st ps log)
  case (Cons turn turns)
  obtain t c xs where turn: "turn = (t, c, xs)" by (cases turn)
  show ?case
  proof (cases "ss_done st")
    case True
    then show ?thesis using run_done Cons.prems(1) by blast
  next
    case False
    obtain p st1 log1 ps1 where n: "poll_next fs tv t c (st\<lparr>ss_inner := ss_inner st @ xs\<rparr>) log = (p, st1, log1)"
      and r: "sse_run fs tv turns st1 log1 = (ps1, st', log')" and "ps = p # ps1"
      and o: "outcome fs tv (st\<lparr>ss_inner := ss_inner st @ xs\<rparr>) log (p, st1, log1)"
      by (rule turn_cases [OF Cons.prems(1) [unfolded turn] Cons.prems(2) False])
    show ?thesis
    proof (cases "ss_done st1")
      case True
      then show ?thesis using run_done r by blast
    next
      case open1: False
      have "\<not> ss_max_duration st \<le> elapsed t (ss_start st)"
        using late_poll_ends [of "st\<lparr>ss_inner := ss_inner st @ xs\<rparr>" t fs tv c log] n open1 by auto
      then have "(now, cancelled, items) \<in> set turns" using Cons.prems(3,4) turn by auto
      moreover have "sse_inv st1" "same_cfg st st1"
        using o open1 by (auto simp: outcome_def same_cfg_inner)
      ultimately show ?thesis using Cons.IH [OF r] Cons.prems(4) by (simp add: same_cfg_def)
    qed
  qed
qed simp

section \<open>Properties\<close>

definition demo_event :: proxy_event where
  "demo_event = \<lparr>pe_timestamp = 0, pe_request_id = ''r'', pe_api_key_name = None, pe_model_name = ''gpt'',
     pe_provider_name = ''local'', pe_prompt_tokens = Some 7, pe_completion_tokens = None,
     pe_total_tokens = None, pe_cached_tokens = None, pe_latency_ms = 0, pe_status = ''200'',
     pe_endpoint = ''chat'', pe_is_streaming = True, pe_ttft_ms = None, pe_upstream_model = ''llama3'',
     pe_provider_type = ''ollama'', pe_response_body_size = None, pe_error_message = None,
     pe_client_ip = None\<rparr>"

definition demo_stream :: sse_stream where
  "demo_stream = \<lparr>ss_inner = [], ss_buf = [], ss_scanned = 0, ss_upstream = demo_upstream,
     ss_model_name = ''gpt'', ss_user_tokens = None, ss_event = demo_event, ss_start = 0,
     ss_done = False, ss_idle_timeout = 10, ss_idle_deadline = 10, ss_max_duration = 100,
     ss_total_bytes = 0, ss_max_bytes = 1000\<rparr>"

lemma demo_stream_ok: "sse_inv demo_stream" "\<not> ss_done demo_stream"
  by (simp_all add: demo_stream_def sse_inv_def scan_ok_def)

text \<open>
  C11: A streamed answer leaves exactly one log entry: however often the stream is polled, whatever
  the upstream sends, whether it ends, breaks, times out, is cancelled, overflows or is dropped
  by the client, one entry has been written when it is gone. Once it has ended, polling it writes
  and yields nothing more.
\<close>

theorem sse_logs_once:
  assumes "sse_inv st" and "\<not> ss_done st" and "sse_run fs tv turns st log = (ps, st', log')"
  shows "(\<exists>e. sse_drop now st' log' = log @ [Proxy e])
    \<and> (ss_done st' \<longrightarrow> poll_next fs tv t cancelled st' log' = (Ready None, st', log'))"
  using run_inv [OF assms(3,1,2)] poll_done [of st']
  by (auto simp: sse_drop_def finalize_log_def log_proxy_def Let_def)

theorem sse_logs_once_witness:
  "\<exists>e. sse_drop 20 demo_stream [] = [Proxy e]"
  using sse_logs_once [OF demo_stream_ok, of tagged_decode tagged_encode "[]" "[]" "[]" demo_stream "[]" 20]
  by simp

text \<open>
  C10: No byte of a streamed answer is lost, repeated or reordered between events. What was received
  is cut into consecutive nonempty events; the outputs are their rewritings in order; and what
  the open stream still holds is the rest. When the stream has ended, at most one more output
  follows, the rewriting of what was left.
\<close>

theorem sse_framing_lossless:
  assumes "sse_inv st" and "\<not> ss_done st" and "sse_run fs tv turns st log = (ps, st', log')"
  shows "\<exists>pre rest evs tail. ss_inner st @ arrivals turns = map Data pre @ rest \<and> [] \<notin> set evs
      \<and> ss_buf st @ concat pre = concat evs @ tail
      \<and> (if ss_done st' then
           outputs ps = map (event_out fs tv st) evs
           \<or> outputs ps = map (event_out fs tv st) evs
               @ [transform_response fs tv (ss_upstream st) tail (ss_model_name st)]
         else outputs ps = map (event_out fs tv st) evs \<and> tail = ss_buf st' \<and> rest = ss_inner st')"
  using run_framed [OF assms(3,1,2)] unfolding framed_def .

theorem sse_framing_lossless_witness:
  "\<exists>pre rest evs tail. [Data ''data: a'', Data [CHR 0x0A, CHR 0x0A]] = map Data pre @ rest \<and> [] \<notin> set evs
      \<and> concat pre = concat evs @ tail
      \<and> [''data: a'' @ [CHR 0x0A, CHR 0x0A]] = map (event_out (\<lambda>_. None) (\<lambda>_. Inl []) demo_stream) evs"
proof -
  let ?turns = "[(1, False, [Data ''data: a'', Data [CHR 0x0A, CHR 0x0A]])]"
  let ?run = "sse_run (\<lambda>_. None) (\<lambda>_. Inl []) ?turns demo_stream []"
  have out: "outputs (fst ?run) = [''data: a'' @ [CHR 0x0A, CHR 0x0A]]" by code_simp
  have live: "\<not> ss_done (fst (snd ?run))" by code_simp
  obtain ps st' log' where r: "?run = (ps, st', log')" by (cases ?run)
  have "ss_inner demo_stream @ arrivals ?turns = [Data ''data: a'', Data [CHR 0x0A, CHR 0x0A]]"
      "ss_buf demo_stream = []"
    by (simp_all add: arrivals_def demo_stream_def)
  with sse_framing_lossless [OF demo_stream_ok r] out live show ?thesis
    unfolding r fst_conv snd_conv by (simp only: append_Nil if_False) metis
qed

text \<open>
  C12: Scanning only the new bytes for the end of an event finds what scanning the whole buffer
  finds, however the upstream's chunks cut the boundary; and an open stream never buffers more
  than the configured response size.
\<close>

theorem sse_incremental_scan:
  assumes "sse_inv st" and "\<not> ss_done st" and "sse_run fs tv turns st log = (ps, st', log')"
    and "\<not> ss_done st'"
  shows "fst (find_event_boundary st') = full_scan (ss_buf st')
    \<and> length (ss_buf st') \<le> ss_total_bytes st' \<and> ss_total_bytes st' \<le> ss_max_bytes st"
proof -
  have "sse_inv st'" "same_cfg st st'" using run_inv [OF assms(3,1,2)] assms(4) by simp_all
  then show ?thesis by (simp add: sse_inv_def boundary_is_full_scan same_cfg_def)
qed

theorem sse_incremental_scan_witness:
  "fst (find_event_boundary demo_stream) = full_scan []"
  using sse_incremental_scan [OF demo_stream_ok, of tagged_decode tagged_encode "[]" "[]" "[]" demo_stream "[]"]
    demo_stream_ok(2)
  by (simp add: demo_stream_def)



end
