(* ===== verification/Ssrf.thy ===== *)
theory Ssrf
  imports App
begin

text \<open>
  \<open>src/src/ssrf.rs\<close>: before a request leaves, the upstream's host is resolved, every address is
  checked against the address rules of \<open>Net_Addr\<close>, and the connection is pinned to the
  addresses that passed. The resolver (\<open>tokio::net::lookup_host\<close>) is the argument \<open>dns\<close>, what
  it answers at that moment; whether the HTTP client can be built is the argument \<open>built\<close>.
\<close>

type_synonym resolver = "string \<Rightarrow> string + ip_addr list"

datatype ssrf_deny = NoHost | DnsFailed string | Blocked

section \<open>Resolving and checking\<close>

definition bare_host :: "string \<Rightarrow> string" where
  "bare_host h = trim_end_char (CHR '']'') (trim_start_char (CHR ''['') h)"

definition resolve_with_cache ::
    "run_env \<Rightarrow> resolver \<Rightarrow> string \<Rightarrow> app_state \<Rightarrow> string + ip_addr list" where
  "resolve_with_cache env dns host s =
     (let look = map_err (\<lambda>e. ''DNS lookup failed: '' @ e) (dns host)
      in case dm_get (ssrf_dns_cache s) host of
           Some (ips, t) \<Rightarrow> if elapsed (re_clk env) t < cache_ttl then Inr ips else look
         | None \<Rightarrow> look)"

definition resolve_and_check ::
    "run_env \<Rightarrow> resolver \<Rightarrow> url \<Rightarrow> string list \<Rightarrow> app_state
      \<Rightarrow> (ssrf_deny + ip_addr list) \<times> app_state" where
  "resolve_and_check env dns url cidrs s = (case url_host url of
     None \<Rightarrow> (Inl NoHost, s)
   | Some h \<Rightarrow>
       (case resolve_with_cache env dns (bare_host h) s of
          Inl e \<Rightarrow> (Inl (DnsFailed e), s)
        | Inr ips \<Rightarrow>
            if list_ex (\<lambda>ip. \<not> is_allowed ip cidrs) ips then (Inl Blocked, s)
            else (Inr ips, s\<lparr>ssrf_dns_cache :=
                   dm_insert (bare_host h) (ips, re_clk env) (ssrf_dns_cache s)\<rparr>)))"

definition opaque_error :: "run_env \<Rightarrow> http_error" where
  "opaque_error env = into_response (re_rid env) (upstream_error 502 ''upstream request failed'')"

definition check_ssrf ::
    "run_env \<Rightarrow> resolver \<Rightarrow> url \<Rightarrow> string list \<Rightarrow> app_state
      \<Rightarrow> (http_error + ip_addr list) \<times> app_state" where
  "check_ssrf env dns url cidrs s =
     (case resolve_and_check env dns url cidrs s of
        (r, s') \<Rightarrow> (map_err (\<lambda>_. opaque_error env) r, s'))"

definition check_ssrf_config ::
    "run_env \<Rightarrow> resolver \<Rightarrow> url \<Rightarrow> string list \<Rightarrow> app_state \<Rightarrow> (ait_error + unit) \<times> app_state" where
  "check_ssrf_config env dns url cidrs s =
     (case resolve_and_check env dns url cidrs s of
        (Inr _, s') \<Rightarrow> (Inr (), s')
      | (Inl NoHost, s') \<Rightarrow> (Inl (bad_request ''base_url must include a host''), s')
      | (Inl (DnsFailed _), s') \<Rightarrow> (Inl (bad_request ''base_url host could not be resolved''), s')
      | (Inl Blocked, s') \<Rightarrow> (Inl (bad_request ''base_url resolves to a blocked address''), s'))"

section \<open>Pinning\<close>

definition pin_key :: "string \<Rightarrow> nat \<Rightarrow> ip_addr list \<Rightarrow> string" where
  "pin_key host port ips =
     host @ '':'' @ show_nat port @ '':'' @ join_with '','' (map show_ip (sort ips))"

definition pinned_client ::
    "run_env \<Rightarrow> bool \<Rightarrow> url \<Rightarrow> ip_addr list \<Rightarrow> app_state \<Rightarrow> (http_error + pinned) \<times> app_state" where
  "pinned_client env built url verified_ips s = (case url_host url of
     None \<Rightarrow> (Inl (opaque_error env), s)
   | Some h \<Rightarrow>
       (let port = (case url_port url of Some p \<Rightarrow> p | None \<Rightarrow> 80);
            host = bare_host h;
            key = pin_key host port verified_ips;
            cached = (case dm_get (pinned_clients s) key of
              Some (client, t) \<Rightarrow> if elapsed (re_clk env) t < cache_ttl then Some client else None
            | None \<Rightarrow> None)
        in case cached of
             Some client \<Rightarrow> (Inr client, s)
           | None \<Rightarrow>
               if verified_ips = [] then (Inl (opaque_error env), s)
               else if \<not> built then (Inl (opaque_error env), s)
               else
                 (let client = \<lparr>pin_host = host, pin_addrs = map (\<lambda>ip. (ip, port)) verified_ips\<rparr>
                  in (Inr client, s\<lparr>pinned_clients :=
                        dm_insert key (client, re_clk env) (pinned_clients s)\<rparr>))))"

section \<open>The key of a pinned client\<close>

lemma split_on_join:
  "xs \<noteq> [] \<Longrightarrow> \<forall>x \<in> set xs. c \<notin> set x \<Longrightarrow> split_on c (join_with [c] xs) = xs"
proof (induction xs)
  case (Cons s ss)
  have one: "split_on c s = [s]" if "c \<notin> set s" for s
    using that by (induction s) auto
  show ?case
  proof (cases ss)
    case Nil
    with Cons.prems one show ?thesis by simp
  next
    case (Cons s' ss')
    have "split_on c (s @ c # join_with [c] ss) = split_on c s @ split_on c (join_with [c] ss)"
      by (rule split_on_append)
    then show ?thesis using Cons Cons.IH Cons.prems one by simp
  qed
qed simp

lemma digit_chars: "2 \<le> r \<Longrightarrow> r \<le> 36 \<Longrightarrow> c \<in> set (digits r n) \<Longrightarrow> c \<noteq> CHR '','' \<and> c \<noteq> CHR '':''"
  using digits_are_digits [of r c n]
  by (auto simp: digit_val_def is_digit_def byte_def Let_def split: if_splits)

lemma set_join_with: "set (join_with sep xs) \<subseteq> set sep \<union> (\<Union>x \<in> set xs. set x)"
  by (induction sep xs rule: join_with.induct) auto

lemma show_ipv4_no_comma: "CHR '','' \<notin> set (show_ipv4 ip)"
  using set_join_with [of "''.''" "map show_nat (octets ip)"] digit_chars [of 10]
  by (fastforce simp: show_ipv4_def show_nat_def)

lemma fmt_no_comma: "CHR '','' \<notin> set (join_with '':'' (map (digits 16) gs))"
  using set_join_with [of "'':''" "map (digits 16) gs"] digit_chars [of 16] by fastforce

lemma show_ip_no_comma: "CHR '','' \<notin> set (show_ip ip)"
  by (cases ip) (auto simp: show_ipv4_no_comma show_ipv6_def fmt_no_comma Let_def split: prod.splits)

lemma show_nat_inj: "show_nat m = show_nat n \<Longrightarrow> m = n"
proof -
  assume "show_nat m = show_nat n"
  then have "digits_val 10 0 (digits 10 m) = digits_val 10 0 (digits 10 n)"
    by (simp add: show_nat_def)
  then show "m = n" by (simp add: digits_val_digits)
qed

lemma append_sep_eq:
  "c \<notin> set a \<Longrightarrow> c \<notin> set b \<Longrightarrow> a @ c # x = b @ c # y \<Longrightarrow> a = b \<and> x = y"
proof (induction a arbitrary: b)
  case Nil
  then show ?case by (cases b) auto
next
  case (Cons z a)
  then show ?case by (cases b) auto
qed

lemma pin_key_inj:
  assumes "pin_key h p ips = pin_key h' p' ips'" and "CHR '':'' \<notin> set h" and "CHR '':'' \<notin> set h'"
    and "ips \<noteq> []" and "ips' \<noteq> []"
  shows "h = h' \<and> p = p' \<and> map show_ip (sort ips) = map show_ip (sort ips')"
proof -
  let ?j = "\<lambda>ips. join_with '','' (map show_ip (sort ips))"
  have 1: "h = h' \<and> show_nat p @ '':'' @ ?j ips = show_nat p' @ '':'' @ ?j ips'"
    using assms(1-3) append_sep_eq by (simp add: pin_key_def)
  have no: "CHR '':'' \<notin> set (show_nat n)" for n
    using digit_chars [of 10] by (auto simp: show_nat_def)
  have 2: "show_nat p = show_nat p' \<and> ?j ips = ?j ips'"
  proof -
    from 1 have "show_nat p @ CHR '':'' # ?j ips = show_nat p' @ CHR '':'' # ?j ips'" by simp
    then show ?thesis by (rule append_sep_eq [OF no no])
  qed
  have sp: "split_on (CHR '','') (?j xs) = map show_ip (sort xs)" if "xs \<noteq> []" for xs
  proof -
    have "sort xs \<noteq> []" using that by (metis length_0_conv length_sort)
    then show ?thesis using show_ip_no_comma by (intro split_on_join) auto
  qed
  show ?thesis using 1 2 show_nat_inj sp [OF assms(4)] sp [OF assms(5)] by metis
qed

section \<open>What a check and a pin guarantee\<close>

lemma resolve_and_check_Inr:
  "resolve_and_check env dns url cidrs s = (Inr ips, s') \<Longrightarrow>
     (\<forall>ip \<in> set ips. is_allowed ip cidrs) \<and> (\<exists>h. url_host url = Some h)"
  by (auto simp: resolve_and_check_def list_ex_iff split: option.splits sum.splits if_splits)

lemma resolve_and_check_frame:
  "resolve_and_check env dns url cidrs s = (r, s') \<Longrightarrow>
     \<exists>c. s' = s\<lparr>ssrf_dns_cache := c\<rparr> \<and> ((\<exists>e. r = Inl e) \<longrightarrow> s' = s)"
proof -
  assume "resolve_and_check env dns url cidrs s = (r, s')"
  moreover have "\<exists>c. x = x\<lparr>ssrf_dns_cache := c\<rparr>" for x :: app_state
    by (rule exI [of _ "ssrf_dns_cache x"]) simp
  ultimately show ?thesis
    unfolding resolve_and_check_def by (auto split: option.splits sum.splits if_splits)
qed

text \<open>Every cached client is pinned to the addresses its key names.\<close>

definition pinned_ok :: "app_state \<Rightarrow> bool" where
  "pinned_ok s \<longleftrightarrow> (\<forall>key client t. dm_get (pinned_clients s) key = Some (client, t) \<longrightarrow>
     CHR '':'' \<notin> set (pin_host client)
     \<and> (\<exists>ips port. ips \<noteq> [] \<and> pin_addrs client = map (\<lambda>ip. (ip, port)) ips
          \<and> key = pin_key (pin_host client) port ips))"

lemma pinned_client_ok:
  assumes "pinned_ok s" and "pinned_client env built url ips s = (Inr client, s')"
    and "url_host url = Some h" and "CHR '':'' \<notin> set (bare_host h)" and "ips \<noteq> []"
  shows "pinned_ok s' \<and> pin_host client = bare_host h
    \<and> (\<exists>ips'. pin_addrs client = map (\<lambda>ip. (ip, case url_port url of Some p \<Rightarrow> p | None \<Rightarrow> 80)) ips'
         \<and> map show_ip (sort ips') = map show_ip (sort ips))"
proof -
  let ?port = "case url_port url of Some p \<Rightarrow> p | None \<Rightarrow> 80"
  let ?key = "pin_key (bare_host h) ?port ips"
  consider (hit) t where "dm_get (pinned_clients s) ?key = Some (client, t)" "s' = s"
    | (miss) "client = \<lparr>pin_host = bare_host h, pin_addrs = map (\<lambda>ip. (ip, ?port)) ips\<rparr>"
        "s' = s\<lparr>pinned_clients := dm_insert ?key (client, re_clk env) (pinned_clients s)\<rparr>"
  proof (cases "\<exists>c t. dm_get (pinned_clients s) ?key = Some (c, t) \<and> elapsed (re_clk env) t < cache_ttl")
    case True
    then obtain c t where c: "dm_get (pinned_clients s) ?key = Some (c, t)"
        "elapsed (re_clk env) t < cache_ttl" by blast
    then have "c = client" "s' = s" using assms(2,3) by (simp_all add: pinned_client_def Let_def)
    with c(1) hit show ?thesis by blast
  next
    case False
    then have "(case dm_get (pinned_clients s) ?key of
        Some (client, t) \<Rightarrow> if elapsed (re_clk env) t < cache_ttl then Some client else None
      | None \<Rightarrow> None) = None"
      by (simp split: option.split)
    then have "built \<and> (client, s') =
        (\<lparr>pin_host = bare_host h, pin_addrs = map (\<lambda>ip. (ip, ?port)) ips\<rparr>,
         s\<lparr>pinned_clients := dm_insert ?key (\<lparr>pin_host = bare_host h,
            pin_addrs = map (\<lambda>ip. (ip, ?port)) ips\<rparr>, re_clk env) (pinned_clients s)\<rparr>)"
      using assms(2,3,5) by (auto simp: pinned_client_def Let_def split: if_splits)
    then show ?thesis using miss by simp
  qed
  then show ?thesis
  proof cases
    case hit
    then obtain ips' port' where e: "CHR '':'' \<notin> set (pin_host client)" "ips' \<noteq> []"
        "pin_addrs client = map (\<lambda>ip. (ip, port')) ips'" "?key = pin_key (pin_host client) port' ips'"
      using assms(1) unfolding pinned_ok_def by blast
    have "bare_host h = pin_host client \<and> ?port = port' \<and> map show_ip (sort ips) = map show_ip (sort ips')"
      by (rule pin_key_inj [OF e(4) assms(4) e(1) assms(5) e(2)])
    with e(3) hit(2) assms(1) show ?thesis by metis
  next
    case miss
    have "pinned_ok s'"
      unfolding pinned_ok_def
    proof (intro allI impI)
      fix key c t assume g: "dm_get (pinned_clients s') key = Some (c, t)"
      show "CHR '':'' \<notin> set (pin_host c) \<and> (\<exists>ips port. ips \<noteq> []
          \<and> pin_addrs c = map (\<lambda>ip. (ip, port)) ips \<and> key = pin_key (pin_host c) port ips)"
      proof (cases "key = ?key")
        case True
        then have "c = client" using g by (simp add: miss(2) dash_simps)
        with True miss(1) assms(4,5) show ?thesis by auto
      next
        case False
        then have "dm_get (pinned_clients s) key = Some (c, t)"
          using g by (simp add: miss(2) dash_simps)
        with assms(1) show ?thesis unfolding pinned_ok_def by blast
      qed
    qed
    with miss(1) show ?thesis by auto
  qed
qed

section \<open>Properties\<close>



text \<open>
  C7: A refused address fails closed and is not remembered: nothing is cached, the proxy path
  answers an opaque 502 whatever the reason, and the admin path answers a 400.
\<close>

theorem ssrf_denied_fails_closed:
  "(case check_ssrf env dns url cidrs s of
      (Inl e, s') \<Rightarrow> s' = s \<and> e = opaque_error env \<and> fst e = 502
    | (Inr ips, s') \<Rightarrow> list_all (\<lambda>ip. is_allowed ip cidrs) ips)
   \<and> (case check_ssrf_config env dns url cidrs s of
      (Inl e, s') \<Rightarrow> s' = s \<and> err_code e = 400
    | (Inr _, s') \<Rightarrow> \<exists>h ips. url_host url = Some h
        \<and> dm_get (ssrf_dns_cache s') (bare_host h) = Some (ips, re_clk env)
        \<and> (list_all (\<lambda>ip. is_allowed ip cidrs) ips))"
proof -
  have cfg: "case check_ssrf_config env dns url cidrs s of
      (Inl e, s') \<Rightarrow> s' = s \<and> err_code e = 400
    | (Inr _, s') \<Rightarrow> \<exists>h ips. url_host url = Some h
        \<and> dm_get (ssrf_dns_cache s') (bare_host h) = Some (ips, re_clk env)
        \<and> (list_all (\<lambda>ip. is_allowed ip cidrs) ips)"
    unfolding check_ssrf_config_def resolve_and_check_def
    by (auto simp: error_defs list_ex_iff list_all_iff dash_simps split: option.splits sum.splits)
  obtain r s' where r: "resolve_and_check env dns url cidrs s = (r, s')"
    by (cases "resolve_and_check env dns url cidrs s")
  have "case check_ssrf env dns url cidrs s of
      (Inl e, s') \<Rightarrow> s' = s \<and> e = opaque_error env \<and> fst e = 502
    | (Inr ips, s') \<Rightarrow> list_all (\<lambda>ip. is_allowed ip cidrs) ips"
  proof (cases r)
    case (Inl d)
    then show ?thesis
      using resolve_and_check_frame [OF r] r
      by (simp add: check_ssrf_def opaque_error_def error_defs)
  next
    case (Inr ips)
    then show ?thesis using resolve_and_check_Inr r by (simp add: check_ssrf_def list_all_iff)
  qed
  with cfg show ?thesis by blast
qed

end
