(* ===== verification/Admin.thy ===== *)
theory Admin
  imports Ssrf
begin

text \<open>
  The admin API, \<open>src/src/handlers/{providers,models,apikeys}.rs\<close>, and the cached resolution of
  models on the proxy path, \<open>src/src/handlers/proxy/resolve.rs\<close>. A handler takes what the
  environment decides (\<open>env\<close>, and \<open>dns\<close>, \<open>parse\<close> and \<open>alnum\<close> where it resolves or parses a
  URL), the request id, the input and the state, and gives the response and the state after
  it. Bodies are already deserialised. Each handler is one step here; what interleaving adds is
  in \<open>Auth_Race\<close>.
\<close>

section \<open>Shared pieces\<close>

text \<open>\<open>.map_err(internal_error)?.map_err(|e| AitError::from_db_error(e).into_response())\<close>\<close>

definition db_or_http :: "run_env \<Rightarrow> blocking_error + (db_error + 'a) \<Rightarrow> http_error + 'a" where
  "db_or_http env r = (case r of
     Inl _ \<Rightarrow> Inl (internal_error (re_rid env))
   | Inr (Inl e) \<Rightarrow> Inl (into_response (re_rid env) (from_db_error e))
   | Inr (Inr a) \<Rightarrow> Inr a)"

definition db_or_internal :: "run_env \<Rightarrow> blocking_error + (db_error + 'a) \<Rightarrow> http_error + 'a" where
  "db_or_internal env r = (case r of
     Inr (Inr a) \<Rightarrow> Inr a | _ \<Rightarrow> Inl (internal_error (re_rid env)))"

definition audit_log :: "run_env \<Rightarrow> string \<Rightarrow> string \<Rightarrow> string \<Rightarrow> string \<Rightarrow> app_state \<Rightarrow> app_state" where
  "audit_log env req_id action resource res_id s =
     send_log (Audit \<lparr>au_timestamp = re_utc env, au_request_id = req_id, au_action = action,
       au_resource = resource, au_resource_id = res_id, au_detail = None\<rparr>) s"

definition http_err :: "run_env \<Rightarrow> ait_error + 'a \<Rightarrow> http_error + 'a" where
  "http_err env r = map_err (into_response (re_rid env)) r"

section \<open>Resolving a model\<close>

definition unknown_model :: "run_env \<Rightarrow> string \<Rightarrow> http_error" where
  "unknown_model env name =
     not_found (re_rid env) (''Model '' @ quoted name @ '' not found or disabled'')"

definition resolve_model_and_provider ::
    "run_env \<Rightarrow> string \<Rightarrow> app_state \<Rightarrow> (http_error + model \<times> provider) \<times> app_state" where
  "resolve_model_and_provider env name s =
     (if (case dm_get (negative_model_cache s) name of
            Some seen \<Rightarrow> elapsed (re_clk env) seen < negative_cache_ttl | None \<Rightarrow> False)
      then (Inl (unknown_model env name), s)
      else (case (case dm_get (model_cache s) name of
                    Some (found, t) \<Rightarrow> if elapsed (re_clk env) t < cache_ttl then Some found else None
                  | None \<Rightarrow> None) of
         Some found \<Rightarrow>
           (Inr found, s\<lparr>model_cache := dm_insert name (found, re_clk env) (model_cache s)\<rparr>)
       | None \<Rightarrow>
           (case run_db_read env (resolve_model (re_db env) name) s of
              Inr (Inr (Some (m, p))) \<Rightarrow>
                (Inr (m, p),
                 s\<lparr>provider_cache := insert_capped snd (prov_id p) (create_provider p, re_clk env)
                      (cache_cap s) (provider_cache s),
                   model_cache := insert_capped snd name ((m, p), re_clk env)
                      (cache_cap s) (model_cache s)\<rparr>)
            | Inr (Inr None) \<Rightarrow>
                (Inl (unknown_model env name),
                 s\<lparr>negative_model_cache := insert_capped id name (re_clk env)
                      (cache_cap s) (negative_model_cache s)\<rparr>)
            | Inr (Inl e) \<Rightarrow> (Inl (into_response (re_rid env) (from_db_error e)), s)
            | Inl _ \<Rightarrow> (Inl (internal_error (re_rid env)), s))))"

definition cached_upstream :: "run_env \<Rightarrow> provider \<Rightarrow> app_state \<Rightarrow> upstream \<times> app_state" where
  "cached_upstream env provider s =
     (case (case dm_get (provider_cache s) (prov_id provider) of
              Some (up, t) \<Rightarrow> if elapsed (re_clk env) t < cache_ttl then Some up else None
            | None \<Rightarrow> None) of
        Some up \<Rightarrow>
          (up, s\<lparr>provider_cache := dm_insert (prov_id provider) (up, re_clk env) (provider_cache s)\<rparr>)
      | None \<Rightarrow>
          (let up = create_provider provider
           in (up, s\<lparr>provider_cache := insert_capped snd (prov_id provider) (up, re_clk env)
                    (cache_cap s) (provider_cache s)\<rparr>)))"

section \<open>Models\<close>

record create_model_request =
  cm_name :: string
  cm_provider_id :: string
  cm_upstream_model :: string
  cm_enabled :: bool

record update_model_request =
  um_provider_id :: "string option"
  um_upstream_model :: "string option"
  um_enabled :: "bool option"

record model_response =
  mresp_id :: string
  mresp_name :: string
  mresp_provider_id :: string
  mresp_upstream_model :: string
  mresp_enabled :: bool
  mresp_created_at :: int
  mresp_updated_at :: int

definition model_response_from :: "model \<Rightarrow> model_response" where
  "model_response_from m =
     \<lparr>mresp_id = model_id m, mresp_name = model_name m, mresp_provider_id = model_provider_id m,
      mresp_upstream_model = model_upstream m, mresp_enabled = model_enabled m,
      mresp_created_at = timestamp (model_created_at m),
      mresp_updated_at = timestamp (model_updated_at m)\<rparr>"

definition handle_create_model ::
    "run_env \<Rightarrow> string \<Rightarrow> create_model_request \<Rightarrow> app_state
      \<Rightarrow> (http_error + nat \<times> model_response) \<times> app_state" where
  "handle_create_model env req_id input s =
     (case http_err env
        (and_then (validate_string (cm_name input) ''name'' 128 model_name_chars) (\<lambda>name.
         and_then (validate_string (cm_provider_id input) ''provider_id'' 40 uuid_chars) (\<lambda>pid.
         and_then (validate_string (cm_upstream_model input) ''upstream_model'' 128
                    upstream_model_chars) (\<lambda>up.
         Inr \<lparr>model_id = [], model_name = name, model_provider_id = pid, model_upstream = up,
              model_enabled = cm_enabled input, model_created_at = unix_epoch,
              model_updated_at = unix_epoch\<rparr>)))) of
        Inl e \<Rightarrow> (Inl e, s)
      | Inr model \<Rightarrow>
          (case run_db_write env (insert_model (re_db env) model) s of
             (r, s1) \<Rightarrow>
               (case db_or_http env r of
                  Inl e \<Rightarrow> (Inl e, s1)
                | Inr inserted \<Rightarrow>
                    (Inr (201, model_response_from inserted),
                     audit_log env req_id ''create'' ''model'' (model_name inserted)
                       (s1\<lparr>negative_model_cache :=
                             dm_remove (model_name inserted) (negative_model_cache s1)\<rparr>)))))"

definition handle_list_models :: "run_env \<Rightarrow> app_state \<Rightarrow> http_error + model_response list" where
  "handle_list_models env s =
     and_then (db_or_http env (run_db_read env (list_models (re_db env)) s))
       (\<lambda>ms. Inr (map model_response_from ms))"

definition handle_get_model :: "run_env \<Rightarrow> string \<Rightarrow> app_state \<Rightarrow> http_error + model_response" where
  "handle_get_model env name s =
     and_then (db_or_http env (run_db_read env (get_model (re_db env) name) s)) (\<lambda>found.
     and_then (ok_or (not_found (re_rid env) (''Model '' @ quoted name @ '' not found'')) found)
       (\<lambda>m. Inr (model_response_from m)))"

definition handle_delete_model ::
    "run_env \<Rightarrow> string \<Rightarrow> string \<Rightarrow> app_state \<Rightarrow> (http_error + nat) \<times> app_state" where
  "handle_delete_model env req_id name s =
     (case run_db_write env (delete_model (re_db env) name) s of
        (r, s1) \<Rightarrow>
          (case db_or_http env r of
             Inl e \<Rightarrow> (Inl e, s1)
           | Inr gone \<Rightarrow>
               if \<not> gone then
                 (Inl (not_found (re_rid env) (''Model '' @ quoted name @ '' not found'')), s1)
               else (Inr 204, audit_log env req_id ''delete'' ''model'' name
                      (s1\<lparr>model_cache := dm_remove name (model_cache s1)\<rparr>))))"

definition handle_update_model ::
    "run_env \<Rightarrow> string \<Rightarrow> string \<Rightarrow> update_model_request \<Rightarrow> app_state
      \<Rightarrow> (http_error + model_response) \<times> app_state" where
  "handle_update_model env req_id name input s =
     (case http_err env
        (and_then (validate_string name ''name'' 128 model_name_chars) (\<lambda>n.
         and_then (map_transpose (\<lambda>v. validate_string v ''provider_id'' 40 uuid_chars)
                    (um_provider_id input)) (\<lambda>pid.
         and_then (map_transpose (\<lambda>v. validate_string v ''upstream_model'' 128 upstream_model_chars)
                    (um_upstream_model input)) (\<lambda>up.
         Inr \<lparr>mu_name = n, mu_provider_id = pid, mu_upstream = up,
              mu_enabled = um_enabled input\<rparr>)))) of
        Inl e \<Rightarrow> (Inl e, s)
      | Inr updates \<Rightarrow>
          (case run_db_write env (update_model (re_db env) updates) s of
             (r, s1) \<Rightarrow>
               (case db_or_http env r of
                  Inl e \<Rightarrow> (Inl e, s1)
                | Inr model \<Rightarrow>
                    (Inr (model_response_from model),
                     audit_log env req_id ''update'' ''model'' (mu_name updates)
                       (s1\<lparr>model_cache := dm_remove (mu_name updates) (model_cache s1),
                           negative_model_cache :=
                             dm_remove (mu_name updates) (negative_model_cache s1)\<rparr>)))))"

section \<open>Providers\<close>

record create_provider_request =
  cp_name :: string
  cp_type :: provider_type
  cp_base_url :: string
  cp_api_key :: "string option"
  cp_enabled :: bool

record update_provider_request =
  up_name :: "string option"
  up_type :: "provider_type option"
  up_base_url :: "string option"
  up_api_key :: "string option"
  up_enabled :: "bool option"

record provider_response =
  presp_id :: string
  presp_name :: string
  presp_type :: provider_type
  presp_base_url :: string
  presp_api_key :: "string option"
  presp_enabled :: bool
  presp_created_at :: int
  presp_updated_at :: int

definition provider_response_from :: "provider \<Rightarrow> provider_response" where
  "provider_response_from p =
     \<lparr>presp_id = prov_id p, presp_name = prov_name p, presp_type = prov_type p,
      presp_base_url = prov_base_url p, presp_api_key = map_option mask_api_key (prov_api_key p),
      presp_enabled = prov_enabled p, presp_created_at = timestamp (prov_created_at p),
      presp_updated_at = timestamp (prov_updated_at p)\<rparr>"

text \<open>The base URL of a request: a string of at most 1024 bytes, then a URL.\<close>

definition checked_base_url ::
    "(string \<Rightarrow> bool) \<Rightarrow> url_parse \<Rightarrow> string \<Rightarrow> ait_error + url" where
  "checked_base_url alnum parse u =
     and_then (validate_string u ''base_url'' 1024 (\<lambda>_. True)) (validate_base_url alnum parse)"

definition handle_create_provider ::
    "run_env \<Rightarrow> resolver \<Rightarrow> (string \<Rightarrow> bool) \<Rightarrow> url_parse \<Rightarrow> string \<Rightarrow> create_provider_request
      \<Rightarrow> app_state \<Rightarrow> (http_error + nat \<times> provider_response) \<times> app_state" where
  "handle_create_provider env dns alnum parse req_id input s =
     (case http_err env
        (and_then (validate_string (cp_name input) ''name'' 128 ident_chars) (\<lambda>name.
         and_then (checked_base_url alnum parse (cp_base_url input)) (\<lambda>url. Inr (name, url)))) of
        Inl e \<Rightarrow> (Inl e, s)
      | Inr (name, parsed_url) \<Rightarrow>
          (case check_ssrf_config env dns parsed_url (ssrf_allowed_cidrs (security (config s))) s of
             (Inl e, s1) \<Rightarrow> (Inl (into_response (re_rid env) e), s1)
           | (Inr _, s1) \<Rightarrow>
               (let key = Option.bind (cp_api_key input)
                      (\<lambda>k. if trim k = [] then None else Some (trim k))
                in if (case key of Some k \<Rightarrow> length k > 512 | None \<Rightarrow> False) then
                     (Inl (into_response (re_rid env)
                        (bad_request ''api_key must not exceed 512 characters'')), s1)
                   else
                     (case run_db_write env (insert_provider (re_db env)
                        \<lparr>prov_id = [], prov_name = name, prov_type = cp_type input,
                         prov_base_url = url_text parsed_url, prov_api_key = key,
                         prov_enabled = cp_enabled input, prov_created_at = unix_epoch,
                         prov_updated_at = unix_epoch\<rparr>) s1 of
                        (r, s2) \<Rightarrow>
                          (case db_or_http env r of
                             Inl e \<Rightarrow> (Inl e, s2)
                           | Inr inserted \<Rightarrow>
                               (Inr (201, provider_response_from inserted),
                                audit_log env req_id ''create'' ''provider'' (prov_id inserted) s2))))))"

definition handle_list_providers :: "run_env \<Rightarrow> app_state \<Rightarrow> http_error + provider_response list" where
  "handle_list_providers env s =
     and_then (db_or_http env (run_db_read env (list_providers (re_db env)) s))
       (\<lambda>ps. Inr (map provider_response_from ps))"

definition handle_get_provider :: "run_env \<Rightarrow> string \<Rightarrow> app_state \<Rightarrow> http_error + provider_response" where
  "handle_get_provider env i s =
     and_then (db_or_http env (run_db_read env (get_provider (re_db env) i) s)) (\<lambda>found.
     and_then (ok_or (not_found (re_rid env) (''Provider '' @ quoted i @ '' not found'')) found)
       (\<lambda>p. Inr (provider_response_from p)))"

text \<open>The \<open>api_key\<close> of an update: \<open>Some []\<close> clears the stored key.\<close>

definition update_api_key_field :: "string option \<Rightarrow> ait_error + string option" where
  "update_api_key_field k = (case k of
     None \<Rightarrow> Inr None
   | Some k \<Rightarrow>
       if trim k = [] then Inr (Some [])
       else if length (trim k) > 512 then
         Inl (bad_request ''api_key must not exceed 512 characters'')
       else Inr (Some (trim k)))"

text \<open>What a change of a provider drops from the caches.\<close>

definition forget_provider :: "string \<Rightarrow> app_state \<Rightarrow> app_state" where
  "forget_provider i s =
     s\<lparr>provider_cache := dm_remove i (provider_cache s),
       model_cache := dm_retain (\<lambda>_ v. prov_id (snd (fst v)) \<noteq> i) (model_cache s),
       negative_model_cache := [],
       pinned_clients := []\<rparr>"

definition handle_update_provider ::
    "run_env \<Rightarrow> resolver \<Rightarrow> (string \<Rightarrow> bool) \<Rightarrow> url_parse \<Rightarrow> string \<Rightarrow> string \<Rightarrow> update_provider_request
      \<Rightarrow> app_state \<Rightarrow> (http_error + provider_response) \<times> app_state" where
  "handle_update_provider env dns alnum parse req_id i input s =
     (case http_err env
        (and_then (map_transpose (\<lambda>n. validate_string n ''name'' 128 ident_chars) (up_name input)) (\<lambda>name.
         and_then (map_transpose (checked_base_url alnum parse) (up_base_url input)) (\<lambda>url.
         and_then (update_api_key_field (up_api_key input)) (\<lambda>key. Inr (name, url, key))))) of
        Inl e \<Rightarrow> (Inl e, s)
      | Inr (name, parsed_url, key) \<Rightarrow>
          (case (case parsed_url of
                   Some u \<Rightarrow> check_ssrf_config env dns u (ssrf_allowed_cidrs (security (config s))) s
                 | None \<Rightarrow> (Inr (), s)) of
             (Inl e, s1) \<Rightarrow> (Inl (into_response (re_rid env) e), s1)
           | (Inr _, s1) \<Rightarrow>
               (case run_db_write env (update_provider (re_db env)
                  \<lparr>pu_id = i, pu_name = name, pu_type = up_type input,
                   pu_base_url = map_option url_text parsed_url, pu_api_key = key,
                   pu_enabled = up_enabled input\<rparr>) s1 of
                  (r, s2) \<Rightarrow>
                    (case db_or_http env r of
                       Inl e \<Rightarrow> (Inl e, s2)
                     | Inr provider \<Rightarrow>
                         (Inr (provider_response_from provider),
                          audit_log env req_id ''update'' ''provider'' i (forget_provider i s2))))))"

definition handle_delete_provider ::
    "run_env \<Rightarrow> string \<Rightarrow> string \<Rightarrow> app_state \<Rightarrow> (http_error + nat) \<times> app_state" where
  "handle_delete_provider env req_id i s =
     (case run_db_write env (delete_provider (re_db env) i) s of
        (r, s1) \<Rightarrow>
          (case db_or_http env r of
             Inl e \<Rightarrow> (Inl e, s1)
           | Inr gone \<Rightarrow>
               if \<not> gone then
                 (Inl (not_found (re_rid env) (''Provider '' @ quoted i @ '' not found'')), s1)
               else (Inr 204, audit_log env req_id ''delete'' ''provider'' i (forget_provider i s1))))"

definition list_provider_types :: "json list" where
  "list_provider_types = map (\<lambda>t. Object
     [(''display_name'', String (type_message t)), (''type'', String (to_db t))]) all_provider_types"

section \<open>API keys\<close>

record api_key_response =
  kresp_id :: string
  kresp_key :: string
  kresp_name :: string
  kresp_created_at :: int
  kresp_updated_at :: int
  kresp_enabled :: bool
  kresp_expires_at :: "int option"

definition api_key_response_of :: "string \<Rightarrow> api_key \<Rightarrow> api_key_response" where
  "api_key_response_of shown k =
     \<lparr>kresp_id = key_id k, kresp_key = shown, kresp_name = key_name k,
      kresp_created_at = timestamp (key_created_at k), kresp_updated_at = timestamp (key_updated_at k),
      kresp_enabled = key_enabled k, kresp_expires_at = map_option timestamp (key_expires_at k)\<rparr>"

definition invalid_expiry :: "run_env \<Rightarrow> http_error" where
  "invalid_expiry env = into_response (re_rid env) (bad_request ''Invalid expires_at'')"

definition handle_create_api_key ::
    "run_env \<Rightarrow> string \<Rightarrow> string \<Rightarrow> int option \<Rightarrow> app_state
      \<Rightarrow> (http_error + nat \<times> api_key_response) \<times> app_state" where
  "handle_create_api_key env req_id name expires s =
     (case and_then
        (map_transpose (\<lambda>t. ok_or (invalid_expiry env) (env_from_ts (re_db env) t))
           (case expires of Some t \<Rightarrow> if t \<noteq> 0 then Some t else None | None \<Rightarrow> None)) (\<lambda>expires_at.
        and_then (http_err env (validate_string name ''name'' 128 ident_chars)) (\<lambda>n.
        Inr (n, expires_at))) of
        Inl e \<Rightarrow> (Inl e, s)
      | Inr (n, expires_at) \<Rightarrow>
          (case run_db_write env (insert_api_key (re_db env) n expires_at) s of
             (r, s1) \<Rightarrow>
               (case db_or_internal env r of
                  Inl e \<Rightarrow> (Inl e, s1)
                | Inr (stored, raw_key) \<Rightarrow>
                    (Inr (201, api_key_response_of raw_key stored),
                     audit_log env req_id ''create'' ''api_key'' (key_id stored) s1))))"

definition handle_list_api_keys :: "run_env \<Rightarrow> app_state \<Rightarrow> http_error + api_key_response list" where
  "handle_list_api_keys env s =
     and_then (db_or_internal env (run_db_read env (list_api_keys (re_db env)) s))
       (\<lambda>ks. Inr (map (\<lambda>k. api_key_response_of (masked k) k) ks))"

definition handle_delete_api_key ::
    "run_env \<Rightarrow> string \<Rightarrow> string \<Rightarrow> app_state \<Rightarrow> (http_error + nat) \<times> app_state" where
  "handle_delete_api_key env req_id kid s =
     (case run_db_write env (delete_api_key (re_db env) kid) s of
        (r, s1) \<Rightarrow>
          (case db_or_http env r of
             Inl e \<Rightarrow> (Inl e, s1)
           | Inr hash \<Rightarrow>
               (Inr 204, audit_log env req_id ''delete'' ''api_key'' kid
                  (s1\<lparr>api_key_cache := dm_remove hash (api_key_cache s1),
                      key_revision := key_revision s1 + 1\<rparr>))))"

definition update_expiry_field :: "run_env \<Rightarrow> int option \<Rightarrow> http_error + datetime option" where
  "update_expiry_field env e =
     map_transpose (\<lambda>t. if t = 0 then Inr unix_epoch
       else ok_or (invalid_expiry env) (env_from_ts (re_db env) t)) e"

definition update_name_field :: "run_env \<Rightarrow> string option \<Rightarrow> http_error + string option" where
  "update_name_field env n = (case n of
     None \<Rightarrow> Inr None
   | Some n \<Rightarrow>
       if trim n = [] then Inr None
       else http_err env (map_transpose (\<lambda>t. validate_string t ''name'' 128 ident_chars) (Some (trim n))))"

definition handle_update_api_key ::
    "run_env \<Rightarrow> string \<Rightarrow> string \<Rightarrow> string option \<Rightarrow> int option \<Rightarrow> bool option \<Rightarrow> app_state
      \<Rightarrow> (http_error + api_key_response) \<times> app_state" where
  "handle_update_api_key env req_id kid name expires en s =
     (case and_then (update_name_field env name) (\<lambda>n.
           and_then (update_expiry_field env expires) (\<lambda>e.
           Inr \<lparr>ku_id = kid, ku_name = n, ku_enabled = en, ku_expires_at = e\<rparr>)) of
        Inl e \<Rightarrow> (Inl e, s)
      | Inr updates \<Rightarrow>
          (case run_db_write env (update_api_key (re_db env) updates) s of
             (r, s1) \<Rightarrow>
               (case db_or_http env r of
                  Inl e \<Rightarrow> (Inl e, s1)
                | Inr (updated, hash) \<Rightarrow>
                    (Inr (api_key_response_of (masked updated) updated),
                     audit_log env req_id ''update'' ''api_key'' kid
                       (s1\<lparr>api_key_cache := dm_remove hash (api_key_cache s1),
                           negative_key_cache := dm_remove hash (negative_key_cache s1),
                           key_revision := key_revision s1 + 1\<rparr>)))))"

end
