(* ===== verification/Admin_Facts.thy ===== *)
theory Admin_Facts
  imports Admin
begin

text \<open>
  The caches of resolved models, unknown names and providers are transparent: whatever sequence
  of admin requests, resolutions and cleanup passes ran, they say what the database says. The
  invariant \<open>coherent\<close> is stated over the abstract store of \<open>Store_Facts\<close>, so that each
  handler's case is a fact about the finite maps.
\<close>

section \<open>An operation happens or does not\<close>

definition nofault :: "db_env \<Rightarrow> db_env" where
  "nofault e = e\<lparr>env_fault := (\<lambda>_. None)\<rparr>"

lemma nofault_sel [simp]:
  "env_now (nofault e) = env_now e" "env_uuid (nofault e) = env_uuid e"
  "env_rng (nofault e) = env_rng e" "env_sha256 (nofault e) = env_sha256 e"
  "env_from_ts (nofault e) = env_from_ts e" "env_sql_text (nofault e) = env_sql_text e"
  "env_fault (nofault e) = (\<lambda>_. None)"
  by (simp_all add: nofault_def)

lemma nofault_ts [simp]: "ts (nofault e) = ts e"
  by (simp add: ts_def fun_eq_iff)

lemma nofault_opt_ts [simp]: "opt_ts (nofault e) = opt_ts e"
  by (intro ext) (simp add: opt_ts_def)

lemma nofault_fun [simp]:
  "to_storage (nofault e) = to_storage e" "hash_key (nofault e) = hash_key e"
  "row_to_provider (nofault e) = row_to_provider e" "row_to_model (nofault e) = row_to_model e"
  "row_to_api_key (nofault e) = row_to_api_key e"
  "generate_api_key (nofault e) = generate_api_key e"
  by (simp_all add: to_storage_def hash_key_def row_to_provider_def row_to_model_def
    row_to_api_key_def generate_api_key_def generate_random_string_def fun_eq_iff)

text \<open>A failing statement ends the operation with the database as it was.\<close>

lemma and_then_assoc_cases:
  assumes "\<And>a. snd (transact d (f a)) = d \<or> snd (transact d (f a)) = snd (transact d (g a))"
  shows "snd (transact d (and_then r f)) = d
    \<or> snd (transact d (and_then r f)) = snd (transact d (and_then r g))"
  using assms by (cases r) (simp_all add: transact_def)

lemma sql_cases:
  assumes "snd (transact d (f ())) = d \<or> snd (transact d (f ())) = snd (transact d (g ()))"
  shows "snd (transact d (and_then (sql e n) f)) = d
    \<or> snd (transact d (and_then (sql e n) f)) = snd (transact d (and_then (sql (nofault e) n) g))"
  using assms by (cases "env_fault e n") (simp_all add: sql_def transact_def)

lemma if_cases:
  assumes "snd (transact d x) = d \<or> snd (transact d x) = snd (transact d x')"
    and "snd (transact d y) = d \<or> snd (transact d y) = snd (transact d y')"
  shows "snd (transact d (if b then x else y)) = d
    \<or> snd (transact d (if b then x else y)) = snd (transact d (if b then x' else y'))"
  using assms by simp

lemmas nofault_simps = nofault_sel nofault_fun nofault_ts nofault_opt_ts
lemmas nofault_cases = sql_cases and_then_assoc_cases if_cases

lemma exec_op_nofault: "exec_op e op d = d \<or> exec_op e op d = exec_op (nofault e) op d"
proof (cases op)
  case (InsertProvider x)
  show ?thesis
    unfolding InsertProvider exec_op.simps insert_provider_def Let_def nofault_simps
    by (intro nofault_cases) simp
next
  case (UpdateProvider x)
  show ?thesis
    unfolding UpdateProvider exec_op.simps update_provider_def Let_def nofault_simps
    by (intro nofault_cases) simp
next
  case (DeleteProvider x)
  show ?thesis
    unfolding DeleteProvider exec_op.simps delete_provider_def nofault_simps
    by (intro nofault_cases) simp
next
  case (InsertModel x)
  show ?thesis
    unfolding InsertModel exec_op.simps insert_model_def Let_def nofault_simps
    by (intro nofault_cases) simp_all
next
  case (UpdateModel x)
  show ?thesis
    unfolding UpdateModel exec_op.simps update_model_def Let_def nofault_simps
    by (intro nofault_cases) simp
next
  case (DeleteModel x)
  show ?thesis
    unfolding DeleteModel exec_op.simps delete_model_def nofault_simps
    by (intro nofault_cases) simp
next
  case (InsertApiKey x y)
  show ?thesis
    unfolding InsertApiKey exec_op.simps insert_api_key_def Let_def nofault_simps
    by (intro nofault_cases) simp
next
  case (UpdateApiKey x)
  show ?thesis
    unfolding UpdateApiKey exec_op.simps update_api_key_def Let_def nofault_simps
    by (intro nofault_cases) simp
next
  case (DeleteApiKey x)
  show ?thesis
    unfolding DeleteApiKey exec_op.simps delete_api_key_def nofault_simps
    by (intro nofault_cases) simp
qed

lemma exec_op_spec:
  assumes "db_wf d"
  shows "exec_op e op d = d \<or> abs_db (exec_op e op d) = spec_op (nofault e) op (abs_db d)"
proof -
  have "env_fault (nofault e) = (\<lambda>_. None)" by simp
  then have "abs_db (exec_op (nofault e) op d) = spec_op (nofault e) op (abs_db d)"
    using assms
    by (cases op)
      (simp_all only: refine_insert_provider refine_update_provider refine_delete_provider
        refine_insert_model refine_update_model refine_delete refine_insert_api_key
        refine_update_api_key)
  then show ?thesis using exec_op_nofault [of e op d] by metis
qed

section \<open>Coherent caches\<close>

definition res_spec :: "db_env \<Rightarrow> store_spec \<Rightarrow> string \<Rightarrow> (model \<times> provider) option" where
  "res_spec e0 st n = (case sp_models st n of
     None \<Rightarrow> None
   | Some m \<Rightarrow> (case sp_providers st (mr_provider_id m) of
       None \<Rightarrow> None
     | Some p \<Rightarrow> if mr_enabled m = 1 \<and> pr_enabled p = 1
         then Some (row_to_model e0 m, row_to_provider e0 p) else None))"

definition coherent :: "db_env \<Rightarrow> app_state \<Rightarrow> bool" where
  "coherent e0 s \<longleftrightarrow> db_wf (db s)
     \<and> dm_wf (model_cache s) \<and> dm_wf (negative_model_cache s) \<and> dm_wf (provider_cache s)
     \<and> (\<forall>n mp t. dm_get (model_cache s) n = Some (mp, t) \<longrightarrow> res_spec e0 (abs_db (db s)) n = Some mp)
     \<and> (\<forall>n t. dm_get (negative_model_cache s) n = Some t \<longrightarrow> res_spec e0 (abs_db (db s)) n = None)
     \<and> (\<forall>i up t. dm_get (provider_cache s) i = Some (up, t) \<longrightarrow>
          (\<exists>row. sp_providers (abs_db (db s)) i = Some row
             \<and> up = create_provider (row_to_provider e0 row)))"

text \<open>Dropping entries, and changing nothing the caches say, keeps coherence.\<close>

lemma coherentI:
  assumes "coherent e0 s" and "db_wf (db s')"
    and "dm_wf (model_cache s')" "dm_wf (negative_model_cache s')" "dm_wf (provider_cache s')"
    and "\<And>n mp t. dm_get (model_cache s') n = Some (mp, t) \<Longrightarrow>
      (\<exists>t0. dm_get (model_cache s) n = Some (mp, t0))
      \<and> res_spec e0 (abs_db (db s')) n = res_spec e0 (abs_db (db s)) n
      \<or> res_spec e0 (abs_db (db s')) n = Some mp"
    and "\<And>n t. dm_get (negative_model_cache s') n = Some t \<Longrightarrow>
      (\<exists>t0. dm_get (negative_model_cache s) n = Some t0)
      \<and> res_spec e0 (abs_db (db s')) n = res_spec e0 (abs_db (db s)) n
      \<or> res_spec e0 (abs_db (db s')) n = None"
    and "\<And>i up t. dm_get (provider_cache s') i = Some (up, t) \<Longrightarrow>
      (\<exists>t0. dm_get (provider_cache s) i = Some (up, t0))
      \<and> sp_providers (abs_db (db s')) i = sp_providers (abs_db (db s)) i
      \<or> (\<exists>row. sp_providers (abs_db (db s')) i = Some row \<and> up = create_provider (row_to_provider e0 row))"
  shows "coherent e0 s'"
proof -
  have m: "res_spec e0 (abs_db (db s')) n = Some mp"
    if "dm_get (model_cache s') n = Some (mp, t)" for n mp t
    using assms(1) assms(6) [OF that] unfolding coherent_def by metis
  have n: "res_spec e0 (abs_db (db s')) n = None"
    if "dm_get (negative_model_cache s') n = Some t" for n t
    using assms(1) assms(7) [OF that] unfolding coherent_def by metis
  have p: "\<exists>row. sp_providers (abs_db (db s')) i = Some row \<and> up = create_provider (row_to_provider e0 row)"
    if "dm_get (provider_cache s') i = Some (up, t)" for i up t
    using assms(1) assms(8) [OF that] unfolding coherent_def by metis
  show ?thesis unfolding coherent_def using assms(2-5) m n p by blast
qed

lemma coherent_wf: "coherent e0 s \<Longrightarrow> db_wf (db s)"
  "coherent e0 s \<Longrightarrow> dm_wf (model_cache s)" "coherent e0 s \<Longrightarrow> dm_wf (negative_model_cache s)"
  "coherent e0 s \<Longrightarrow> dm_wf (provider_cache s)"
  by (simp_all add: coherent_def)

lemma coherent_says:
  "coherent e0 s \<Longrightarrow> dm_get (model_cache s) n = Some (mp, t) \<Longrightarrow>
     res_spec e0 (abs_db (db s)) n = Some mp"
  "coherent e0 s \<Longrightarrow> dm_get (negative_model_cache s) n = Some t1 \<Longrightarrow>
     res_spec e0 (abs_db (db s)) n = None"
  "coherent e0 s \<Longrightarrow> dm_get (provider_cache s) i = Some (up, t2) \<Longrightarrow>
     \<exists>row. sp_providers (abs_db (db s)) i = Some row \<and> up = create_provider (row_to_provider e0 row)"
  unfolding coherent_def by blast+

text \<open>What other names resolve to does not depend on one model's row.\<close>

lemma res_spec_other:
  "sp_providers st' = sp_providers st \<Longrightarrow> sp_models st' n = sp_models st n \<Longrightarrow>
     res_spec e0 st' n = res_spec e0 st n"
  by (simp add: res_spec_def split: option.split)

lemma sp_id:
  "sp_providers (abs_db d) i = Some p \<Longrightarrow> pr_id p = i"
  "sp_models (abs_db d) n = Some m \<Longrightarrow> mr_name m = n"
  by (auto dest: tbl_find_SomeD)

lemma res_spec_provider:
  assumes "res_spec e0 (abs_db d) n = Some (m, p)"
  shows "\<exists>mr pr. sp_models (abs_db d) n = Some mr \<and> sp_providers (abs_db d) (mr_provider_id mr) = Some pr
    \<and> prov_id p = mr_provider_id mr"
  using assms sp_id(1) [of d]
  by (fastforce simp: res_spec_def row_to_provider_def split: option.splits if_splits)

text \<open>A change of one provider keeps the resolutions that go through another.\<close>

lemma res_spec_not_provider:
  assumes "res_spec e0 (abs_db d) n = Some (m, p)" and "prov_id p \<noteq> i"
    and "\<And>j. j \<noteq> i \<Longrightarrow> sp_providers st' j = sp_providers (abs_db d) j"
    and "\<And>k mr. sp_models (abs_db d) k = Some mr \<Longrightarrow> mr_provider_id mr \<noteq> i \<Longrightarrow> sp_models st' k = Some mr"
  shows "res_spec e0 st' n = Some (m, p)"
proof -
  obtain mr pr where r: "sp_models (abs_db d) n = Some mr"
      "sp_providers (abs_db d) (mr_provider_id mr) = Some pr" "prov_id p = mr_provider_id mr"
    using res_spec_provider [OF assms(1)] by blast
  have "mr_provider_id mr \<noteq> i" using r(3) assms(2) by simp
  then have "sp_models st' n = Some mr" "sp_providers st' (mr_provider_id mr) = Some pr"
    using assms(3,4) r by auto
  with assms(1) r show ?thesis by (simp add: res_spec_def)
qed

section \<open>Handlers keep the caches coherent\<close>

text \<open>A blocking write that does not time out either fails and changes nothing, or happened.\<close>

lemma write_outcome:
  assumes "run_db_write env f s = (r, s1)" and "re_out env \<noteq> TimedOut"
    and "\<And>e. fst (f (db s)) = Inl e \<Longrightarrow> snd (f (db s)) = db s"
  obtains (failed) e e' where "db_or_http env r = Inl e" "db_or_internal env r = Inl e'" "s1 = s"
  | (ok) v where "db_or_http env r = Inr v" "db_or_internal env r = Inr v"
      "fst (f (db s)) = Inr v" "s1 = s\<lparr>db := snd (f (db s))\<rparr>"
proof (cases "re_out env")
  case Panicked
  then have "r = Inl Join" "s1 = s" using assms(1) by (simp_all add: run_db_write_def)
  then show ?thesis
    by (intro failed [of "internal_error (re_rid env)" "internal_error (re_rid env)"])
      (simp_all add: db_or_http_def db_or_internal_def)
next
  case Completed
  obtain x d where f: "f (db s) = (x, d)" by (cases "f (db s)")
  have r: "r = Inr x" "s1 = s\<lparr>db := d\<rparr>"
    using assms(1) Completed f by (simp_all add: run_db_write_def run_blocking_def)
  show ?thesis
  proof (cases x)
    case (Inl e)
    then have "d = db s" using assms(3) f by simp
    then show ?thesis using failed r Inl by (simp add: db_or_http_def db_or_internal_def)
  next
    case (Inr v)
    then show ?thesis using ok r f by (simp add: db_or_http_def db_or_internal_def)
  qed
qed (use assms(2) in simp)

lemma op_rollback:
  "fst (insert_provider e p d) = Inl x1 \<Longrightarrow> snd (insert_provider e p d) = d"
  "fst (update_provider e pu d) = Inl x2 \<Longrightarrow> snd (update_provider e pu d) = d"
  "fst (delete_provider e i d) = Inl x3 \<Longrightarrow> snd (delete_provider e i d) = d"
  "fst (insert_model e m d) = Inl x4 \<Longrightarrow> snd (insert_model e m d) = d"
  "fst (update_model e mu d) = Inl x5 \<Longrightarrow> snd (update_model e mu d) = d"
  "fst (delete_model e n d) = Inl x6 \<Longrightarrow> snd (delete_model e n d) = d"
  "fst (insert_api_key e kn ex d) = Inl x7 \<Longrightarrow> snd (insert_api_key e kn ex d) = d"
  "fst (update_api_key e ku d) = Inl x8 \<Longrightarrow> snd (update_api_key e ku d) = d"
  "fst (delete_api_key e k d) = Inl x9 \<Longrightarrow> snd (delete_api_key e k d) = d"
  unfolding write_defs Let_def by (erule transact_Inl)+

lemma coherent_same_db:
  assumes "coherent e0 s" and "abs_db (db s') = abs_db (db s)" and "db_wf (db s')"
    and "dm_wf (model_cache s')" "dm_wf (negative_model_cache s')" "dm_wf (provider_cache s')"
    and "\<And>n v. dm_get (model_cache s') n = Some v \<Longrightarrow> dm_get (model_cache s) n = Some v"
    and "\<And>n t. dm_get (negative_model_cache s') n = Some t \<Longrightarrow> dm_get (negative_model_cache s) n = Some t"
    and "\<And>i v. dm_get (provider_cache s') i = Some v \<Longrightarrow> dm_get (provider_cache s) i = Some v"
  shows "coherent e0 s'"
  using assms by (intro coherentI [OF assms(1,3-6)]) auto

lemma coherent_one_model:
  assumes "coherent e0 s" and "db_wf (db s')"
    and "sp_providers (abs_db (db s')) = sp_providers (abs_db (db s))"
    and "\<And>k. k \<noteq> n \<Longrightarrow> sp_models (abs_db (db s')) k = sp_models (abs_db (db s)) k"
    and "dm_wf (model_cache s')" "dm_wf (negative_model_cache s')" "provider_cache s' = provider_cache s"
    and "\<And>k v. dm_get (model_cache s') k = Some v \<Longrightarrow> k \<noteq> n \<and> dm_get (model_cache s) k = Some v"
    and "\<And>k t. dm_get (negative_model_cache s') k = Some t \<Longrightarrow>
      dm_get (negative_model_cache s) k = Some t \<and> (k \<noteq> n \<or> res_spec e0 (abs_db (db s')) n = None)"
  shows "coherent e0 s'"
proof (rule coherentI [OF assms(1,2,5,6)])
  show "dm_wf (provider_cache s')" using assms(1,7) by (simp add: coherent_def)
  have same: "res_spec e0 (abs_db (db s')) k = res_spec e0 (abs_db (db s)) k" if "k \<noteq> n" for k
    by (rule res_spec_other [OF assms(3) assms(4) [OF that]])
  show "(\<exists>t0. dm_get (model_cache s) k = Some (mp, t0))
      \<and> res_spec e0 (abs_db (db s')) k = res_spec e0 (abs_db (db s)) k
      \<or> res_spec e0 (abs_db (db s')) k = Some mp"
    if "dm_get (model_cache s') k = Some (mp, t)" for k mp t
    using assms(8) [OF that] same by blast
  show "(\<exists>t0. dm_get (negative_model_cache s) k = Some t0)
      \<and> res_spec e0 (abs_db (db s')) k = res_spec e0 (abs_db (db s)) k
      \<or> res_spec e0 (abs_db (db s')) k = None"
    if "dm_get (negative_model_cache s') k = Some t" for k t
    using assms(9) [OF that] same by (cases "k = n") auto
  show "(\<exists>t0. dm_get (provider_cache s) i = Some (up, t0))
      \<and> sp_providers (abs_db (db s')) i = sp_providers (abs_db (db s)) i
      \<or> (\<exists>row. sp_providers (abs_db (db s')) i = Some row \<and> up = create_provider (row_to_provider e0 row))"
    if "dm_get (provider_cache s') i = Some (up, t)" for i up t
    using that assms(3,7) by auto
qed

text \<open>The state after an audited write: the log does not matter to the caches.\<close>

lemma coherent_log [simp]: "coherent e0 (audit_log env a b c d s) = coherent e0 s"
  by (simp add: coherent_def audit_log_def send_log_def)

lemma spec_insert_model:
  "spec_op e (InsertModel m) st = st
   \<or> sp_models st (model_name m) = None \<and> sp_providers (spec_op e (InsertModel m) st) = sp_providers st
     \<and> (\<forall>k. k \<noteq> model_name m \<longrightarrow> sp_models (spec_op e (InsertModel m) st) k = sp_models st k)"
  by (simp add: Let_def new_model_row_def)

lemma coherent_create_model:
  assumes "coherent e0 s" and "d = exec_op e (InsertModel m) (db s)" and "model_name m = n"
  shows "coherent e0 (s\<lparr>db := d, negative_model_cache := dm_remove n (negative_model_cache s)\<rparr>)"
proof -
  have wf: "db_wf d" unfolding assms(2) by (rule exec_op_wf [OF coherent_wf(1) [OF assms(1)]])
  consider (same) "abs_db d = abs_db (db s)"
    | (new) "sp_models (abs_db (db s)) n = None" "sp_providers (abs_db d) = sp_providers (abs_db (db s))"
        "\<And>k. k \<noteq> n \<Longrightarrow> sp_models (abs_db d) k = sp_models (abs_db (db s)) k"
    using exec_op_spec [OF coherent_wf(1) [OF assms(1)], of e "InsertModel m"]
      spec_insert_model [of "nofault e" m "abs_db (db s)"]
    unfolding assms(2) assms(3) [symmetric] by metis
  then show ?thesis
  proof cases
    case same
    then show ?thesis
      using assms(1) wf
      by (intro coherent_same_db [OF assms(1)]) (auto simp: coherent_wf dash_simps split: if_splits)
  next
    case new
    have "res_spec e0 (abs_db (db s)) n = None" using new(1) by (simp add: res_spec_def)
    then have "dm_get (model_cache s) n \<noteq> Some v" for v
      using coherent_says(1) [OF assms(1)] by (cases v) force
    then show ?thesis
      using assms(1) wf new
      by (intro coherent_one_model [OF assms(1), where n = n])
        (auto simp: coherent_wf dash_simps split: if_splits)
  qed
qed

lemma coherent_change_model:
  assumes "coherent e0 s" and "d = exec_op e op (db s)"
    and "op = DeleteModel n \<or> (\<exists>u. op = UpdateModel u \<and> mu_name u = n)"
    and "neg = negative_model_cache s \<and> op = DeleteModel n \<or> neg = dm_remove n (negative_model_cache s)"
  shows "coherent e0 (s\<lparr>db := d, model_cache := dm_remove n (model_cache s),
    negative_model_cache := neg\<rparr>)"
proof -
  note c = coherent_wf [OF assms(1)]
  have wf: "db_wf d" unfolding assms(2) by (rule exec_op_wf [OF c(1)])
  have negwf: "dm_wf neg" using assms(4) c(3) by auto
  have neg: "dm_get neg k = Some t \<Longrightarrow> dm_get (negative_model_cache s) k = Some t" for k t
    using assms(4) by (auto simp: dash_simps split: if_splits)
  show ?thesis
  proof (cases "d = db s")
    case True
    then show ?thesis
      using wf c negwf neg
      by (intro coherent_same_db [OF assms(1)]) (auto simp: dash_simps split: if_splits)
  next
    case False
    then have spec: "abs_db d = spec_op (nofault e) op (abs_db (db s))"
      using exec_op_spec [OF c(1), of e op] assms(2) by metis
    have prov: "sp_providers (abs_db d) = sp_providers (abs_db (db s))"
      using assms(3) unfolding spec by (auto simp: Let_def split: option.splits if_splits)
    have other: "sp_models (abs_db d) k = sp_models (abs_db (db s)) k" if "k \<noteq> n" for k
      using assms(3) that unfolding spec by (auto simp: Let_def split: option.splits if_splits)
    have del: "res_spec e0 (abs_db d) n = None" if "op = DeleteModel n"
      using that unfolding spec by (simp add: res_spec_def)
    show ?thesis
    proof (rule coherent_one_model [OF assms(1), where n = n])
      show "dm_get (negative_model_cache s) k = Some t \<and> (k \<noteq> n \<or> res_spec e0
          (abs_db (db (s\<lparr>db := d, model_cache := dm_remove n (model_cache s),
            negative_model_cache := neg\<rparr>))) n = None)"
        if "dm_get (negative_model_cache (s\<lparr>db := d, model_cache := dm_remove n (model_cache s),
            negative_model_cache := neg\<rparr>)) k = Some t" for k t
        using that neg del assms(4) by (auto simp: dash_simps split: if_splits)
    qed (use wf prov other c negwf in \<open>auto simp: dash_simps split: if_splits\<close>)
  qed
qed

lemma spec_change_provider:
  assumes "op = DeleteProvider i \<or> (\<exists>u. op = UpdateProvider u \<and> pu_id u = i)"
  shows "j \<noteq> i \<Longrightarrow> sp_providers (spec_op e op st) j = sp_providers st j"
    and "sp_models st k = Some mr \<Longrightarrow> mr_provider_id mr \<noteq> i \<Longrightarrow> sp_models (spec_op e op st) k = Some mr"
  using assms by (auto split: option.split)

lemma forget_provider_get:
  "dm_wf (model_cache s) \<Longrightarrow> dm_get (model_cache (forget_provider i s)) n = Some (mp, t) \<Longrightarrow>
     dm_get (model_cache s) n = Some (mp, t) \<and> prov_id (snd mp) \<noteq> i"
  "dm_get (provider_cache (forget_provider i s)) j = Some v \<Longrightarrow>
     dm_get (provider_cache s) j = Some v \<and> j \<noteq> i"
  "dm_get (negative_model_cache (forget_provider i s)) n = None"
  "db (forget_provider i s) = db s"
  by (auto simp: forget_provider_def dash_simps split: option.splits if_splits)

lemma coherent_change_provider:
  assumes "coherent e0 s" and "d = exec_op e op (db s)"
    and "op = DeleteProvider i \<or> (\<exists>u. op = UpdateProvider u \<and> pu_id u = i)"
  shows "coherent e0 (forget_provider i (s\<lparr>db := d\<rparr>))" (is "coherent e0 ?s")
proof -
  note c = coherent_wf [OF assms(1)]
  let ?t = "s\<lparr>db := d\<rparr>"
  have caches: "model_cache ?t = model_cache s" "provider_cache ?t = provider_cache s" by simp_all
  have dbs: "db ?s = d" by (simp add: forget_provider_get)
  have "db_wf d" unfolding assms(2) by (rule exec_op_wf [OF c(1)])
  then have wf: "db_wf (db ?s)" by (simp only: dbs)
  have wfs: "dm_wf (model_cache ?s)" "dm_wf (negative_model_cache ?s)" "dm_wf (provider_cache ?s)"
    using c by (simp_all add: forget_provider_def)
  have m: "dm_get (model_cache s) n = Some (mp, t) \<and> prov_id (snd mp) \<noteq> i"
    if "dm_get (model_cache ?s) n = Some (mp, t)" for n mp t
    using forget_provider_get(1) [of ?t, OF _ that] c(2) by simp
  have p: "dm_get (provider_cache s) j = Some v \<and> j \<noteq> i"
    if "dm_get (provider_cache ?s) j = Some v" for j v
    using forget_provider_get(2) [OF that] by simp
  show ?thesis
  proof (cases "d = db s")
    case True
    then show ?thesis
      using wf wfs m p by (intro coherent_same_db [OF assms(1)]) (auto simp: forget_provider_get(3,4))
  next
    case False
    then have spec: "abs_db d = spec_op (nofault e) op (abs_db (db s))"
      using exec_op_spec [OF c(1), of e op] assms(2) by metis
    have ch: "j \<noteq> i \<Longrightarrow> sp_providers (abs_db d) j = sp_providers (abs_db (db s)) j"
        "sp_models (abs_db (db s)) k = Some mr \<Longrightarrow> mr_provider_id mr \<noteq> i \<Longrightarrow>
           sp_models (abs_db d) k = Some mr" for j k mr
      unfolding spec by (rule spec_change_provider [OF assms(3)], assumption+)+
    have "res_spec e0 (abs_db d) n = Some mp" if g: "dm_get (model_cache ?s) n = Some (mp, t)" for n mp t
    proof -
      obtain a b where mp: "mp = (a, b)" by (cases mp)
      have "res_spec e0 (abs_db (db s)) n = Some (a, b)" "prov_id b \<noteq> i"
        using coherent_says(1) [OF assms(1)] m [OF g] by (auto simp: mp)
      then show ?thesis
        unfolding mp by (rule res_spec_not_provider) (rule ch, assumption+)+
    qed
    moreover have "sp_providers (abs_db d) j = sp_providers (abs_db (db s)) j" if "j \<noteq> i" for j
      using ch(1) [OF that] .
    ultimately show ?thesis
      using wf wfs p
      by (intro coherentI [OF assms(1)]) (auto simp: forget_provider_get(3,4))
  qed
qed

lemma spec_insert_provider:
  "spec_op e (InsertProvider p) st = st
   \<or> (\<exists>i. sp_providers st i = None \<and> sp_models (spec_op e (InsertProvider p) st) = sp_models st
     \<and> (\<forall>j. j \<noteq> i \<longrightarrow> sp_providers (spec_op e (InsertProvider p) st) j = sp_providers st j))"
  by (auto simp: Let_def)

lemma coherent_create_provider:
  assumes "coherent e0 s" and "d = exec_op e (InsertProvider p) (db s)"
  shows "coherent e0 (s\<lparr>db := d\<rparr>)"
proof -
  note c = coherent_wf [OF assms(1)]
  have wf: "db_wf d" unfolding assms(2) by (rule exec_op_wf [OF c(1)])
  show ?thesis
  proof (cases "abs_db d = abs_db (db s)")
    case True
    then show ?thesis using wf c by (intro coherent_same_db [OF assms(1)]) auto
  next
    case False
    then obtain i where i: "sp_providers (abs_db (db s)) i = None"
        "sp_models (abs_db d) = sp_models (abs_db (db s))"
        "\<And>j. j \<noteq> i \<Longrightarrow> sp_providers (abs_db d) j = sp_providers (abs_db (db s)) j"
      using exec_op_spec [OF c(1), of e "InsertProvider p"]
        spec_insert_provider [of "nofault e" p "abs_db (db s)"]
      unfolding assms(2) by metis
    have fk: "mr_provider_id mr \<noteq> i" if "sp_models (abs_db (db s)) n = Some mr" for n mr
    proof -
      have "mr \<in> set (models (db s))" using that tbl_find_SomeD by fastforce
      then have "mr_provider_id mr \<in> pr_id ` set (providers (db s))" using c(1) by (simp add: db_wf_def)
      then show ?thesis using i(1) by (auto simp: tbl_find_None)
    qed
    have "res_spec e0 (abs_db d) n = res_spec e0 (abs_db (db s)) n" for n
      using i(2,3) fk by (auto simp: res_spec_def split: option.split)
    moreover have "sp_providers (abs_db d) j = Some row"
      if "sp_providers (abs_db (db s)) j = Some row" for j row
      using i(1,3) that by (cases "j = i") auto
    ultimately show ?thesis
      using wf c coherent_says(3) [OF assms(1)]
      by (intro coherentI [OF assms(1)]) (auto, metis+)
  qed
qed

lemma coherent_key_write:
  assumes "coherent e0 s" and "d = exec_op e op (db s)"
    and "(\<exists>n x. op = InsertApiKey n x) \<or> (\<exists>u. op = UpdateApiKey u) \<or> (\<exists>k. op = DeleteApiKey k)"
  shows "coherent e0 (s\<lparr>db := d, api_key_cache := a, negative_key_cache := b, key_revision := r\<rparr>)"
proof -
  note c = coherent_wf [OF assms(1)]
  have wf: "db_wf d" unfolding assms(2) by (rule exec_op_wf [OF c(1)])
  have "sp_providers (spec_op e' op st) = sp_providers st \<and> sp_models (spec_op e' op st) = sp_models st"
    for e' st using assms(3) by (auto simp: Let_def split: option.split)
  then have same: "sp_providers (abs_db d) = sp_providers (abs_db (db s))"
      "sp_models (abs_db d) = sp_models (abs_db (db s))"
    using exec_op_spec [OF c(1), of e op] unfolding assms(2) by metis+
  have "res_spec e0 (abs_db d) n = res_spec e0 (abs_db (db s)) n" for n
    by (rule res_spec_other) (simp_all only: same)
  then show ?thesis
    using wf c by (intro coherentI [OF assms(1)]) (auto simp: same)
qed

section \<open>Resolving\<close>

lemma rows_same_calendar:
  assumes "env_from_ts e = env_from_ts e0"
  shows "row_to_model e = row_to_model e0" "row_to_provider e = row_to_provider e0"
proof -
  have "ts e = ts e0" using assms by (simp add: ts_def fun_eq_iff)
  then show "row_to_model e = row_to_model e0" "row_to_provider e = row_to_provider e0"
    by (simp_all add: row_to_model_def row_to_provider_def fun_eq_iff)
qed

lemma resolve_model_spec:
  assumes "resolve_model e n d = Inr x" and "db_wf d" and "env_from_ts e = env_from_ts e0"
  shows "x = res_spec e0 (abs_db d) n"
  using assms(1)
  by (auto simp: resolve_model_def res_simps join_rows_eq [OF assms(2)] res_spec_def
      rows_same_calendar [OF assms(3)] split: option.split)

text \<open>A lookup of an entry that is refreshed finds the same value.\<close>

lemma resolve_cases:
  assumes "coherent e0 s" and "env_from_ts (re_db env) = env_from_ts e0"
    and "resolve_model_and_provider env n s = (r, s')"
  obtains (unknown) "res_spec e0 (abs_db (db s)) n = None" "r = Inl (unknown_model env n)"
      "s' = s \<or> s' = s\<lparr>negative_model_cache := insert_capped id n (re_clk env) (cache_cap s)
        (negative_model_cache s)\<rparr>"
  | (cached) m p where "res_spec e0 (abs_db (db s)) n = Some (m, p)" "r = Inr (m, p)"
      "s' = s\<lparr>model_cache := dm_insert n ((m, p), re_clk env) (model_cache s)\<rparr>"
  | (loaded) m p where "res_spec e0 (abs_db (db s)) n = Some (m, p)" "r = Inr (m, p)"
      "s' = s\<lparr>provider_cache := insert_capped snd (prov_id p) (create_provider p, re_clk env)
            (cache_cap s) (provider_cache s),
          model_cache := insert_capped snd n ((m, p), re_clk env) (cache_cap s) (model_cache s)\<rparr>"
  | (failed) e where "r = Inl e" "s' = s" "re_out env \<noteq> Completed \<or> env_fault (re_db env) 0 \<noteq> None"
proof (cases "\<exists>seen. dm_get (negative_model_cache s) n = Some seen
    \<and> elapsed (re_clk env) seen < negative_cache_ttl")
  case True
  then obtain seen where seen: "dm_get (negative_model_cache s) n = Some seen"
      "elapsed (re_clk env) seen < negative_cache_ttl" by blast
  then have "r = Inl (unknown_model env n)" "s' = s"
    using assms(3) by (simp_all add: resolve_model_and_provider_def)
  then show ?thesis using unknown coherent_says(2) [OF assms(1) seen(1)] by blast
next
  case False
  then have neg: "\<not> (case dm_get (negative_model_cache s) n of
      Some seen \<Rightarrow> elapsed (re_clk env) seen < negative_cache_ttl | None \<Rightarrow> False)"
    by (simp split: option.split)
  show ?thesis
  proof (cases "\<exists>mp t. dm_get (model_cache s) n = Some (mp, t) \<and> elapsed (re_clk env) t < cache_ttl")
    case True
    then obtain m p t where hit: "dm_get (model_cache s) n = Some ((m, p), t)"
        "elapsed (re_clk env) t < cache_ttl" by auto
    then have "r = Inr (m, p)" "s' = s\<lparr>model_cache := dm_insert n ((m, p), re_clk env) (model_cache s)\<rparr>"
      using assms(3) neg by (simp_all add: resolve_model_and_provider_def)
    then show ?thesis using cached coherent_says(1) [OF assms(1) hit(1)] by blast
  next
    case False
    then have miss: "(case dm_get (model_cache s) n of
        Some (found, t) \<Rightarrow> if elapsed (re_clk env) t < cache_ttl then Some found else None
      | None \<Rightarrow> None) = None"
      by (auto split: option.split)
    note run = assms(3) [unfolded resolve_model_and_provider_def, unfolded miss, simplified neg]
    show ?thesis
    proof (cases "run_db_read env (resolve_model (re_db env) n) s")
      case (Inl e)
      then have "re_out env \<noteq> Completed" by (auto simp: run_db_read_def run_blocking_def)
      moreover have "r = Inl (internal_error (re_rid env))" "s' = s" using run Inl by simp_all
      ultimately show ?thesis using failed by blast
    next
      case (Inr x)
      then have x: "x = resolve_model (re_db env) n (db s)" by (simp add: run_db_read_def res_simps)
      show ?thesis
      proof (cases x)
        case (Inl e)
        then have "env_fault (re_db env) 0 \<noteq> None"
          using x by (auto simp: resolve_model_def res_simps sql_def split: option.splits)
        moreover have "s' = s" "\<exists>e. r = Inl e" using run Inr Inl by auto
        ultimately show ?thesis using failed by blast
      next
        case res: (Inr v)
        have v: "v = res_spec e0 (abs_db (db s)) n"
          by (rule resolve_model_spec [OF _ coherent_wf(1) [OF assms(1)] assms(2)]) (use x res in simp)
        show ?thesis
        proof (cases v)
          case None
          then show ?thesis using run Inr res v unknown by simp
        next
          case (Some mp)
          then show ?thesis using run Inr res v loaded by (cases mp) simp
        qed
      qed
    qed
  qed
qed

lemma coherent_resolve:
  assumes "coherent e0 s" and "env_from_ts (re_db env) = env_from_ts e0"
    and "resolve_model_and_provider env n s = (r, s')"
  shows "coherent e0 s'"
  using assms
proof (cases rule: resolve_cases)
  case unknown
  have "coherent e0 (s\<lparr>negative_model_cache := insert_capped id n (re_clk env) (cache_cap s)
        (negative_model_cache s)\<rparr>)"
    using coherent_wf [OF assms(1)] unknown(1)
    by (intro coherentI [OF assms(1)]) (auto dest!: insert_capped_get)
  then show ?thesis using unknown(3) assms(1) by auto
next
  case (cached m p)
  then show ?thesis
    using coherent_wf [OF assms(1)]
    by (intro coherentI [OF assms(1)]) (auto simp: dash_simps split: if_splits)
next
  case (loaded m p)
  obtain mr pr where rows: "sp_models (abs_db (db s)) n = Some mr"
      "sp_providers (abs_db (db s)) (mr_provider_id mr) = Some pr" "prov_id p = mr_provider_id mr"
    using res_spec_provider [OF loaded(1)] by blast
  then have "p = row_to_provider e0 pr"
    using loaded(1) by (simp add: res_spec_def split: if_splits)
  then have "\<exists>row. sp_providers (abs_db (db s)) (prov_id p) = Some row
      \<and> create_provider p = create_provider (row_to_provider e0 row)"
    using rows by auto
  then show ?thesis
    using loaded coherent_wf [OF assms(1)]
    by (intro coherentI [OF assms(1)]) (auto dest!: insert_capped_get)
qed (use assms(1) in simp)

lemma cached_upstream_spec:
  assumes "coherent e0 s" and "sp_providers (abs_db (db s)) (prov_id p) = Some row"
    and "p = row_to_provider e0 row" and "cached_upstream env p s = (up, s')"
  shows "up = create_provider p \<and> coherent e0 s' \<and> db s' = db s"
proof (cases "\<exists>u t. dm_get (provider_cache s) (prov_id p) = Some (u, t) \<and> elapsed (re_clk env) t < cache_ttl")
  case True
  then obtain u t where hit: "dm_get (provider_cache s) (prov_id p) = Some (u, t)"
      "elapsed (re_clk env) t < cache_ttl" by blast
  then have u: "u = create_provider p"
    using coherent_says(3) [OF assms(1) hit(1)] assms(2,3) by auto
  have "up = u" "s' = s\<lparr>provider_cache := dm_insert (prov_id p) (u, re_clk env) (provider_cache s)\<rparr>"
    using assms(4) hit by (auto simp: cached_upstream_def)
  then show ?thesis
    using u assms(2,3) coherent_wf [OF assms(1)]
    by (auto simp: dash_simps split: if_splits intro!: coherentI [OF assms(1)])
next
  case False
  then have "(case dm_get (provider_cache s) (prov_id p) of
      Some (up, t) \<Rightarrow> if elapsed (re_clk env) t < cache_ttl then Some up else None
    | None \<Rightarrow> None) = None"
    by (auto split: option.split)
  then have "up = create_provider p" "s' = s\<lparr>provider_cache := insert_capped snd (prov_id p)
      (create_provider p, re_clk env) (cache_cap s) (provider_cache s)\<rparr>"
    using assms(4) by (auto simp: cached_upstream_def Let_def)
  then show ?thesis
    using assms(2,3) coherent_wf [OF assms(1)]
    by (auto dest!: insert_capped_get intro!: coherentI [OF assms(1)])
qed

end
