(* ===== verification/Caches.thy ===== *)
theory Caches
  imports Admin_Facts
begin

text \<open>
  The requests that reach the shared caches, as calls that are served one after another, and the
  transparency of the caches: the answers of the proxy path are those of a program without them.
\<close>

section \<open>Each handler\<close>

lemma tbl_delete_absent: "tbl_find f k rows = None \<Longrightarrow> tbl_delete f k rows = rows"
  by (auto simp: tbl_delete_def tbl_find_None intro!: filter_True)

lemma delete_false:
  "fst (delete_model e n d) = Inr False \<Longrightarrow> snd (delete_model e n d) = d"
  "fst (delete_provider e i d) = Inr False \<Longrightarrow> snd (delete_provider e i d) = d"
  by (auto simp: delete_model_def delete_provider_def delete_provider_row_def transact_def res_simps
      tbl_delete_absent split: sum.splits option.splits)

lemma insert_model_name: "fst (insert_model e m d) = Inr v \<Longrightarrow> model_name v = model_name m"
  by (auto simp: insert_model_def transact_def Let_def res_simps split: sum.splits if_splits)

text \<open>A handler around one write: what is left to show is the case that it happened.\<close>

lemma coherent_write:
  assumes "coherent e0 s" and "re_out env \<noteq> TimedOut" and "run_db_write env f s = (r, s1)"
    and "\<And>e. fst (f (db s)) = Inl e \<Longrightarrow> snd (f (db s)) = db s"
    and "\<And>v. fst (f (db s)) = Inr v \<Longrightarrow> coherent e0 (k v (s\<lparr>db := snd (f (db s))\<rparr>))"
  shows "coherent e0 (case db_or_http env r of Inl e \<Rightarrow> s1 | Inr v \<Rightarrow> k v s1)"
    and "coherent e0 (case db_or_internal env r of Inl e \<Rightarrow> s1 | Inr v \<Rightarrow> k v s1)"
proof -
  have "coherent e0 (case db_or_http env r of Inl e \<Rightarrow> s1 | Inr v \<Rightarrow> k v s1)
      \<and> coherent e0 (case db_or_internal env r of Inl e \<Rightarrow> s1 | Inr v \<Rightarrow> k v s1)"
    by (rule write_outcome [OF assms(3,2,4)]) (use assms(1,5) in simp_all)
  then show "coherent e0 (case db_or_http env r of Inl e \<Rightarrow> s1 | Inr v \<Rightarrow> k v s1)"
    "coherent e0 (case db_or_internal env r of Inl e \<Rightarrow> s1 | Inr v \<Rightarrow> k v s1)" by blast+
qed

lemma coherent_create_model_handler:
  assumes "coherent e0 s" and "re_out env \<noteq> TimedOut"
  shows "coherent e0 (snd (handle_create_model env rid input s))"
proof (cases "snd (handle_create_model env rid input s) = s")
  case False
  then obtain m r s1 where m: "run_db_write env (insert_model (re_db env) m) s = (r, s1)"
    and out: "snd (handle_create_model env rid input s) = (case db_or_http env r of Inl e \<Rightarrow> s1
      | Inr v \<Rightarrow> audit_log env rid ''create'' ''model'' (model_name v)
          (s1\<lparr>negative_model_cache := dm_remove (model_name v) (negative_model_cache s1)\<rparr>))"
    by (auto simp: handle_create_model_def split: sum.splits prod.splits)
  show ?thesis
    unfolding out
    by (rule coherent_write(1) [OF assms m op_rollback(4)], assumption)
      (use coherent_create_model [OF assms(1) refl, where e = "re_db env"] insert_model_name in simp)
qed (use assms(1) in simp)

lemma coherent_update_model_handler:
  assumes "coherent e0 s" and "re_out env \<noteq> TimedOut"
  shows "coherent e0 (snd (handle_update_model env rid n input s))"
proof (cases "snd (handle_update_model env rid n input s) = s")
  case False
  then obtain u r s1 where m: "run_db_write env (update_model (re_db env) u) s = (r, s1)"
    and out: "snd (handle_update_model env rid n input s) = (case db_or_http env r of Inl e \<Rightarrow> s1
      | Inr v \<Rightarrow> audit_log env rid ''update'' ''model'' (mu_name u)
          (s1\<lparr>model_cache := dm_remove (mu_name u) (model_cache s1),
              negative_model_cache := dm_remove (mu_name u) (negative_model_cache s1)\<rparr>))"
    by (auto simp: handle_update_model_def split: sum.splits prod.splits)
  show ?thesis
    unfolding out
    by (rule coherent_write(1) [OF assms m op_rollback(5)], assumption)
      (use coherent_change_model [OF assms(1) refl, of "UpdateModel u" "mu_name u", where e = "re_db env"]
        in simp)
qed (use assms(1) in simp)

lemma coherent_delete_model_handler:
  assumes "coherent e0 s" and "re_out env \<noteq> TimedOut"
  shows "coherent e0 (snd (handle_delete_model env rid n s))"
proof -
  obtain r s1 where m: "run_db_write env (delete_model (re_db env) n) s = (r, s1)" by fastforce
  then have out: "snd (handle_delete_model env rid n s) = (case db_or_http env r of Inl e \<Rightarrow> s1
      | Inr v \<Rightarrow> if \<not> v then s1 else audit_log env rid ''delete'' ''model'' n
          (s1\<lparr>model_cache := dm_remove n (model_cache s1)\<rparr>))"
    by (simp add: handle_delete_model_def split: sum.split)
  show ?thesis
    unfolding out
    by (rule coherent_write(1) [OF assms m op_rollback(6)], assumption)
      (use coherent_change_model [OF assms(1) refl, of "DeleteModel n" n "negative_model_cache s",
          where e = "re_db env"] assms(1) in \<open>simp add: delete_false(1)\<close>)
qed

lemma check_ssrf_config_frame:
  "check_ssrf_config env dns url cidrs s = (r, s') \<Longrightarrow> \<exists>c. s' = s\<lparr>ssrf_dns_cache := c\<rparr>"
proof -
  assume c: "check_ssrf_config env dns url cidrs s = (r, s')"
  obtain q t where q: "resolve_and_check env dns url cidrs s = (q, t)" by fastforce
  then have "s' = t" using c by (auto simp: check_ssrf_config_def split: sum.splits ssrf_deny.splits)
  with resolve_and_check_frame [OF q] show ?thesis by blast
qed

lemma coherent_frame [simp]:
  "coherent e0 (s\<lparr>ssrf_dns_cache := c\<rparr>) = coherent e0 s"
  "coherent e0 (s\<lparr>pinned_clients := p\<rparr>) = coherent e0 s"
  by (simp_all add: coherent_def)

text \<open>
  A provider handler either stops before its write, having touched the DNS cache at most, or
  ends with one write.
\<close>

lemma create_provider_cases:
  obtains (none) c where "snd (handle_create_provider env dns alnum parse rid input s) = s\<lparr>ssrf_dns_cache := c\<rparr>"
  | (run) p r s2 c where
      "run_db_write env (insert_provider (re_db env) p) (s\<lparr>ssrf_dns_cache := c\<rparr>) = (r, s2)"
      "snd (handle_create_provider env dns alnum parse rid input s) =
         (case db_or_http env r of Inl e \<Rightarrow> s2
          | Inr v \<Rightarrow> audit_log env rid ''create'' ''provider'' (prov_id v) s2)"
proof (cases "http_err env
        (and_then (validate_string (cp_name input) ''name'' 128 ident_chars) (\<lambda>name.
         and_then (checked_base_url alnum parse (cp_base_url input)) (\<lambda>url. Inr (name, url))))")
  case (Inl e)
  then have "snd (handle_create_provider env dns alnum parse rid input s) = s\<lparr>ssrf_dns_cache := ssrf_dns_cache s\<rparr>"
    by (simp add: handle_create_provider_def)
  then show ?thesis by (rule none)
next
  case (Inr nu)
  obtain n u where nu: "nu = (n, u)" by (cases nu)
  obtain q s1 where q: "check_ssrf_config env dns u (ssrf_allowed_cidrs (security (config s))) s = (q, s1)"
    by fastforce
  then obtain c where c: "s1 = s\<lparr>ssrf_dns_cache := c\<rparr>" using check_ssrf_config_frame by blast
  let ?key = "Option.bind (cp_api_key input) (\<lambda>k. if trim k = [] then None else Some (trim k))"
  let ?p = "\<lparr>prov_id = [], prov_name = n, prov_type = cp_type input, prov_base_url = url_text u,
    prov_api_key = ?key, prov_enabled = cp_enabled input, prov_created_at = unix_epoch,
    prov_updated_at = unix_epoch\<rparr>"
  obtain r s2 where w: "run_db_write env (insert_provider (re_db env) ?p) s1 = (r, s2)" by fastforce
  note eq = handle_create_provider_def [of env dns alnum parse rid input s, unfolded Inr nu sum.case
      prod.case q]
  show ?thesis
  proof (cases "(\<exists>e. q = Inl e) \<or> (case ?key of Some k \<Rightarrow> length k > 512 | None \<Rightarrow> False)")
    case True
    then have "snd (handle_create_provider env dns alnum parse rid input s) = s1"
      unfolding eq by (cases q) (simp_all add: Let_def)
    then show ?thesis using none c by blast
  next
    case False
    then obtain v where "q = Inr v" by (cases q) auto
    with False have "snd (handle_create_provider env dns alnum parse rid input s) =
         (case db_or_http env r of Inl e \<Rightarrow> s2
          | Inr v \<Rightarrow> audit_log env rid ''create'' ''provider'' (prov_id v) s2)"
      unfolding eq by (simp add: Let_def w split: sum.split)
    then show ?thesis using run w c by blast
  qed
qed

lemma coherent_create_provider_handler:
  assumes "coherent e0 s" and "re_out env \<noteq> TimedOut"
  shows "coherent e0 (snd (handle_create_provider env dns alnum parse rid input s))"
proof (cases rule: create_provider_cases [of env dns alnum parse rid input s])
  case (run p r s2 c)
  have coh: "coherent e0 (s\<lparr>ssrf_dns_cache := c\<rparr>)" using assms(1) by simp
  show ?thesis
    unfolding run(2)
    by (rule coherent_write(1) [OF coh assms(2) run(1) op_rollback(1)], assumption)
      (use coherent_create_provider [OF coh refl, where e = "re_db env"] in simp)
qed (use assms(1) in simp)

lemma update_provider_cases:
  obtains (none) c where "snd (handle_update_provider env dns alnum parse rid i input s) = s\<lparr>ssrf_dns_cache := c\<rparr>"
  | (run) u r s2 c where "pu_id u = i"
      "run_db_write env (update_provider (re_db env) u) (s\<lparr>ssrf_dns_cache := c\<rparr>) = (r, s2)"
      "snd (handle_update_provider env dns alnum parse rid i input s) =
         (case db_or_http env r of Inl e \<Rightarrow> s2
          | Inr v \<Rightarrow> audit_log env rid ''update'' ''provider'' i (forget_provider i s2))"
proof (cases "http_err env
        (and_then (map_transpose (\<lambda>n. validate_string n ''name'' 128 ident_chars) (up_name input)) (\<lambda>name.
         and_then (map_transpose (checked_base_url alnum parse) (up_base_url input)) (\<lambda>url.
         and_then (update_api_key_field (up_api_key input)) (\<lambda>key. Inr (name, url, key)))))")
  case (Inl e)
  then have "snd (handle_update_provider env dns alnum parse rid i input s) = s\<lparr>ssrf_dns_cache := ssrf_dns_cache s\<rparr>"
    by (simp add: handle_update_provider_def)
  then show ?thesis by (rule none)
next
  case (Inr nuk)
  obtain n u k where nuk: "nuk = (n, u, k)" by (cases nuk)
  obtain q s1 where q: "(case u of
      Some u \<Rightarrow> check_ssrf_config env dns u (ssrf_allowed_cidrs (security (config s))) s
    | None \<Rightarrow> (Inr (), s)) = (q, s1)" by fastforce
  have "\<exists>c. s1 = s\<lparr>ssrf_dns_cache := c\<rparr>"
  proof (cases u)
    case None
    then have "s1 = s\<lparr>ssrf_dns_cache := ssrf_dns_cache s\<rparr>" using q by simp
    then show ?thesis by blast
  qed (use q check_ssrf_config_frame in auto)
  then obtain c where c: "s1 = s\<lparr>ssrf_dns_cache := c\<rparr>" by blast
  let ?u = "\<lparr>pu_id = i, pu_name = n, pu_type = up_type input, pu_base_url = map_option url_text u,
    pu_api_key = k, pu_enabled = up_enabled input\<rparr>"
  obtain r s2 where w: "run_db_write env (update_provider (re_db env) ?u) s1 = (r, s2)" by fastforce
  note eq = handle_update_provider_def [of env dns alnum parse rid i input s, unfolded Inr nuk sum.case
      prod.case q]
  show ?thesis
  proof (cases q)
    case (Inl e)
    then have "snd (handle_update_provider env dns alnum parse rid i input s) = s1"
      unfolding eq by simp
    then show ?thesis using none c by blast
  next
    case (Inr v)
    then have "snd (handle_update_provider env dns alnum parse rid i input s) =
         (case db_or_http env r of Inl e \<Rightarrow> s2
          | Inr v \<Rightarrow> audit_log env rid ''update'' ''provider'' i (forget_provider i s2))"
      unfolding eq by (simp add: w split: sum.split)
    then show ?thesis using run [of ?u] w c by simp
  qed
qed

lemma coherent_update_provider_handler:
  assumes "coherent e0 s" and "re_out env \<noteq> TimedOut"
  shows "coherent e0 (snd (handle_update_provider env dns alnum parse rid i input s))"
proof (cases rule: update_provider_cases [of env dns alnum parse rid i input s])
  case (run u r s2 c)
  have coh: "coherent e0 (s\<lparr>ssrf_dns_cache := c\<rparr>)" using assms(1) by simp
  show ?thesis
    unfolding run(3)
    by (rule coherent_write(1) [OF coh assms(2) run(2) op_rollback(2)], assumption)
      (use coherent_change_provider [OF coh refl, of "UpdateProvider u" i, where e = "re_db env"] run(1)
        in simp)
qed (use assms(1) in simp)

lemma coherent_delete_provider_handler:
  assumes "coherent e0 s" and "re_out env \<noteq> TimedOut"
  shows "coherent e0 (snd (handle_delete_provider env rid i s))"
proof -
  obtain r s1 where m: "run_db_write env (delete_provider (re_db env) i) s = (r, s1)" by fastforce
  then have out: "snd (handle_delete_provider env rid i s) = (case db_or_http env r of Inl e \<Rightarrow> s1
      | Inr v \<Rightarrow> if \<not> v then s1 else audit_log env rid ''delete'' ''provider'' i (forget_provider i s1))"
    by (simp add: handle_delete_provider_def split: sum.split)
  show ?thesis
    unfolding out
    by (rule coherent_write(1) [OF assms m op_rollback(3)], assumption)
      (use coherent_change_provider [OF assms(1) refl, of "DeleteProvider i" i, where e = "re_db env"]
          assms(1) in \<open>simp add: delete_false(2)\<close>)
qed

lemma coherent_api_key_handlers:
  assumes "coherent e0 s" and "re_out env \<noteq> TimedOut"
  shows "coherent e0 (snd (handle_create_api_key env rid name expires s))"
    and "coherent e0 (snd (handle_delete_api_key env rid kid s))"
    and "coherent e0 (snd (handle_update_api_key env rid kid nm expires en s))"
proof -
  have k: "coherent e0 (s\<lparr>db := exec_op e op (db s)\<rparr>)"
      "coherent e0 (s\<lparr>db := exec_op e op (db s), api_key_cache := a, key_revision := b\<rparr>)"
      "coherent e0 (s\<lparr>db := exec_op e op (db s), api_key_cache := a, negative_key_cache := n, key_revision := b\<rparr>)"
    if "(\<exists>n x. op = InsertApiKey n x) \<or> (\<exists>u. op = UpdateApiKey u) \<or> (\<exists>k. op = DeleteApiKey k)" for e op a n b
    using coherent_key_write [OF assms(1) refl that, where e = e] by (simp_all add: coherent_def)
  obtain r s1 where d: "run_db_write env (delete_api_key (re_db env) kid) s = (r, s1)" by fastforce
  then have out: "snd (handle_delete_api_key env rid kid s) = (case db_or_http env r of Inl e \<Rightarrow> s1
      | Inr hash \<Rightarrow> audit_log env rid ''delete'' ''api_key'' kid
          (s1\<lparr>api_key_cache := dm_remove hash (api_key_cache s1), key_revision := key_revision s1 + 1\<rparr>))"
    by (simp add: handle_delete_api_key_def split: sum.split)
  show "coherent e0 (snd (handle_delete_api_key env rid kid s))"
    unfolding out
    by (rule coherent_write(1) [OF assms d op_rollback(9)], assumption)
      (use k(2) [where op = "DeleteApiKey kid" and e = "re_db env"] in simp)
  show "coherent e0 (snd (handle_create_api_key env rid name expires s))"
  proof (cases "snd (handle_create_api_key env rid name expires s) = s")
    case False
    then obtain n x r s1 where c: "run_db_write env (insert_api_key (re_db env) n x) s = (r, s1)"
      and out: "snd (handle_create_api_key env rid name expires s) = (case db_or_internal env r of
          Inl e \<Rightarrow> s1 | Inr v \<Rightarrow> audit_log env rid ''create'' ''api_key'' (key_id (fst v)) s1)"
      by (auto simp: handle_create_api_key_def split: sum.splits prod.splits)
    show ?thesis
      unfolding out
      by (rule coherent_write(2) [OF assms c op_rollback(7)], assumption)
        (use k(1) [where op = "InsertApiKey n x" and e = "re_db env"] in simp)
  qed (use assms(1) in simp)
  show "coherent e0 (snd (handle_update_api_key env rid kid nm expires en s))"
  proof (cases "snd (handle_update_api_key env rid kid nm expires en s) = s")
    case False
    then obtain u r s1 where c: "run_db_write env (update_api_key (re_db env) u) s = (r, s1)"
      and out: "snd (handle_update_api_key env rid kid nm expires en s) = (case db_or_http env r of
          Inl e \<Rightarrow> s1 | Inr v \<Rightarrow> audit_log env rid ''update'' ''api_key'' kid
            (s1\<lparr>api_key_cache := dm_remove (snd v) (api_key_cache s1),
                negative_key_cache := dm_remove (snd v) (negative_key_cache s1),
                key_revision := key_revision s1 + 1\<rparr>))"
      by (auto simp: handle_update_api_key_def split: sum.splits prod.splits)
    show ?thesis
      unfolding out
      by (rule coherent_write(1) [OF assms c op_rollback(8)], assumption)
        (use k(3) [where op = "UpdateApiKey u" and e = "re_db env"] in simp)
  qed (use assms(1) in simp)
qed

section \<open>Calls\<close>

text \<open>
  What is decided outside the program while one call is served: the run environment, the name
  resolution, Unicode's alphanumerics and the URL parser.
\<close>

record call_env =
  ce_run :: run_env
  ce_dns :: resolver
  ce_alnum :: "string \<Rightarrow> bool"
  ce_parse :: url_parse

datatype call =
    CreateModel string create_model_request
  | UpdateModelOf string string update_model_request
  | DeleteModelOf string string
  | CreateProvider string create_provider_request
  | UpdateProviderOf string string update_provider_request
  | DeleteProviderOf string string
  | CreateApiKey string string "int option"
  | UpdateApiKeyOf string string "string option" "int option" "bool option"
  | DeleteApiKeyOf string string
  | Resolve string
  | Cleanup

fun serve :: "call_env \<times> call \<Rightarrow> app_state \<Rightarrow> app_state" where
  "serve (e, CreateModel rid x) s = snd (handle_create_model (ce_run e) rid x s)"
| "serve (e, UpdateModelOf rid n x) s = snd (handle_update_model (ce_run e) rid n x s)"
| "serve (e, DeleteModelOf rid n) s = snd (handle_delete_model (ce_run e) rid n s)"
| "serve (e, CreateProvider rid x) s =
     snd (handle_create_provider (ce_run e) (ce_dns e) (ce_alnum e) (ce_parse e) rid x s)"
| "serve (e, UpdateProviderOf rid i x) s =
     snd (handle_update_provider (ce_run e) (ce_dns e) (ce_alnum e) (ce_parse e) rid i x s)"
| "serve (e, DeleteProviderOf rid i) s = snd (handle_delete_provider (ce_run e) rid i s)"
| "serve (e, CreateApiKey rid n x) s = snd (handle_create_api_key (ce_run e) rid n x s)"
| "serve (e, UpdateApiKeyOf rid k n x b) s = snd (handle_update_api_key (ce_run e) rid k n x b s)"
| "serve (e, DeleteApiKeyOf rid k) s = snd (handle_delete_api_key (ce_run e) rid k s)"
| "serve (e, Resolve n) s =
     (case resolve_model_and_provider (ce_run e) n s of
        (Inr (m, p), s') \<Rightarrow> snd (cached_upstream (ce_run e) p s')
      | (Inl _, s') \<Rightarrow> s')"
| "serve (e, Cleanup) s = cleanup_tick (re_out (ce_run e)) (re_clk (ce_run e)) s"

lemma res_spec_row:
  assumes "res_spec e0 (abs_db d) n = Some (m, p)"
  shows "\<exists>row. sp_providers (abs_db d) (prov_id p) = Some row \<and> p = row_to_provider e0 row"
proof -
  obtain mr pr where rows: "sp_models (abs_db d) n = Some mr"
      "sp_providers (abs_db d) (mr_provider_id mr) = Some pr" "prov_id p = mr_provider_id mr"
    using res_spec_provider [OF assms] by blast
  moreover from this have "p = row_to_provider e0 pr"
    using assms by (simp add: res_spec_def split: if_splits)
  ultimately show ?thesis by auto
qed

lemma resolve_says:
  assumes "coherent e0 s" and "env_from_ts (re_db env) = env_from_ts e0"
    and "resolve_model_and_provider env n s = (Inr (m, p), s')"
  shows "res_spec e0 (abs_db (db s)) n = Some (m, p) \<and> db s' = db s"
  using assms by (cases rule: resolve_cases) auto

lemma coherent_use:
  assumes "coherent e0 s" and "env_from_ts (re_db env) = env_from_ts e0"
    and "resolve_model_and_provider env n s = (Inr (m, p), s')"
  shows "fst (cached_upstream env p s') = create_provider p"
    and "coherent e0 (snd (cached_upstream env p s'))"
proof -
  obtain row where row: "sp_providers (abs_db (db s')) (prov_id p) = Some row" "p = row_to_provider e0 row"
    using res_spec_row resolve_says [OF assms] by metis
  note up = cached_upstream_spec [OF coherent_resolve [OF assms] row]
  from up [OF prod.collapse [symmetric]]
  show "fst (cached_upstream env p s') = create_provider p"
    "coherent e0 (snd (cached_upstream env p s'))" by blast+
qed

lemma retain_fresh_wf: "dm_wf m \<Longrightarrow> dm_wf (retain_fresh f now ttl m)"
  by (simp add: retain_fresh_def)

lemma coherent_cleanup:
  assumes "coherent e0 s"
  shows "coherent e0 (cleanup_tick out now s)"
  using coherent_wf [OF assms]
  by (cases "out = Panicked"; intro coherent_same_db [OF assms])
    (auto simp: cleanup_tick_def cleanup_caches_def Let_def retain_fresh_get retain_fresh_wf)

lemma coherent_serve:
  assumes "coherent e0 s" and "re_out (ce_run e) \<noteq> TimedOut"
    and "env_from_ts (re_db (ce_run e)) = env_from_ts e0"
  shows "coherent e0 (serve (e, c) s)"
proof (cases c)
  case (Resolve n)
  obtain r s' where r: "resolve_model_and_provider (ce_run e) n s = (r, s')" by fastforce
  show ?thesis
  proof (cases r)
    case (Inl x)
    then show ?thesis using Resolve r coherent_resolve [OF assms(1,3) r] by simp
  next
    case (Inr mp)
    then show ?thesis
      using Resolve r coherent_use(2) [OF assms(1,3)] by (cases mp) simp
  qed
qed (use assms coherent_cleanup in \<open>simp_all add: coherent_create_model_handler
  coherent_update_model_handler coherent_delete_model_handler coherent_create_provider_handler
  coherent_update_provider_handler coherent_delete_provider_handler coherent_api_key_handlers\<close>)

lemma coherent_new: "db_wf d \<Longrightarrow> coherent e0 (app_state_new ac now cfg d)"
  by (simp add: coherent_def app_state_new_def dash_simps)

lemma coherent_serves:
  assumes "coherent e0 s" and "\<forall>(e, c) \<in> set calls. re_out (ce_run e) \<noteq> TimedOut
      \<and> env_from_ts (re_db (ce_run e)) = env_from_ts e0"
  shows "coherent e0 (fold serve calls s)"
  using assms
proof (induction calls arbitrary: s)
  case (Cons ec calls)
  then show ?case by (cases ec) (auto intro!: Cons.IH coherent_serve)
qed simp

section \<open>Property\<close>

text \<open>
  C4: The caches on the proxy path are transparent. From a fresh server on a well-formed
  database, after any sequence of admin requests, resolutions and cleanup passes (each blocking
  task completing or panicking, but none outliving its timeout), resolving a model name answers
  what the uncached lookup of the current database answers: the same model and provider rows,
  or the unknown-model error; and the upstream used for it is built from that provider row. So
  a deleted, disabled or re-pointed model or provider is never served from a cache.
\<close>

theorem caches_transparent:
  assumes "db_wf d"
    and "\<forall>(e, c) \<in> set calls. re_out (ce_run e) \<noteq> TimedOut
      \<and> env_from_ts (re_db (ce_run e)) = env_from_ts (re_db env)"
    and "re_out env = Completed" and "env_fault (re_db env) 0 = None"
    and "s = fold serve calls (app_state_new ac now cfg d)"
  shows "fst (resolve_model_and_provider env n s) =
      (case resolve_model (re_db env) n (db s) of
         Inl e \<Rightarrow> Inl (into_response (re_rid env) (from_db_error e))
       | Inr None \<Rightarrow> Inl (unknown_model env n)
       | Inr (Some mp) \<Rightarrow> Inr mp)
    \<and> (\<forall>m p. fst (resolve_model_and_provider env n s) = Inr (m, p) \<longrightarrow>
        fst (cached_upstream env p (snd (resolve_model_and_provider env n s))) = create_provider p)"
proof -
  let ?e = "re_db env"
  have coh: "coherent ?e s"
    unfolding assms(5) by (rule coherent_serves [OF coherent_new [OF assms(1)] assms(2)])
  have "\<exists>x. resolve_model ?e n (db s) = Inr x"
    using assms(4) by (simp add: resolve_model_def sql_def)
  then have db: "resolve_model ?e n (db s) = Inr (res_spec ?e (abs_db (db s)) n)"
    using resolve_model_spec [OF _ coherent_wf(1) [OF coh] refl] by blast
  obtain r s' where r: "resolve_model_and_provider env n s = (r, s')" by fastforce
  have "r = (case res_spec ?e (abs_db (db s)) n of None \<Rightarrow> Inl (unknown_model env n) | Some mp \<Rightarrow> Inr mp)"
    using coh refl r by (cases rule: resolve_cases) (use assms(3,4) in auto)
  moreover have "fst (cached_upstream env p s') = create_provider p" if "r = Inr (m, p)" for m p
    using coherent_use(1) [OF coh refl] r that by blast
  ultimately show ?thesis by (auto simp: db r split: option.split)
qed

theorem caches_transparent_witness:
  "fst (resolve_model_and_provider demo_run ''gpt'' (fold serve
     [(\<lparr>ce_run = demo_run, ce_dns = (\<lambda>_. Inr []), ce_alnum = (\<lambda>_. False), ce_parse = (\<lambda>_. None)\<rparr>, Resolve ''gpt''),
      (\<lparr>ce_run = demo_run, ce_dns = (\<lambda>_. Inr []), ce_alnum = (\<lambda>_. False), ce_parse = (\<lambda>_. None)\<rparr>,
         DeleteModelOf ''r'' ''gpt'')]
     demo_state)) = Inl (unknown_model demo_run ''gpt'')"
proof -
  let ?e = "\<lparr>ce_run = demo_run, ce_dns = (\<lambda>_. Inr []), ce_alnum = (\<lambda>_. False), ce_parse = (\<lambda>_. None)\<rparr>"
  let ?calls = "[(?e, Resolve ''gpt''), (?e, DeleteModelOf ''r'' ''gpt'')]"
  have out: "re_out demo_run = Completed" "env_fault (re_db demo_run) 0 = None"
    by (simp_all add: demo_run_def demo_env_def)
  have gone: "resolve_model (re_db demo_run) ''gpt'' (db (fold serve ?calls demo_state)) = Inr None"
    by code_simp
  have "\<forall>(e, c) \<in> set ?calls. re_out (ce_run e) \<noteq> TimedOut
      \<and> env_from_ts (re_db (ce_run e)) = env_from_ts (re_db demo_run)"
    by (simp add: demo_run_def)
  from caches_transparent [OF demo_db_wf this out refl, where ac = direct_matcher and now = 0
        and cfg = default_config and n = "''gpt''"]
  show ?thesis by (simp only: demo_state_def [symmetric] gone) simp
qed

end
