(* ===== verification/Exec.thy ===== *)
theory Exec
  imports Sse_Facts Caches Auth
begin

text \<open>
  \<open>src/src/handlers/proxy/exec.rs\<close>: sending a request to an upstream and turning what comes back
  into the client's response. What the upstream does is the argument \<open>ex\<close>: whether the
  connection fails or the headers are late, the status line, the headers, and the body as the
  list of what reading it yields (after the list the body has ended; \<open>Stalled\<close> is a read that
  the timeout cuts off). The HTTP client (\<open>reqwest\<close>) decodes a body's text as UTF-8 with
  replacement, as it is built without its \<open>charset\<close> feature.
\<close>

section \<open>Text\<close>

definition cont_byte :: "char \<Rightarrow> bool" where
  "cont_byte c = in_range 0x80 0xBF c"

definition second_byte :: "char \<Rightarrow> char \<Rightarrow> bool" where
  "second_byte a b =
     (if byte a = 0xE0 then in_range 0xA0 0xBF b
      else if byte a = 0xED then in_range 0x80 0x9F b
      else if byte a = 0xF0 then in_range 0x90 0xBF b
      else if byte a = 0xF4 then in_range 0x80 0x8F b
      else cont_byte b)"

text \<open>The length of the character a text starts with, or of the ill-formed bytes replaced at once.\<close>

fun utf8_step :: "string \<Rightarrow> nat \<times> bool" where
  "utf8_step [] = (1, False)"
| "utf8_step (a # s) =
     (if byte a < 0x80 then (1, True)
      else if in_range 0xC2 0xDF a then
        (case s of b # _ \<Rightarrow> if cont_byte b then (2, True) else (1, False) | [] \<Rightarrow> (1, False))
      else if in_range 0xE0 0xEF a then
        (case s of
           b # r \<Rightarrow> if second_byte a b then
             (case r of c # _ \<Rightarrow> if cont_byte c then (3, True) else (2, False) | [] \<Rightarrow> (2, False))
             else (1, False)
         | [] \<Rightarrow> (1, False))
      else if in_range 0xF0 0xF4 a then
        (case s of
           b # r \<Rightarrow> if second_byte a b then
             (case r of
                c # q \<Rightarrow> if cont_byte c then
                  (case q of d # _ \<Rightarrow> if cont_byte d then (4, True) else (3, False) | [] \<Rightarrow> (3, False))
                  else (2, False)
              | [] \<Rightarrow> (2, False))
             else (1, False)
         | [] \<Rightarrow> (1, False))
      else (1, False))"

lemma utf8_step_pos: "0 < fst (utf8_step s)"
  by (cases s) (auto split: list.split)

text \<open>\<open>String::from_utf8_lossy\<close>\<close>

function utf8_lossy :: "string \<Rightarrow> string" where
  "utf8_lossy s =
     (if s = [] then []
      else (case utf8_step s of (n, ok) \<Rightarrow>
        (if ok then take n s else [CHR 0xEF, CHR 0xBF, CHR 0xBD]) @ utf8_lossy (drop n s)))"
  by pat_completeness auto
termination
proof (relation "measure length", goal_cases)
  case (2 s n ok)
  then have "0 < n" using utf8_step_pos [of s] by (metis fst_conv)
  with 2 show ?case by (cases s) auto
qed simp

declare utf8_lossy.simps [simp del]

fun floor_char_boundary :: "string \<Rightarrow> nat \<Rightarrow> nat" where
  "floor_char_boundary s 0 = 0"
| "floor_char_boundary s (Suc n) =
     (if Suc n \<ge> length s then length s
      else if is_continuation (s ! Suc n) then floor_char_boundary s n else Suc n)"

definition truncate_text :: "string \<Rightarrow> string" where
  "truncate_text s =
     (if length s > 512 then take (floor_char_boundary s 512) s @ ''...'' else s)"

section \<open>Headers\<close>

definition is_forwardable_upstream_header :: "string \<Rightarrow> bool" where
  "is_forwardable_upstream_header name =
     (let lower = to_ascii_lowercase name
      in if \<not> starts_with lower ''x-'' then lower = ''retry-after''
         else \<not> starts_with lower ''x-forwarded-''
           \<and> lower \<notin> {''x-real-ip'', ''x-api-key'', ''x-api-token'', ''x-auth-token'', ''x-authorization''})"

definition collect_x_headers :: "(string \<times> string) list \<Rightarrow> (string \<times> string) list" where
  "collect_x_headers headers = filter (\<lambda>(name, _). is_forwardable_upstream_header name) headers"

definition redirect_error :: "run_env \<Rightarrow> http_error" where
  "redirect_error env = into_response (re_rid env) (upstream_error 502
     (''Ait does not support redirect policy. If the provider'' @ [CHR 0x27] @ ''s base_url '' @
      ''has changed, please update the provider configuration.''))"

section \<open>What an upstream does\<close>

datatype body_item = Chunk string | ReadError string | Stalled

record answer =
  an_status :: nat
  an_status_text :: string
  an_headers :: "(string \<times> string) list"
  an_body :: "body_item list"

datatype exec_outcome = ConnectFailed string | HeadersLate | Answered answer

text \<open>The outcome, and the monotonic clock when the headers are there and when the handler returns.\<close>

record exchange =
  xc_outcome :: exec_outcome
  xc_head_at :: instant
  xc_end_at :: instant

definition is_redirection :: "nat \<Rightarrow> bool" where
  "is_redirection status = (300 \<le> status \<and> status < 400)"

definition is_success :: "nat \<Rightarrow> bool" where
  "is_success status = (200 \<le> status \<and> status < 300)"

definition usize_max :: nat where
  "usize_max = 2 ^ 64 - 1"

definition response_cap :: "app_state \<Rightarrow> nat" where
  "response_cap s =
     (if max_response_body_bytes (proxy_cfg (config s)) = 0 then usize_max
      else max_response_body_bytes (proxy_cfg (config s)))"

datatype body_result = BodyDone string | BodyRefused | BodyTimeout

fun read_body :: "nat \<Rightarrow> string \<Rightarrow> body_item list \<Rightarrow> body_result" where
  "read_body max_body body [] = BodyDone body"
| "read_body max_body body (Chunk chunk # items) =
     (if min (length body + length chunk) usize_max > max_body then BodyRefused
      else read_body max_body (body @ chunk) items)"
| "read_body max_body body (ReadError e # items) = BodyRefused"
| "read_body max_body body (Stalled # items) = BodyTimeout"

section \<open>Answering at once\<close>

definition upstream_failure :: "run_env \<Rightarrow> nat \<Rightarrow> string \<Rightarrow> http_error" where
  "upstream_failure env status msg = into_response (re_rid env) (upstream_error status msg)"

definition proxy_non_streamed ::
    "run_env \<Rightarrow> from_slice \<Rightarrow> to_vec \<Rightarrow> exchange \<Rightarrow> app_state \<Rightarrow> upstream \<Rightarrow> string \<Rightarrow> instant
      \<Rightarrow> http_error + (string response \<times> usage_tokens \<times> int \<times> nat)" where
  "proxy_non_streamed env fs tv ex s up mname start =
     (case xc_outcome ex of
        ConnectFailed e \<Rightarrow> Inl (upstream_failure env 502 ''upstream request failed'')
      | HeadersLate \<Rightarrow> Inl (upstream_failure env 408 ''upstream request timed out'')
      | Answered response \<Rightarrow>
          (let ttfb = as_millis (elapsed (xc_head_at ex) start);
               status = an_status response
           in if is_redirection status then Inl (redirect_error env)
              else
                (let headers = fold (\<lambda>(n, v). header_insert n v) (collect_x_headers (an_headers response))
                       [(''content-type'', ''application/json'')]
                 in case read_body (response_cap s) [] (an_body response) of
                      BodyTimeout \<Rightarrow> Inl (upstream_failure env 408 ''upstream read timeout'')
                    | BodyRefused \<Rightarrow> Inl (upstream_failure env 502 ''upstream response too large'')
                    | BodyDone bytes \<Rightarrow>
                        if \<not> is_success status then
                          Inl (into_response (re_rid env)
                            (with_detail (upstream_error status ''upstream request failed'')
                              (truncate_text (utf8_lossy bytes))))
                        else
                          (let body = transform_response fs tv up bytes mname
                           in Inr (\<lparr>resp_status = 200, resp_headers = headers, resp_body = body\<rparr>,
                                   parse_usage fs body, ttfb, length bytes)))))"

section \<open>Streaming\<close>

text \<open>\<open>response.text()\<close> under the timeout (\<open>None\<close>): a read error gives the empty text.\<close>

fun error_text :: "string \<Rightarrow> body_item list \<Rightarrow> string option" where
  "error_text body [] = Some (utf8_lossy body)"
| "error_text body (Chunk chunk # items) = error_text (body @ chunk) items"
| "error_text body (ReadError e # items) = Some []"
| "error_text body (Stalled # items) = None"

definition sse_new ::
    "app_state \<Rightarrow> instant \<Rightarrow> upstream \<Rightarrow> string \<Rightarrow> proxy_event \<Rightarrow> instant \<Rightarrow> sse_stream" where
  "sse_new s now up mname event start =
     \<lparr>ss_inner = [], ss_buf = [], ss_scanned = 0, ss_upstream = up, ss_model_name = mname,
      ss_user_tokens = None, ss_event = event, ss_start = start, ss_done = False,
      ss_idle_timeout = from_secs (sse_idle_timeout_secs (proxy_cfg (config s))),
      ss_idle_deadline = now + from_secs (sse_idle_timeout_secs (proxy_cfg (config s))),
      ss_max_duration =
        (if sse_max_duration_secs (proxy_cfg (config s)) = 0
         then from_secs (2 ^ 64 - 1) + 999999999
         else from_secs (sse_max_duration_secs (proxy_cfg (config s)))),
      ss_total_bytes = 0, ss_max_bytes = response_cap s\<rparr>"

text \<open>What the log entry says of a request before its outcome is known.\<close>

record proxy_info =
  pi_request_id :: string
  pi_key_name :: "string option"
  pi_model_name :: string
  pi_provider_name :: string
  pi_prompt_tokens :: "int option"
  pi_endpoint :: string
  pi_upstream_model :: string
  pi_provider_type :: string
  pi_client_ip :: "string option"

definition proxy_event_of :: "datetime \<Rightarrow> proxy_info \<Rightarrow> string \<Rightarrow> bool \<Rightarrow> proxy_event" where
  "proxy_event_of utc info status streaming =
     \<lparr>pe_timestamp = utc, pe_request_id = pi_request_id info, pe_api_key_name = pi_key_name info,
      pe_model_name = pi_model_name info, pe_provider_name = pi_provider_name info,
      pe_prompt_tokens = pi_prompt_tokens info, pe_completion_tokens = None, pe_total_tokens = None,
      pe_cached_tokens = None, pe_latency_ms = 0, pe_status = status, pe_endpoint = pi_endpoint info,
      pe_is_streaming = streaming, pe_ttft_ms = None, pe_upstream_model = pi_upstream_model info,
      pe_provider_type = pi_provider_type info, pe_response_body_size = None,
      pe_error_message = None, pe_client_ip = pi_client_ip info\<rparr>"

text \<open>\<open>guard.event.error_message = Some(msg)\<close>\<close>

definition guard_error :: "string \<Rightarrow> log_guard \<Rightarrow> log_guard" where
  "guard_error msg g = g\<lparr>lg_event := (lg_event g)\<lparr>pe_error_message := Some msg\<rparr>\<rparr>"

text \<open>A finalized guard goes out of scope on every early return.\<close>

definition finalize_and_drop ::
    "instant \<Rightarrow> usage_tokens \<Rightarrow> string \<Rightarrow> log_guard \<Rightarrow> event_log \<Rightarrow> event_log" where
  "finalize_and_drop now usage status g log =
     (case guard_finalize now usage status g log of (g1, log1) \<Rightarrow> guard_drop now g1 log1)"

definition proxy_streamed ::
    "run_env \<Rightarrow> exchange \<Rightarrow> app_state \<Rightarrow> upstream \<Rightarrow> proxy_info \<Rightarrow> instant \<Rightarrow> event_log
      \<Rightarrow> (http_error + sse_stream response) \<times> event_log" where
  "proxy_streamed env ex s up info start log =
     (let base_event = proxy_event_of (re_utc env) info ''200'' True;
          guard = guard_new base_event start;
          now = xc_end_at ex
      in case xc_outcome ex of
           ConnectFailed e \<Rightarrow>
             (Inl (upstream_failure env 502 ''upstream request failed''),
              finalize_and_drop now no_usage ''502'' (guard_error e guard) log)
         | HeadersLate \<Rightarrow>
             (Inl (upstream_failure env 408 ''upstream request timed out''),
              finalize_and_drop now no_usage ''408'' (guard_error ''upstream request timed out'' guard) log)
         | Answered response \<Rightarrow>
             (let status = an_status response
              in if is_redirection status then
                   (Inl (redirect_error env),
                    finalize_and_drop now no_usage ''502''
                      (guard_error (''upstream returned redirect '' @ an_status_text response) guard) log)
                 else if \<not> is_success status then
                   (case error_text [] (an_body response) of
                      None \<Rightarrow> (Inl (upstream_failure env 408 ''upstream read timeout''), guard_drop now guard log)
                    | Some body \<Rightarrow>
                        (Inl (upstream_failure env status ''upstream request failed''),
                         finalize_and_drop now no_usage (show_nat status)
                           (guard_error (truncate_text body) guard) log))
                 else
                   (Inr \<lparr>resp_status = 200,
                         resp_headers = [(''content-type'', ''text/event-stream''), (''cache-control'', ''no-cache'')]
                           @ collect_x_headers (an_headers response),
                         resp_body = sse_new s (xc_head_at ex) up (pi_model_name info) base_event start\<rparr>,
                    guard_drop now (suppress_drop_log guard) log)))"

end
