(* ===== verification/Proxy_Api.thy ===== *)
theory Proxy_Api
  imports Exec
begin

text \<open>
  \<open>src/src/handlers/proxy/mod.rs\<close>: the OpenAI-compatible endpoints. \<open>proxy_request\<close> gives the
  answer, the state after it and the requests that were sent to an upstream, each with the
  pinned client that sent it; the answer \<open>None\<close> is a panic. The name of \<open>ProxyEvent\<close>'s
  constructor in \<open>log_event\<close> is \<open>Proxy\<close>.
\<close>

section \<open>What the environment decides\<close>

record proxy_env =
  px_run :: run_env
  px_dns :: resolver
  px_from :: from_slice
  px_to :: to_vec
  px_build :: url_builder
  px_client_built :: bool
  px_scanned_at :: instant
  px_world :: "pinned \<Rightarrow> http_request \<Rightarrow> exchange"

datatype proxy_body = Full string | Streamed sse_stream

type_synonym proxy_answer = "(http_error + proxy_body response) option"
type_synonym sent = "(pinned \<times> http_request) list"

definition fail_with :: "run_env \<Rightarrow> ait_error \<Rightarrow> app_state \<Rightarrow> proxy_answer \<times> app_state \<times> sent" where
  "fail_with env e s = (Some (Inl (into_response (re_rid env) e)), s, [])"

definition parse_body :: "proxy_env \<Rightarrow> string \<Rightarrow> http_error + (json \<times> nat)" where
  "parse_body e body =
     (let body_len = length body
      in case px_from e body of
           None \<Rightarrow> Inl (into_response (re_rid (px_run e)) (bad_request ''invalid request body''))
         | Some parsed \<Rightarrow> Inr (parsed, body_len))"

definition count_prompt_tokens :: "nat \<Rightarrow> nat \<Rightarrow> int option" where
  "count_prompt_tokens body_len divisor =
     (if body_len = 0 then None else Some (int body_len div int divisor))"

section \<open>Blocking sensitive data\<close>

definition dlp_rejection ::
    "proxy_env \<Rightarrow> string \<Rightarrow> json \<Rightarrow> api_key_context \<Rightarrow> ip_addr option \<Rightarrow> string \<Rightarrow> string
      \<Rightarrow> int \<Rightarrow> app_state \<Rightarrow> http_error \<times> app_state" where
  "dlp_rejection e matched body api_key client_ip request_id upstream_path elapsed_ms s =
     (let reason = ''blocked by DLP: sensitive value '' @ quoted (mask_sensitive_value matched 3 2) @ '' matched'';
          event = \<lparr>pe_timestamp = re_utc (px_run e), pe_request_id = request_id,
            pe_api_key_name = ctx_name api_key,
            pe_model_name = (case Option.bind (jget ''model'' body) as_str of
               Some m \<Rightarrow> m | None \<Rightarrow> ''blocked''),
            pe_provider_name = ''unknown'', pe_prompt_tokens = None, pe_completion_tokens = None,
            pe_total_tokens = None, pe_cached_tokens = None, pe_latency_ms = elapsed_ms,
            pe_status = ''400'', pe_endpoint = upstream_path, pe_is_streaming = False,
            pe_ttft_ms = None, pe_upstream_model = ''blocked'', pe_provider_type = ''unknown'',
            pe_response_body_size = None, pe_error_message = Some reason,
            pe_client_ip = map_option show_ip client_ip\<rparr>
      in (into_response (re_rid (px_run e)) (bad_request ''request blocked by sensitive data rule''),
          send_log (Proxy event) s))"

section \<open>Forwarding\<close>

definition log_with :: "(event_log \<Rightarrow> 'a \<times> event_log) \<Rightarrow> app_state \<Rightarrow> 'a \<times> app_state" where
  "log_with f s = (case f (log_sent s) of (a, log) \<Rightarrow> (a, s\<lparr>log_sent := log\<rparr>))"

text \<open>After the pinned client is at hand: the streamed or the plain exchange, with its log guard.\<close>

definition answer_streamed ::
    "run_env \<Rightarrow> exchange \<Rightarrow> upstream \<Rightarrow> proxy_info \<Rightarrow> instant \<Rightarrow> app_state
      \<Rightarrow> (http_error + proxy_body response) \<times> app_state" where
  "answer_streamed env ex up info start s =
     log_with (\<lambda>log. case proxy_streamed env ex s up info start log of
        (Inl err, log1) \<Rightarrow> (Inl err, log1)
      | (Inr r, log1) \<Rightarrow>
          (Inr \<lparr>resp_status = resp_status r, resp_headers = resp_headers r,
                resp_body = Streamed (resp_body r)\<rparr>, log1)) s"

definition answer_plain ::
    "run_env \<Rightarrow> from_slice \<Rightarrow> to_vec \<Rightarrow> exchange \<Rightarrow> upstream \<Rightarrow> proxy_info \<Rightarrow> instant \<Rightarrow> app_state
      \<Rightarrow> (http_error + proxy_body response) \<times> app_state" where
  "answer_plain env fs tv ex up info start s =
     (let guard = guard_new (proxy_event_of (re_utc env) info ''pending'' False) start;
          now = xc_end_at ex
      in case proxy_non_streamed env fs tv ex s up (pi_model_name info) start of
           Inr (r, usage, ttfb, body_size) \<Rightarrow>
             (let g = guard\<lparr>lg_event := (lg_event guard)\<lparr>pe_ttft_ms := Some ttfb,
                    pe_response_body_size := Some (wrap_i64 (int body_size))\<rparr>\<rparr>
              in (Inr \<lparr>resp_status = resp_status r, resp_headers = resp_headers r,
                       resp_body = Full (resp_body r)\<rparr>,
                  s\<lparr>log_sent := finalize_and_drop now usage ''200'' g (log_sent s)\<rparr>))
         | Inl err \<Rightarrow>
             (let msg = (case err_detail (snd err) of Some d \<Rightarrow> d | None \<Rightarrow> err_message (snd err))
              in (Inl err, s\<lparr>log_sent := finalize_and_drop now no_usage (show_nat (fst err))
                    (guard_error msg guard) (log_sent s)\<rparr>)))"

definition proxy_forward ::
    "proxy_env \<Rightarrow> bool \<Rightarrow> upstream \<Rightarrow> proxy_info \<Rightarrow> instant \<Rightarrow> http_request \<Rightarrow> app_state
      \<Rightarrow> proxy_answer \<times> app_state \<times> sent" where
  "proxy_forward e stream up info start request s =
     (case check_ssrf (px_run e) (px_dns e) (req_url request)
             (ssrf_allowed_cidrs (security (config s))) s of
        (Inl err, s1) \<Rightarrow> (Some (Inl err), s1, [])
      | (Inr verified_ips, s1) \<Rightarrow>
          (case pinned_client (px_run e) (px_client_built e) (req_url request) verified_ips s1 of
             (Inl err, s2) \<Rightarrow> (Some (Inl err), s2, [])
           | (Inr client, s2) \<Rightarrow>
               (let ex = px_world e client request
                in case (if stream then answer_streamed (px_run e) ex up info start s2
                         else answer_plain (px_run e) (px_from e) (px_to e) ex up info start s2) of
                     (r, s3) \<Rightarrow> (Some r, s3, [(client, request)]))))"

definition proxy_request ::
    "proxy_env \<Rightarrow> api_key_context \<Rightarrow> ip_addr option \<Rightarrow> string \<Rightarrow> json \<Rightarrow> nat \<Rightarrow> string \<Rightarrow> app_state
      \<Rightarrow> proxy_answer \<times> app_state \<times> sent" where
  "proxy_request e api_key client_ip request_id body body_len upstream_path s =
     (let env = px_run e;
          start = re_clk env;
          max_request_body = max_request_body_bytes (proxy_cfg (config s))
      in if max_request_body > 0 \<and> body_len > max_request_body then
           fail_with env (bad_request ''request body exceeds max allowed size'') s
         else case (if sc_enabled (dlp s) then dlp_scan (dlp s) body else None) of
           Some matched \<Rightarrow>
             (case dlp_rejection e matched body api_key client_ip request_id upstream_path
                     (as_millis (elapsed (px_scanned_at e) start)) s of
                (err, s1) \<Rightarrow> (Some (Inl err), s1, []))
         | None \<Rightarrow>
             (case Option.bind (jget ''model'' body) as_str of
                None \<Rightarrow> fail_with env
                  (bad_request (''Missing '' @ quoted ''model'' @ '' field in request body'')) s
              | Some name \<Rightarrow>
                  (case resolve_model_and_provider env name s of
                     (Inl err, s1) \<Rightarrow> (Some (Inl err), s1, [])
                   | (Inr (model, provider), s1) \<Rightarrow>
                       if \<not> supports_endpoint (prov_type provider) upstream_path then
                         fail_with env (bad_request (''provider type '' @ quoted (to_db (prov_type provider))
                           @ '' does not support endpoint '' @ quoted upstream_path)) s1
                       else (case cached_upstream env provider s1 of
                         (up, s2) \<Rightarrow>
                           (let stream = ((case Option.bind (jget ''stream'' body) as_bool of
                                    Some b \<Rightarrow> b | None \<Rightarrow> False) \<and> proxy_stream (proxy_cfg (config s2)));
                                prompt_tokens = count_prompt_tokens body_len
                                  (prompt_token_divisor (proxy_cfg (config s2)))
                            in case build_request (px_to e) (px_build e) up body stream
                                      (model_upstream model) upstream_path of
                                 None \<Rightarrow> (None, s2, [])
                               | Some (Inl msg) \<Rightarrow> fail_with env (bad_request msg) s2
                               | Some (Inr request) \<Rightarrow>
                                   proxy_forward e stream up
                                     \<lparr>pi_request_id = request_id, pi_key_name = ctx_name api_key,
                                      pi_model_name = model_name model, pi_provider_name = prov_name provider,
                                      pi_prompt_tokens = prompt_tokens, pi_endpoint = upstream_path,
                                      pi_upstream_model = model_upstream model,
                                      pi_provider_type = to_db (prov_type provider),
                                      pi_client_ip = map_option show_ip client_ip\<rparr>
                                     start request s2)))))"

section \<open>Endpoints\<close>

definition proxy_endpoint ::
    "string \<Rightarrow> proxy_env \<Rightarrow> api_key_context \<Rightarrow> ip_addr option \<Rightarrow> string \<Rightarrow> string \<Rightarrow> app_state
      \<Rightarrow> proxy_answer \<times> app_state \<times> sent" where
  "proxy_endpoint upstream_path e api_key client_ip request_id body s =
     (case parse_body e body of
        Inl err \<Rightarrow> (Some (Inl err), s, [])
      | Inr (parsed, body_len) \<Rightarrow>
          proxy_request e api_key client_ip request_id parsed body_len upstream_path s)"

definition chat_completions where
  "chat_completions = proxy_endpoint ''/chat/completions''"

definition completions where
  "completions = proxy_endpoint ''/completions''"

definition embeddings where
  "embeddings = proxy_endpoint ''/embeddings''"

definition responses where
  "responses = proxy_endpoint ''/responses''"

definition health :: "datetime \<Rightarrow> app_state \<Rightarrow> json" where
  "health utc s =
     (if health_detail (server (config s)) then
        (let total_secs = nat (timestamp (max 0 (utc - start_time s)));
             hours = total_secs div 3600;
             mins = (total_secs mod 3600) div 60;
             secs = total_secs mod 60
         in Object
              [(''start_time'', Number (Integer (timestamp (start_time s)))),
               (''status'', String ''ok''),
               (''uptime'', String (show_nat hours @ ''h'' @ show_nat mins @ ''m'' @ show_nat secs @ ''s'')),
               (''uptime_secs'', Number (Integer (int total_secs))),
               (''version'', String ''0.2.1'')])
      else Object [(''status'', String ''ok'')])"

text \<open>The second statement of one blocking task sees the driver's next failure.\<close>

definition next_statement :: "db_env \<Rightarrow> db_env" where
  "next_statement env = env\<lparr>env_fault := (\<lambda>n. env_fault env (Suc n))\<rparr>"

definition model_entry :: "(string \<times> string) list \<Rightarrow> model \<Rightarrow> json" where
  "model_entry provider_names m =
     Object [(''created'', Number (Integer (timestamp (model_created_at m)))),
       (''id'', String (model_name m)), (''object'', String ''model''),
       (''owned_by'', String (case map_of (rev provider_names) (model_provider_id m) of
          Some n \<Rightarrow> n | None \<Rightarrow> ''unknown''))]"

definition list_models_proxy :: "run_env \<Rightarrow> app_state \<Rightarrow> http_error + json" where
  "list_models_proxy env s =
     and_then (db_or_internal env (run_db_read env (\<lambda>d.
         and_then (list_models (re_db env) d) (\<lambda>m.
         and_then (list_providers (next_statement (re_db env)) d) (\<lambda>p. Inr (m, p)))) s))
       (\<lambda>(ms, ps).
         (let provider_names = map (\<lambda>p. (prov_id p, prov_name p)) ps
          in Inr (Object [(''data'', Array (map (model_entry provider_names) (filter model_enabled ms))),
                 (''object'', String ''list'')])))"

end
