(* ===== verification/Proxy_Facts.thy ===== *)
theory Proxy_Facts
  imports Proxy_Api
begin

text \<open>
  What the proxy path guarantees: nothing leaves the server that was not checked, nothing of an
  upstream's error text or private headers reaches a client, every forwarded request leaves one
  log entry, and no request makes the handler panic.
\<close>

section \<open>The parts of a request\<close>

lemma build_request_total:
  assumes "Option.bind (jget ''model'' body) as_str = Some name"
  shows "build_request tv bld up body stream um path \<noteq> None"
proof -
  obtain v where "jget ''model'' body = Some v" "as_str v = Some name"
    using assms by (auto simp: Option.bind_eq_Some_conv)
  then have "jget ''model'' body = Some (String name)" by (cases v) auto
  then obtain m0 where "body = Object m0" using jget_Some_object by blast
  then obtain m where "request_body body stream um path = Some (Object m)"
    by (simp add: request_body_object)
  then show ?thesis by (simp add: build_request_def finalize_request_def Let_def split: sum.split)
qed

text \<open>Where a request is sent, everything before it succeeded.\<close>

lemma proxy_forward_sent:
  assumes "proxy_forward e stream up info start req s = (a, s', sent)"
  obtains (stopped) err where "a = Some (Inl err)" "sent = []" "log_sent s' = log_sent s"
  | (forwarded) ips s1 client s2 r where
      "check_ssrf (px_run e) (px_dns e) (req_url req) (ssrf_allowed_cidrs (security (config s))) s = (Inr ips, s1)"
      "pinned_client (px_run e) (px_client_built e) (req_url req) ips s1 = (Inr client, s2)"
      "sent = [(client, req)]" "a = Some r" "log_sent s2 = log_sent s" "config s2 = config s"
      "(if stream then answer_streamed (px_run e) (px_world e client req) up info start s2
        else answer_plain (px_run e) (px_from e) (px_to e) (px_world e client req) up info start s2) = (r, s')"
proof -
  have c: "log_sent s1 = log_sent s \<and> config s1 = config s"
    if "check_ssrf (px_run e) (px_dns e) (req_url req) (ssrf_allowed_cidrs (security (config s))) s = (q, s1)"
    for q s1
    using that resolve_and_check_frame [of "px_run e" "px_dns e" "req_url req"]
    by (fastforce simp: check_ssrf_def split: prod.splits)
  have p: "log_sent s2 = log_sent s1 \<and> config s2 = config s1"
    if "pinned_client (px_run e) (px_client_built e) (req_url req) ips s1 = (q, s2)" for ips s1 q s2
    using that by (auto simp: pinned_client_def Let_def split: option.splits if_splits)
  obtain q s1 where q: "check_ssrf (px_run e) (px_dns e) (req_url req)
      (ssrf_allowed_cidrs (security (config s))) s = (q, s1)" by fastforce
  show ?thesis
  proof (cases q)
    case (Inl err)
    then have "a = Some (Inl err)" "s' = s1" "sent = []" using assms q by (simp_all add: proxy_forward_def)
    then show ?thesis using stopped c [OF q] by simp
  next
    case (Inr ips)
    obtain r2 s2 where r2: "pinned_client (px_run e) (px_client_built e) (req_url req) ips s1 = (r2, s2)"
      by fastforce
    show ?thesis
    proof (cases r2)
      case (Inl err)
      then have "a = Some (Inl err)" "s' = s2" "sent = []"
        using assms q r2 Inr by (simp_all add: proxy_forward_def)
      then show ?thesis using stopped c [OF q] p [OF r2] by simp
    next
      case client: (Inr client)
      obtain r s3 where r: "(if stream then answer_streamed (px_run e) (px_world e client req) up info start s2
          else answer_plain (px_run e) (px_from e) (px_to e) (px_world e client req) up info start s2) = (r, s3)"
        by fastforce
      then have "a = Some r" "s' = s3" "sent = [(client, req)]"
        using assms q r2 Inr client by (simp_all add: proxy_forward_def)
      with forwarded [OF q [unfolded Inr] r2 [unfolded client]] r c [OF q] p [OF r2] show ?thesis by simp
    qed
  qed
qed

lemma resolve_frame:
  "resolve_model_and_provider env n s = (r, s') \<Longrightarrow>
     log_sent s' = log_sent s \<and> config s' = config s \<and> pinned_clients s' = pinned_clients s \<and> dlp s' = dlp s"
  by (auto simp: resolve_model_and_provider_def split: if_splits option.splits sum.splits prod.splits)

lemma cached_upstream_frame:
  "cached_upstream env p s = (up, s') \<Longrightarrow>
     log_sent s' = log_sent s \<and> config s' = config s \<and> pinned_clients s' = pinned_clients s \<and> dlp s' = dlp s"
  by (auto simp: cached_upstream_def Let_def split: if_splits option.splits prod.splits)

definition info_of ::
    "api_key_context \<Rightarrow> ip_addr option \<Rightarrow> string \<Rightarrow> nat \<Rightarrow> string \<Rightarrow> model \<Rightarrow> provider \<Rightarrow> app_state \<Rightarrow> proxy_info" where
  "info_of api_key client_ip request_id body_len path m p s =
     \<lparr>pi_request_id = request_id, pi_key_name = ctx_name api_key, pi_model_name = model_name m,
      pi_provider_name = prov_name p,
      pi_prompt_tokens = count_prompt_tokens body_len (prompt_token_divisor (proxy_cfg (config s))),
      pi_endpoint = path, pi_upstream_model = model_upstream m,
      pi_provider_type = to_db (prov_type p), pi_client_ip = map_option show_ip client_ip\<rparr>"

definition wants_stream :: "json \<Rightarrow> app_state \<Rightarrow> bool" where
  "wants_stream body s \<longleftrightarrow> Option.bind (jget ''stream'' body) as_bool = Some True \<and> proxy_stream (proxy_cfg (config s))"

lemma wants_stream_eq:
  "((case Option.bind (jget ''stream'' body) as_bool of Some b \<Rightarrow> b | None \<Rightarrow> False)
     \<and> proxy_stream (proxy_cfg (config s))) = wants_stream body s"
  by (auto simp: wants_stream_def split: option.split)

text \<open>A request is refused before it is forwarded, or everything up to there succeeded.\<close>

lemma proxy_request_cases:
  assumes "proxy_request e ctx ip rid body n path s = (a, s', sent)"
  obtains (refused) err where "a = Some (Inl err)" "sent = []"
      "log_sent s' = log_sent s \<or> (sc_enabled (dlp s) \<and> dlp_scan (dlp s) body \<noteq> None)"
  | (accepted) name m p s1 up s2 req where
      "max_request_body_bytes (proxy_cfg (config s)) = 0 \<or> n \<le> max_request_body_bytes (proxy_cfg (config s))"
      "\<not> sc_enabled (dlp s) \<or> dlp_scan (dlp s) body = None"
      "Option.bind (jget ''model'' body) as_str = Some name"
      "resolve_model_and_provider (px_run e) name s = (Inr (m, p), s1)"
      "supports_endpoint (prov_type p) path"
      "cached_upstream (px_run e) p s1 = (up, s2)"
      "build_request (px_to e) (px_build e) up body (wants_stream body s2) (model_upstream m) path = Some (Inr req)"
      "proxy_forward e (wants_stream body s2) up (info_of ctx ip rid n path m p s2) (re_clk (px_run e)) req s2
         = (a, s', sent)"
proof -
  let ?env = "px_run e"
  note def = proxy_request_def [of e ctx ip rid body n path s, unfolded Let_def wants_stream_eq]
  consider (big) "0 < max_request_body_bytes (proxy_cfg (config s)) \<and> max_request_body_bytes (proxy_cfg (config s)) < n"
    | (dlp) w where "sc_enabled (dlp s)" "dlp_scan (dlp s) body = Some w"
        "\<not> (0 < max_request_body_bytes (proxy_cfg (config s)) \<and> max_request_body_bytes (proxy_cfg (config s)) < n)"
    | (clean) "max_request_body_bytes (proxy_cfg (config s)) = 0 \<or> n \<le> max_request_body_bytes (proxy_cfg (config s))"
        "\<not> sc_enabled (dlp s) \<or> dlp_scan (dlp s) body = None"
    by (metis not_gr_zero not_le option.exhaust)
  then show ?thesis
  proof cases
    case big
    then have "\<exists>err. a = Some (Inl err)" "s' = s" "sent = []"
      using assms by (auto simp: def fail_with_def)
    then show ?thesis using refused by blast
  next
    case (dlp w)
    then have "\<exists>err. a = Some (Inl err)" "sent = []"
      using assms by (auto simp: def dlp_rejection_def Let_def split: prod.splits)
    then show ?thesis using refused dlp by blast
  next
    case clean
    have big: "(0 < max_request_body_bytes (proxy_cfg (config s)) \<and> max_request_body_bytes (proxy_cfg (config s)) < n) = False"
      using clean(1) by auto
    have nodlp: "(if sc_enabled (dlp s) then dlp_scan (dlp s) body else None) = None" using clean(2) by simp
    note def = def [unfolded big nodlp if_False option.case]
    show ?thesis
    proof (cases "Option.bind (jget ''model'' body) as_str")
      case None
      then have "\<exists>err. a = Some (Inl err)" "s' = s" "sent = []"
        using assms unfolding def by (auto simp: fail_with_def)
      then show ?thesis using refused by blast
    next
      case (Some name)
      note def = def [unfolded Some option.case]
      obtain r s1 where r: "resolve_model_and_provider ?env name s = (r, s1)" by fastforce
      note fr = resolve_frame [OF r]
      show ?thesis
      proof (cases r)
        case (Inl err)
        then have "a = Some (Inl err)" "s' = s1" "sent = []" using assms r unfolding def by simp_all
        then show ?thesis using refused fr by simp
      next
        case (Inr mp)
        obtain m p where mp: "mp = (m, p)" by (cases mp)
        obtain up s2 where up: "cached_upstream ?env p s1 = (up, s2)" by fastforce
        note fu = cached_upstream_frame [OF up]
        note def = def [unfolded r Inr mp prod.case sum.case up]
        show ?thesis
        proof (cases "supports_endpoint (prov_type p) path")
          case False
          then have "\<exists>err. a = Some (Inl err)" "s' = s1" "sent = []"
            using assms unfolding def by (auto simp: fail_with_def)
          then show ?thesis using refused fr by auto
        next
          case True
          obtain b where b: "build_request (px_to e) (px_build e) up body (wants_stream body s2)
              (model_upstream m) path = Some b"
            using build_request_total [OF Some] by blast
          show ?thesis
          proof (cases b)
            case (Inl msg)
            then have "\<exists>err. a = Some (Inl err)" "s' = s2" "sent = []"
              using assms True b unfolding def by (auto simp: fail_with_def)
            then show ?thesis using refused fr fu by auto
          next
            case req: (Inr req)
            have "proxy_forward e (wants_stream body s2) up (info_of ctx ip rid n path m p s2)
                (re_clk ?env) req s2 = (a, s', sent)"
              using assms True b req unfolding def by (simp add: info_of_def)
            then show ?thesis
              using accepted [OF clean Some r [unfolded Inr mp] True up b [unfolded req]] by blast
          qed
        qed
      qed
    qed
  qed
qed

section \<open>Logging\<close>

lemma finalize_and_drop_logs: "\<exists>e. finalize_and_drop now usage status g log = log @ [Proxy e]"
  by (simp add: finalize_and_drop_def guard_finalize_def guard_drop_def log_proxy_def Let_def)

lemma guard_drop_logs: "\<exists>e. guard_drop now (guard_new ev start) log = log @ [Proxy e]"
  by (simp add: guard_drop_def guard_new_def log_proxy_def)

lemma guard_drop_suppressed [simp]: "guard_drop now (suppress_drop_log g) log = log"
  by (simp add: guard_drop_def suppress_drop_log_def)

lemma sse_new_ok: "sse_inv (sse_new s now up m ev start)" "\<not> ss_done (sse_new s now up m ev start)"
  by (simp_all add: sse_new_def sse_inv_def scan_ok_def)

text \<open>The two ways an exchange ends: an error or a plain answer is logged, a stream is handed on.\<close>

lemma proxy_streamed_cases:
  assumes "proxy_streamed env ex s up info start log = (r, log')"
  obtains (failed) err ev where "r = Inl err" "log' = log @ [Proxy ev]"
  | (opened) resp now ev where "r = Inr resp" "log' = log"
      "resp_body resp = sse_new s now up (pi_model_name info) ev start"
proof (cases "xc_outcome ex")
  case (ConnectFailed msg)
  then show ?thesis
    using assms failed finalize_and_drop_logs
    by (fastforce simp: proxy_streamed_def Let_def)
next
  case HeadersLate
  then show ?thesis
    using assms failed finalize_and_drop_logs
    by (fastforce simp: proxy_streamed_def Let_def)
next
  case (Answered resp)
  show ?thesis
  proof (cases "is_redirection (an_status resp) \<or> \<not> is_success (an_status resp)")
    case True
    then have "(\<exists>err. r = Inl err) \<and> (\<exists>ev. log' = log @ [Proxy ev])"
      using assms Answered finalize_and_drop_logs guard_drop_logs
      by (fastforce simp: proxy_streamed_def Let_def split: if_splits option.splits)
    then show ?thesis using failed by blast
  next
    case False
    let ?ev = "proxy_event_of (re_utc env) info ''200'' True"
    have "\<exists>resp. r = Inr resp \<and> log' = log
        \<and> resp_body resp = sse_new s (xc_head_at ex) up (pi_model_name info) ?ev start"
      using assms Answered False by (auto simp: proxy_streamed_def Let_def)
    then show ?thesis using opened by blast
  qed
qed

lemma answer_plain_logs:
  assumes "answer_plain env fs tv ex up info start s = (r, s')"
  shows "(\<exists>e. log_sent s' = log_sent s @ [Proxy e]) \<and> \<not> (\<exists>resp st. r = Inr resp \<and> resp_body resp = Streamed st)"
  using assms finalize_and_drop_logs
  by (fastforce simp: answer_plain_def Let_def split: sum.splits prod.splits)

lemma answer_streamed_logs:
  assumes "answer_streamed env ex up info start s = (r, s')"
  obtains (failed) err ev where "r = Inl err" "log_sent s' = log_sent s @ [Proxy ev]"
  | (opened) resp st where "r = Inr resp" "log_sent s' = log_sent s" "resp_body resp = Streamed st"
      "sse_inv st" "\<not> ss_done st"
proof -
  obtain q log' where q: "proxy_streamed env ex s up info start (log_sent s) = (q, log')" by fastforce
  from q show ?thesis
  proof (cases rule: proxy_streamed_cases)
    case (failed err ev)
    then have "r = Inl err" "log_sent s' = log_sent s @ [Proxy ev]"
      using assms q by (auto simp: answer_streamed_def log_with_def)
    then show ?thesis by (rule that(1))
  next
    case (opened resp now ev)
    have "r = Inr \<lparr>resp_status = resp_status resp, resp_headers = resp_headers resp,
        resp_body = Streamed (resp_body resp)\<rparr>" "log_sent s' = log_sent s"
      using opened(1,2) assms q by (auto simp: answer_streamed_def log_with_def)
    then show ?thesis using that(2) sse_new_ok opened(3) by simp
  qed
qed

section \<open>Pinned connections\<close>

lemma show_ip_nonempty: "show_ip ip \<noteq> []"
proof (cases ip)
  case (V4 x)
  then show ?thesis by (simp add: show_ipv4_def octets_def)
next
  case (V6 x)
  have "join_with '':'' (map (digits 16) (segments x)) \<noteq> []" by (simp add: segments_def)
  then show ?thesis using V6 by (simp add: show_ipv6_def Let_def split: prod.split)
qed

lemma join_nonempty: "xs \<noteq> [] \<Longrightarrow> [] \<notin> set xs \<Longrightarrow> join_with sep xs \<noteq> []"
  by (cases xs rule: list.exhaust) (simp, case_tac x22, auto)

lemma pin_key_nonempty:
  assumes "pin_key h p [] = pin_key h' p' ips" and "CHR '':'' \<notin> set h" and "CHR '':'' \<notin> set h'"
  shows "ips = []"
proof (rule ccontr)
  assume "ips \<noteq> []"
  let ?j = "\<lambda>ips. join_with '','' (map show_ip (sort ips))"
  have no: "CHR '':'' \<notin> set (show_nat n)" for n
    using digit_chars [of 10] by (auto simp: show_nat_def)
  have "show_nat p @ '':'' @ ?j [] = show_nat p' @ '':'' @ ?j ips"
    using assms(1) append_sep_eq [OF assms(2,3)] by (simp add: pin_key_def)
  then have "?j [] = ?j ips" using append_sep_eq [OF no no] by simp
  then have "?j ips = []" by simp
  moreover have "map show_ip (sort ips) \<noteq> []" using \<open>ips \<noteq> []\<close> by (metis Nil_is_map_conv length_0_conv length_sort)
  then have "?j ips \<noteq> []" using show_ip_nonempty by (intro join_nonempty) (auto dest: sym)
  ultimately show False by simp
qed

lemma pinned_client_nonempty:
  assumes "pinned_ok s" and "pinned_client env built url ips s = (Inr client, s')"
    and "url_host url = Some h" and "CHR '':'' \<notin> set (bare_host h)"
  shows "ips \<noteq> []"
proof
  assume e: "ips = []"
  let ?key = "pin_key (bare_host h) (case url_port url of Some p \<Rightarrow> p | None \<Rightarrow> 80) []"
  obtain c t where "dm_get (pinned_clients s) ?key = Some (c, t)"
    using assms(2,3) by (auto simp: pinned_client_def Let_def e split: option.splits if_splits)
  then obtain ips' port' where "CHR '':'' \<notin> set (pin_host c)" "ips' \<noteq> []" "?key = pin_key (pin_host c) port' ips'"
    using assms(1) unfolding pinned_ok_def by blast
  with pin_key_nonempty [OF this(3) assms(4) this(1)] show False by simp
qed

lemma answer_pinned:
  "answer_plain env fs tv ex up info start s = (r, s') \<Longrightarrow> pinned_clients s' = pinned_clients s"
  "answer_streamed env ex up info start s = (r, s') \<Longrightarrow> pinned_clients s' = pinned_clients s"
  by (auto simp: answer_plain_def answer_streamed_def log_with_def Let_def split: sum.splits prod.splits)

lemma pinned_ok_cong: "pinned_clients s' = pinned_clients s \<Longrightarrow> pinned_ok s' = pinned_ok s"
  by (simp add: pinned_ok_def)

section \<open>Properties\<close>

text \<open>A concrete environment: one upstream, which answers every request at once.\<close>

definition demo_url :: url where
  "demo_url = \<lparr>url_text = ''http://h/'', url_scheme = ''http'', url_host = Some ''h'', url_port = Some 80\<rparr>"

definition demo_answer :: answer where
  "demo_answer = \<lparr>an_status = 200, an_status_text = ''200 OK'',
     an_headers = [(''x-ratelimit'', ''9''), (''x-api-key'', ''k'')], an_body = [Chunk ''ok'']\<rparr>"

definition demo_exchange :: exchange where
  "demo_exchange = \<lparr>xc_outcome = Answered demo_answer, xc_head_at = 1, xc_end_at = 2\<rparr>"

definition demo_px :: proxy_env where
  "demo_px = \<lparr>px_run = demo_run, px_dns = (\<lambda>_. Inr [V4 0x08080808]), px_from = (\<lambda>_. None),
     px_to = (\<lambda>_. Inr ''{}''), px_build = (\<lambda>_ _ _. Inr demo_url), px_client_built = True,
     px_scanned_at = 0, px_world = (\<lambda>_ _. demo_exchange)\<rparr>"

definition demo_call :: "proxy_answer \<times> app_state \<times> sent" where
  "demo_call = proxy_request demo_px \<lparr>ctx_name = None\<rparr> None ''r'' (Object [(''model'', String ''gpt'')]) 20
     ''/chat/completions'' demo_state"

lemma demo_call_sent:
  "map (\<lambda>(c, q). (pin_host c, url_host (req_url q))) (snd (snd demo_call)) = [(''h'', Some ''h'')]"
  by code_simp

text \<open>
  C9: Every request that is forwarded leaves exactly one entry in the proxy log: a plain answer and
  every failure (connection, late headers, redirect, error status, oversized or stalled body)
  before the handler returns, a streamed answer once its stream has been polled however often
  and dropped. A request that is not forwarded writes none, unless a DLP rule blocked it.
\<close>

theorem proxy_logs_once:
  assumes "proxy_request e ctx ip rid body n path s = (Some r, s', sent)"
  shows "(sent = [] \<longrightarrow> log_sent s' = log_sent s \<or> sc_enabled (dlp s) \<and> dlp_scan (dlp s) body \<noteq> None)
    \<and> (sent \<noteq> [] \<longrightarrow> (case r of
        Inr resp \<Rightarrow> (case resp_body resp of
          Full _ \<Rightarrow> \<exists>ev. log_sent s' = log_sent s @ [Proxy ev]
        | Streamed st \<Rightarrow> \<forall>fs tv turns now ps st' log'.
            sse_run fs tv turns st (log_sent s') = (ps, st', log') \<longrightarrow>
              (\<exists>ev. sse_drop now st' log' = log_sent s @ [Proxy ev]))
      | Inl err \<Rightarrow> \<exists>ev. log_sent s' = log_sent s @ [Proxy ev]))"
  using assms
proof (cases rule: proxy_request_cases)
  case (accepted name m p s1 up s2 req)
  have log2: "log_sent s2 = log_sent s"
    using resolve_frame [OF accepted(4)] cached_upstream_frame [OF accepted(6)] by simp
  from accepted(8) show ?thesis
  proof (cases rule: proxy_forward_sent)
    case (forwarded ips s3 client s4 r')
    show ?thesis
    proof (cases "wants_stream body s2")
      case False
      then show ?thesis
        using forwarded log2 answer_plain_logs by (fastforce split: sum.split proxy_body.split)
    next
      case True
      then have "answer_streamed (px_run e) (px_world e client req) up (info_of ctx ip rid n path m p s2)
          (re_clk (px_run e)) s4 = (r, s')" using forwarded(4,7) by simp
      then show ?thesis
      proof (cases rule: answer_streamed_logs)
        case (failed err ev)
        then show ?thesis using forwarded(3,5) log2 by simp
      next
        case (opened resp st)
        have "\<exists>ev. sse_drop now st' log' = log_sent s @ [Proxy ev]"
          if "sse_run fs tv turns st (log_sent s') = (ps, st', log')" for fs tv turns now ps st' log'
          using run_inv [OF that opened(4,5)] opened(2) forwarded(5) log2
          by (auto simp: sse_drop_def finalize_log_def log_proxy_def Let_def split: if_splits)
        then show ?thesis using opened forwarded(3) by simp
      qed
    qed
  qed (use log2 in simp)
qed auto

theorem proxy_logs_once_witness:
  "\<exists>ev. log_sent (fst (snd demo_call)) = log_sent demo_state @ [Proxy ev]"
proof -
  have full: "case fst demo_call of Some (Inr r) \<Rightarrow> resp_body r = Full ''ok'' | _ \<Rightarrow> False" by code_simp
  then obtain r where r: "fst demo_call = Some (Inr r)" "resp_body r = Full ''ok''"
    by (auto split: option.splits sum.splits)
  have "demo_call = (Some (Inr r), fst (snd demo_call), snd (snd demo_call))"
    using r(1) by (metis prod.collapse)
  moreover have "snd (snd demo_call) \<noteq> []" using demo_call_sent by auto
  ultimately show ?thesis
    using proxy_logs_once [of demo_px "\<lparr>ctx_name = None\<rparr>" None "''r''" "Object [(''model'', String ''gpt'')]" 20
        "''/chat/completions''" demo_state "Inr r" "fst (snd demo_call)" "snd (snd demo_call)"] r(2)
    by (simp add: demo_call_def [symmetric])
qed




text \<open>
  C29: What an upstream writes in an error never reaches a client. Every error an exchange ends with
  has one of five fixed messages; the only thing in it that an upstream chooses is the status.
  The text itself is kept for the log.
\<close>

theorem upstream_text_hidden:
  assumes "proxy_non_streamed env fs tv ex s up m start = Inl err
    \<or> fst (proxy_streamed env ex s up info start log) = Inl err"
  shows "\<exists>msg code. client_view (snd err) = (msg, code, ''upstream_error'', re_rid env)
    \<and> msg \<in> {''upstream request failed'', ''upstream request timed out'', ''upstream read timeout'',
        ''upstream response too large'', err_message (snd (redirect_error env))}
    \<and> (code \<in> {408, 502} \<or> (\<exists>resp. xc_outcome ex = Answered resp \<and> code = an_status resp))"
  using assms
proof
  assume "proxy_non_streamed env fs tv ex s up m start = Inl err"
  then show ?thesis
    by (auto simp: proxy_non_streamed_def upstream_failure_def redirect_error_def error_defs client_view_def
        Let_def split: exec_outcome.splits if_splits body_result.splits)
next
  assume "fst (proxy_streamed env ex s up info start log) = Inl err"
  then show ?thesis
    by (auto simp: proxy_streamed_def upstream_failure_def redirect_error_def error_defs client_view_def
        Let_def split: exec_outcome.splits if_splits option.splits)
qed

theorem upstream_text_hidden_witness:
  "\<exists>msg code. client_view (snd (upstream_failure demo_run 502 ''upstream request failed''))
      = (msg, code, ''upstream_error'', re_rid demo_run)"
proof -
  let ?ex = "\<lparr>xc_outcome = ConnectFailed ''10.0.0.7 refused'', xc_head_at = 1, xc_end_at = 2\<rparr>"
  have "proxy_non_streamed demo_run (\<lambda>_. None) (\<lambda>_. Inl []) ?ex demo_state demo_upstream ''gpt'' 0
      = Inl (upstream_failure demo_run 502 ''upstream request failed'')"
    by (simp add: proxy_non_streamed_def)
  then show ?thesis using upstream_text_hidden [OF disjI1] by blast
qed

definition relayed :: "exec_outcome \<Rightarrow> (string \<times> string) list \<Rightarrow> bool" where
  "relayed out hs = (case out of
     Answered resp \<Rightarrow> list_all (\<lambda>(n, v). n \<in> {''content-type'', ''cache-control''}
       \<or> (n, v) \<in> set (an_headers resp) \<and> is_forwardable_upstream_header n) hs
   | _ \<Rightarrow> False)"

lemma fold_header_insert:
  "(n, v) \<in> set (fold (\<lambda>(n, v). header_insert n v) xs hs) \<Longrightarrow> (n, v) \<in> set xs \<or> (n, v) \<in> set hs"
proof (induction xs arbitrary: hs)
  case (Cons x xs)
  obtain a b where x: "x = (a, b)" by (cases x)
  from Cons.IH [of "header_insert a b hs"] Cons.prems show ?case by (auto simp: x header_insert_def)
qed simp

lemma forwardable_safe:
  assumes "is_forwardable_upstream_header n"
  shows "to_ascii_lowercase n \<notin> {''x-real-ip'', ''x-api-key'', ''x-api-token'', ''x-auth-token'',
      ''x-authorization'', ''authorization'', ''set-cookie'', ''content-type'', ''cache-control''}
    \<and> \<not> starts_with (to_ascii_lowercase n) ''x-forwarded-''"
  using assms by (auto simp: is_forwardable_upstream_header_def Let_def starts_with_def split: if_splits)

text \<open>
  A client sees only the headers the proxy means to relay: besides the content type and cache
  control, only \<open>retry-after\<close> and \<open>x-\<close> headers the upstream sent, and never a header that
  describes a network path or carries a credential or a cookie.
\<close>

theorem relayed_headers_safe:
  assumes "(\<exists>r u t b. proxy_non_streamed env fs tv ex s up m start = Inr (r, u, t, b) \<and> hs = resp_headers r)
    \<or> (\<exists>r. fst (proxy_streamed env ex s up info start log) = Inr r \<and> hs = resp_headers r)"
    and "(n, v) \<in> set hs"
  shows "n \<in> {''content-type'', ''cache-control''}
    \<or> (\<exists>resp. xc_outcome ex = Answered resp \<and> (n, v) \<in> set (an_headers resp)
        \<and> (to_ascii_lowercase n = ''retry-after'' \<or> starts_with (to_ascii_lowercase n) ''x-'')
        \<and> \<not> starts_with (to_ascii_lowercase n) ''x-forwarded-''
        \<and> to_ascii_lowercase n \<notin> {''x-real-ip'', ''x-api-key'', ''x-api-token'', ''x-auth-token'',
            ''x-authorization'', ''authorization'', ''set-cookie''})"
proof -
  have "relayed (xc_outcome ex) hs"
    using assms(1)
  proof
    assume "\<exists>r u t b. proxy_non_streamed env fs tv ex s up m start = Inr (r, u, t, b) \<and> hs = resp_headers r"
    then show ?thesis
      by (auto simp: relayed_def proxy_non_streamed_def Let_def list_all_iff collect_x_headers_def
          dest!: fold_header_insert split: exec_outcome.splits if_splits body_result.splits)
  next
    assume "\<exists>r. fst (proxy_streamed env ex s up info start log) = Inr r \<and> hs = resp_headers r"
    then show ?thesis
      by (auto simp: relayed_def proxy_streamed_def Let_def list_all_iff collect_x_headers_def
          split: exec_outcome.splits if_splits option.splits)
  qed
  moreover have "to_ascii_lowercase n = ''retry-after'' \<or> starts_with (to_ascii_lowercase n) ''x-''"
    if "is_forwardable_upstream_header n"
    using that by (auto simp: is_forwardable_upstream_header_def Let_def split: if_splits)
  ultimately show ?thesis
    using assms(2) forwardable_safe [of n]
    by (auto simp: relayed_def list_all_iff split: exec_outcome.splits)
qed

theorem relayed_headers_safe_witness:
  "(''x-ratelimit'', ''9'') \<in> set (an_headers demo_answer)"
proof -
  have "case proxy_non_streamed demo_run (\<lambda>_. None) (\<lambda>_. Inl []) demo_exchange demo_state demo_upstream ''gpt'' 0
     of Inr (r, u, t, b) \<Rightarrow> map_of (resp_headers r) ''x-ratelimit'' = Some ''9'' | Inl _ \<Rightarrow> False" by code_simp
  then obtain r u t b where r: "proxy_non_streamed demo_run (\<lambda>_. None) (\<lambda>_. Inl []) demo_exchange demo_state
      demo_upstream ''gpt'' 0 = Inr (r, u, t, b)" "(''x-ratelimit'', ''9'') \<in> set (resp_headers r)"
    by (auto dest: map_of_SomeD split: sum.splits prod.splits)
  then show ?thesis
    using relayed_headers_safe [OF disjI1, of demo_run "\<lambda>_. None" "\<lambda>_. Inl []" demo_exchange demo_state
        demo_upstream "''gpt''" 0 "resp_headers r" "''x-ratelimit''" "''9''"]
    by (auto simp: demo_exchange_def)
qed

lemma read_body_done:
  "read_body k b items = BodyDone r \<Longrightarrow>
     (\<exists>cs. items = map Chunk cs \<and> r = b @ concat cs) \<and> (k < usize_max \<and> length b \<le> k \<longrightarrow> length r \<le> k)"
proof (induction k b items rule: read_body.induct)
  case (2 k b c items)
  then have rec: "read_body k (b @ c) items = BodyDone r" "\<not> min (length b + length c) usize_max > k"
    by (auto split: if_splits)
  from "2.IH" [OF rec(2,1)] obtain cs where cs: "items = map Chunk cs" "r = (b @ c) @ concat cs" by blast
  have "Chunk c # items = map Chunk (c # cs)" "r = b @ concat (c # cs)" using cs by simp_all
  moreover have "k < usize_max \<and> length b \<le> k \<longrightarrow> length r \<le> k"
    using "2.IH" [OF rec(2,1)] rec(2) by auto
  ultimately show ?case by (metis (no_types))
qed auto

text \<open>
  A plain answer is the upstream's whole body or none of it: it is read to its end, in order, and
  is never larger than the configured limit; a body that is larger, breaks off or stalls is
  refused, with a fixed error.
\<close>

theorem plain_answer_whole:
  assumes "proxy_non_streamed env fs tv ex s up m start = Inr (r, usage, ttfb, len)"
    and "0 < max_response_body_bytes (proxy_cfg (config s))" "max_response_body_bytes (proxy_cfg (config s)) < usize_max"
  shows "\<exists>resp cs. xc_outcome ex = Answered resp \<and> is_success (an_status resp) \<and> an_body resp = map Chunk cs
    \<and> len = length (concat cs) \<and> len \<le> max_response_body_bytes (proxy_cfg (config s))
    \<and> resp_status r = 200 \<and> resp_body r = transform_response fs tv up (concat cs) m"
proof -
  obtain resp bytes where r: "xc_outcome ex = Answered resp" "is_success (an_status resp)"
      "read_body (response_cap s) [] (an_body resp) = BodyDone bytes" "len = length bytes"
      "resp_status r = 200" "resp_body r = transform_response fs tv up bytes m"
    using assms(1)
    by (auto simp: proxy_non_streamed_def Let_def split: exec_outcome.splits if_splits body_result.splits)
  have "response_cap s = max_response_body_bytes (proxy_cfg (config s))"
    using assms(2) by (simp add: response_cap_def)
  then show ?thesis using read_body_done [OF r(3)] r assms(3) by auto
qed

theorem plain_answer_whole_witness:
  "\<exists>r u t. proxy_non_streamed demo_run (\<lambda>_. None) (\<lambda>_. Inl []) demo_exchange demo_state demo_upstream ''gpt'' 0
      = Inr (r, u, t, 2) \<and> resp_body r = ''ok''"
proof -
  have "case proxy_non_streamed demo_run (\<lambda>_. None) (\<lambda>_. Inl []) demo_exchange demo_state demo_upstream ''gpt'' 0
     of Inr (r, u, t, b) \<Rightarrow> b = 2 | Inl _ \<Rightarrow> False" by code_simp
  then obtain r u t where r: "proxy_non_streamed demo_run (\<lambda>_. None) (\<lambda>_. Inl []) demo_exchange demo_state
      demo_upstream ''gpt'' 0 = Inr (r, u, t, 2)" by (auto split: sum.splits prod.splits)
  have cap: "0 < max_response_body_bytes (proxy_cfg (config demo_state))"
      "max_response_body_bytes (proxy_cfg (config demo_state)) < usize_max"
    by (simp_all add: default_config_def usize_max_def)
  obtain resp cs where "xc_outcome demo_exchange = Answered resp" "an_body resp = map Chunk cs"
      "resp_body r = transform_response (\<lambda>_. None) (\<lambda>_. Inl []) demo_upstream (concat cs) ''gpt''"
    using plain_answer_whole [OF r cap] by blast
  then have "resp_body r = ''ok''"
    by (auto simp: demo_exchange_def demo_answer_def transform_response_def Cons_eq_map_conv)
  with r show ?thesis by blast
qed

end
