(* ===== verification/Logger.thy ===== *)
theory Logger
  imports Db_Models "HOL-Library.Sublist"
begin

text \<open>
  \<open>src/src/db/logger.rs\<close> and \<open>src/src/db/logger/writes.rs\<close>: the bounded channel to the log worker,
  the worker's loop and its writes to DuckDB. A table is the list of its rows, a row the event it
  was appended from. Which statement of a batch fails is decided by \<open>df\<close> (\<open>df n\<close> for the \<open>n\<close>-th
  statement of the batch); a transaction that is not committed leaves the tables as they were.
  The watchdog only interrupts a statement that overruns, which is one of these failures.
\<close>

section \<open>The channel\<close>

text \<open>\<open>mpsc::sync_channel(cap)\<close> with room for at least one event; \<open>try_send\<close> drops on a full one.\<close>

record channel =
  ch_queue :: "log_event list"
  ch_cap :: nat

definition try_send :: "log_event \<Rightarrow> channel \<Rightarrow> bool \<times> channel" where
  "try_send e ch =
     (if length (ch_queue ch) < ch_cap ch then (True, ch\<lparr>ch_queue := ch_queue ch @ [e]\<rparr>)
      else (False, ch))"

record log_manager =
  lm_sender :: channel
  lm_loki :: "channel option"

definition log_any :: "log_event \<Rightarrow> log_manager \<Rightarrow> log_manager" where
  "log_any e lm =
     lm\<lparr>lm_loki := map_option (\<lambda>l. snd (try_send e l)) (lm_loki lm),
        lm_sender := snd (try_send e (lm_sender lm))\<rparr>"

definition lm_log_access :: "access_event \<Rightarrow> log_manager \<Rightarrow> log_manager" where
  "lm_log_access e = log_any (Access e)"

definition lm_log_proxy :: "proxy_event \<Rightarrow> log_manager \<Rightarrow> log_manager" where
  "lm_log_proxy e = log_any (Proxy e)"

definition lm_log_audit :: "audit_event \<Rightarrow> log_manager \<Rightarrow> log_manager" where
  "lm_log_audit e = log_any (Audit e)"

text \<open>
  \<open>signal_shutdown\<close>: one attempt every ten milliseconds for five seconds; \<open>frees\<close> says, attempt by
  attempt, how many events the worker has taken since the last one.
\<close>

fun signal_shutdown :: "nat list \<Rightarrow> channel \<Rightarrow> bool \<times> channel" where
  "signal_shutdown [] ch = try_send Shutdown ch"
| "signal_shutdown (n # ns) ch =
     (case try_send Shutdown ch of
        (True, ch1) \<Rightarrow> (True, ch1)
      | (False, ch1) \<Rightarrow> signal_shutdown ns (ch1\<lparr>ch_queue := drop n (ch_queue ch1)\<rparr>))"

section \<open>Writes\<close>

record log_db =
  access_log :: "access_event list"
  proxy_log :: "proxy_event list"
  audit_log_rows :: "audit_event list"

type_synonym driver_faults = "nat \<Rightarrow> bool"

fun accesses_of :: "log_event list \<Rightarrow> access_event list" where
  "accesses_of [] = []"
| "accesses_of (Access e # es) = e # accesses_of es"
| "accesses_of (_ # es) = accesses_of es"

fun proxies_of :: "log_event list \<Rightarrow> proxy_event list" where
  "proxies_of [] = []"
| "proxies_of (Proxy e # es) = e # proxies_of es"
| "proxies_of (_ # es) = proxies_of es"

fun audits_of :: "log_event list \<Rightarrow> audit_event list" where
  "audits_of [] = []"
| "audits_of (Audit e # es) = e # audits_of es"
| "audits_of (_ # es) = audits_of es"

text \<open>\<open>append_*\<close>: nothing is asked of the driver for an empty list.\<close>

definition append_ok :: "driver_faults \<Rightarrow> nat \<Rightarrow> 'e list \<Rightarrow> bool" where
  "append_ok df n es = (es = [] \<or> \<not> df n)"

definition flush_events :: "driver_faults \<Rightarrow> log_event list \<Rightarrow> log_db \<Rightarrow> bool \<times> log_db" where
  "flush_events df events d =
     (let access = accesses_of events; proxy = proxies_of events; audit = audits_of events
      in if df 0 then (False, d)
         else if append_ok df 1 access \<and> append_ok df 2 proxy \<and> append_ok df 3 audit then
           (if df 4 then (False, d)
            else (True, d\<lparr>access_log := access_log d @ access, proxy_log := proxy_log d @ proxy,
                          audit_log_rows := audit_log_rows d @ audit\<rparr>))
         else (False, d))"

definition day_nanos :: int where
  "day_nanos = 86400 * 1000000000"

text \<open>A \<open>TIMESTAMP\<close> column and a bound timestamp hold whole microseconds.\<close>

definition micros :: "datetime \<Rightarrow> int" where
  "micros t = t div 1000"

definition cleanup_expired :: "driver_faults \<Rightarrow> datetime \<Rightarrow> nat \<Rightarrow> log_db \<Rightarrow> log_db" where
  "cleanup_expired df now retention_days d =
     (let cutoff = now - int retention_days * day_nanos
      in d\<lparr>access_log := (if df 6 then access_log d
             else filter (\<lambda>r. \<not> micros (ae_timestamp r) < micros cutoff) (access_log d)),
           proxy_log := (if df 7 then proxy_log d
             else filter (\<lambda>r. \<not> micros (pe_timestamp r) < micros cutoff) (proxy_log d)),
           audit_log_rows := (if df 8 then audit_log_rows d
             else filter (\<lambda>r. \<not> micros (au_timestamp r) < micros cutoff) (audit_log_rows d))\<rparr>)"

section \<open>The worker\<close>

record worker =
  wk_buffer :: "log_event list"
  wk_flush_count :: "64 word"
  wk_db :: log_db
  wk_running :: bool

record worker_config =
  wc_flush_batch :: nat
  wc_retention_every :: nat
  wc_retention_days :: nat

definition flush_buffer :: "worker_config \<Rightarrow> driver_faults \<Rightarrow> datetime \<Rightarrow> worker \<Rightarrow> worker" where
  "flush_buffer cfg df now w =
     (case flush_events df (wk_buffer w) (wk_db w) of
        (True, d) \<Rightarrow>
          (let count = wk_flush_count w + 1
           in w\<lparr>wk_buffer := [], wk_flush_count := count,
                wk_db := (if wc_retention_every cfg > 0 \<and> unat count mod wc_retention_every cfg = 0
                  then cleanup_expired df now (wc_retention_days cfg) d else d)\<rparr>)
      | (False, d) \<Rightarrow> w\<lparr>wk_buffer := [], wk_db := d\<rparr>)"

text \<open>The final write before the worker returns: the batch is flushed, then checkpointed.\<close>

definition worker_exit :: "driver_faults \<Rightarrow> worker \<Rightarrow> worker" where
  "worker_exit df w =
     w\<lparr>wk_db := (if wk_buffer w \<noteq> [] then snd (flush_events df (wk_buffer w) (wk_db w)) else wk_db w),
       wk_buffer := [], wk_running := False\<rparr>"

datatype received = Got log_event | Quiet | Gone

fun is_shutdown :: "log_event \<Rightarrow> bool" where
  "is_shutdown Shutdown = True"
| "is_shutdown _ = False"

text \<open>
  One turn of the loop: what \<open>recv_timeout\<close> returned, then what \<open>try_recv\<close> drained. \<open>df\<close> has one
  fault function for each of the turn's writes.
\<close>

definition worker_turn ::
    "worker_config \<Rightarrow> (nat \<Rightarrow> driver_faults) \<Rightarrow> datetime \<Rightarrow> received \<Rightarrow> log_event list \<Rightarrow> worker \<Rightarrow> worker" where
  "worker_turn cfg dfs now first drained w =
     (if \<not> wk_running w then w
      else if first = Gone then worker_exit (dfs 0) w
      else
        (let w1 = (case first of
               Got e \<Rightarrow> if is_shutdown e then w else w\<lparr>wk_buffer := wk_buffer w @ [e]\<rparr>
             | _ \<Rightarrow> if wk_buffer w \<noteq> [] then flush_buffer cfg (dfs 0) now w else w);
             w2 = w1\<lparr>wk_buffer := wk_buffer w1 @ filter (\<lambda>e. \<not> is_shutdown e) drained\<rparr>;
             w3 = (if length (wk_buffer w2) \<ge> wc_flush_batch cfg then flush_buffer cfg (dfs 1) now w2 else w2)
         in if first = Got Shutdown \<or> Shutdown \<in> set drained then worker_exit (dfs 2) w3 else w3))"

text \<open>A run of the loop, with what it received.\<close>

record turn_input =
  ti_faults :: "nat \<Rightarrow> driver_faults"
  ti_now :: datetime
  ti_first :: received
  ti_drained :: "log_event list"

definition received_in :: "turn_input \<Rightarrow> log_event list" where
  "received_in t = (case ti_first t of
     Got e \<Rightarrow> e # ti_drained t | Quiet \<Rightarrow> ti_drained t | Gone \<Rightarrow> [])"

fun worker_loop :: "worker_config \<Rightarrow> turn_input list \<Rightarrow> worker \<Rightarrow> worker \<times> log_event list" where
  "worker_loop cfg [] w = (w, [])"
| "worker_loop cfg (t # ts) w =
     (if \<not> wk_running w then (w, [])
      else (case worker_loop cfg ts
              (worker_turn cfg (ti_faults t) (ti_now t) (ti_first t) (ti_drained t) w) of
        (w', es) \<Rightarrow> (w', received_in t @ es)))"

section \<open>What the tables hold\<close>

text \<open>The three tables read alike: a table's rows are the events of its kind.\<close>

datatype kind = AccessKind | ProxyKind | AuditKind

fun rows :: "kind \<Rightarrow> log_db \<Rightarrow> log_event list" where
  "rows AccessKind d = map Access (access_log d)"
| "rows ProxyKind d = map Proxy (proxy_log d)"
| "rows AuditKind d = map Audit (audit_log_rows d)"

fun of_kind :: "kind \<Rightarrow> log_event \<Rightarrow> bool" where
  "of_kind AccessKind (Access _) = True"
| "of_kind ProxyKind (Proxy _) = True"
| "of_kind AuditKind (Audit _) = True"
| "of_kind _ _ = False"

fun event_time :: "log_event \<Rightarrow> datetime" where
  "event_time (Access e) = ae_timestamp e"
| "event_time (Proxy e) = pe_timestamp e"
| "event_time (Audit e) = au_timestamp e"
| "event_time Shutdown = 0"

lemma parts_filter:
  "map Access (accesses_of es) = filter (of_kind AccessKind) es"
  "map Proxy (proxies_of es) = filter (of_kind ProxyKind) es"
  "map Audit (audits_of es) = filter (of_kind AuditKind) es"
proof -
  show "map Access (accesses_of es) = filter (of_kind AccessKind) es"
    by (induction es rule: accesses_of.induct) auto
  show "map Proxy (proxies_of es) = filter (of_kind ProxyKind) es"
    by (induction es rule: proxies_of.induct) auto
  show "map Audit (audits_of es) = filter (of_kind AuditKind) es"
    by (induction es rule: audits_of.induct) auto
qed

lemma filter_kind_shutdown:
  "filter (of_kind k) (filter (\<lambda>e. \<not> is_shutdown e) es) = filter (of_kind k) es"
proof -
  have "of_kind k e \<Longrightarrow> \<not> is_shutdown e" for e by (cases k; cases e) auto
  then show ?thesis by (auto intro!: filter_cong)
qed

text \<open>A batch is written as a whole or not at all.\<close>

lemma flush_events_rows:
  assumes "flush_events df es d = (ok, d')"
  shows "rows k d' = (if ok then rows k d @ filter (of_kind k) es else rows k d)"
proof (cases ok)
  case True
  then have "d' = d\<lparr>access_log := access_log d @ accesses_of es, proxy_log := proxy_log d @ proxies_of es,
      audit_log_rows := audit_log_rows d @ audits_of es\<rparr>"
    using assms by (auto simp: flush_events_def Let_def split: if_splits)
  then show ?thesis using True by (cases k) (simp_all add: parts_filter)
next
  case False
  then have "d' = d" using assms by (auto simp: flush_events_def Let_def split: if_splits)
  then show ?thesis using False by simp
qed

lemma flush_events_ok:
  "(\<And>n. \<not> df n) \<Longrightarrow> fst (flush_events df es d)"
  by (simp add: flush_events_def append_ok_def Let_def)

definition cutoff_of :: "worker_config \<Rightarrow> datetime \<Rightarrow> datetime" where
  "cutoff_of cfg now = now - int (wc_retention_days cfg) * day_nanos"

lemma cleanup_rows:
  "rows k (cleanup_expired df now (wc_retention_days cfg) d) = rows k d
   \<or> rows k (cleanup_expired df now (wc_retention_days cfg) d)
     = filter (\<lambda>e. \<not> micros (event_time e) < micros (cutoff_of cfg now)) (rows k d)"
  by (cases k) (auto simp: cleanup_expired_def cutoff_of_def Let_def filter_map comp_def)

definition holds :: "kind \<Rightarrow> worker \<Rightarrow> log_event list" where
  "holds k w = rows k (wk_db w) @ filter (of_kind k) (wk_buffer w)"

definition fresh :: "worker_config \<Rightarrow> datetime \<Rightarrow> log_event list \<Rightarrow> bool" where
  "fresh cfg now es \<longleftrightarrow> (\<forall>e \<in> set es. cutoff_of cfg now \<le> event_time e)"

lemma flush_buffer_holds:
  "subseq (holds k (flush_buffer cfg df now w)) (holds k w)"
  "(\<And>n. \<not> df n) \<Longrightarrow> fresh cfg now (holds k w) \<Longrightarrow> holds k (flush_buffer cfg df now w) = holds k w"
  "wk_buffer (flush_buffer cfg df now w) = []" "wk_running (flush_buffer cfg df now w) = wk_running w"
proof -
  obtain ok d where f: "flush_events df (wk_buffer w) (wk_db w) = (ok, d)" by fastforce
  note r = flush_events_rows [OF f, of k]
  let ?w = "flush_buffer cfg df now w"
  show "wk_buffer ?w = []" "wk_running ?w = wk_running w"
    by (simp_all add: flush_buffer_def f Let_def split: bool.split)
  have shape: "rows k (wk_db ?w) = rows k d
      \<or> ok \<and> rows k (wk_db ?w) = filter (\<lambda>e. \<not> micros (event_time e) < micros (cutoff_of cfg now)) (rows k d)"
    using cleanup_rows [of k df now cfg d] by (auto simp: flush_buffer_def f Let_def split: bool.split)
  have "subseq (rows k (wk_db ?w)) (rows k d)" using shape by auto
  moreover have "subseq (rows k d) (holds k w)" using r by (auto simp: holds_def intro: subseq_rev_drop_many)
  ultimately show "subseq (holds k ?w) (holds k w)"
    using subseq_order.order_trans by (simp add: holds_def \<open>wk_buffer ?w = []\<close>)
  show "holds k ?w = holds k w" if "\<And>n. \<not> df n" "fresh cfg now (holds k w)"
  proof -
    have "ok" using flush_events_ok [where df = df and es = "wk_buffer w" and d = "wk_db w", OF that(1)] f by simp
    then have "rows k d = holds k w" using r by (simp add: holds_def)
    moreover have "filter (\<lambda>e. \<not> micros (event_time e) < micros (cutoff_of cfg now)) (holds k w) = holds k w"
      using that(2) by (auto simp: fresh_def micros_def not_less intro!: filter_True zdiv_mono1)
    ultimately show ?thesis using shape by (auto simp: holds_def \<open>wk_buffer ?w = []\<close>)
  qed
qed

lemma worker_exit_holds:
  "subseq (holds k (worker_exit df w)) (holds k w)"
  "(\<And>n. \<not> df n) \<Longrightarrow> holds k (worker_exit df w) = holds k w"
  "wk_buffer (worker_exit df w) = []" "\<not> wk_running (worker_exit df w)"
proof -
  obtain ok d where f: "flush_events df (wk_buffer w) (wk_db w) = (ok, d)" by fastforce
  note r = flush_events_rows [OF f, of k]
  show "wk_buffer (worker_exit df w) = []" "\<not> wk_running (worker_exit df w)"
    by (simp_all add: worker_exit_def)
  show "subseq (holds k (worker_exit df w)) (holds k w)"
    using r by (auto simp: worker_exit_def holds_def f intro: subseq_rev_drop_many)
  show "holds k (worker_exit df w) = holds k w" if "\<And>n. \<not> df n"
    using flush_events_ok [where df = df and es = "wk_buffer w" and d = "wk_db w", OF that] r by (auto simp: worker_exit_def holds_def f)
qed

lemma holds_push:
  "holds k (w\<lparr>wk_buffer := wk_buffer w @ es\<rparr>) = holds k w @ filter (of_kind k) es"
  by (simp add: holds_def)

text \<open>One turn: nothing is invented, and without failures and expired rows nothing is lost.\<close>

lemma turn_stopped: "\<not> wk_running w \<Longrightarrow> worker_turn cfg dfs now first drained w = w"
  by (simp add: worker_turn_def)

definition turn_push :: "received \<Rightarrow> log_event list \<Rightarrow> log_event list" where
  "turn_push first drained = (case first of Got e \<Rightarrow> [e] | _ \<Rightarrow> []) @ drained"

lemma subseq_trans_append: "subseq a b \<Longrightarrow> subseq (b @ c) d \<Longrightarrow> subseq (a @ c) d"
  by (rule subseq_order.order_trans [OF list_emb_append_mono [OF _ subseq_order.order_refl]])

text \<open>The turn, cut into its writes.\<close>

definition turn1 :: "worker_config \<Rightarrow> (nat \<Rightarrow> driver_faults) \<Rightarrow> datetime \<Rightarrow> received \<Rightarrow> worker \<Rightarrow> worker" where
  "turn1 cfg dfs now first w = (case first of
      Got e \<Rightarrow> if is_shutdown e then w else w\<lparr>wk_buffer := wk_buffer w @ [e]\<rparr>
    | _ \<Rightarrow> if wk_buffer w \<noteq> [] then flush_buffer cfg (dfs 0) now w else w)"

definition turn2 :: "worker_config \<Rightarrow> (nat \<Rightarrow> driver_faults) \<Rightarrow> datetime \<Rightarrow> worker \<Rightarrow> worker" where
  "turn2 cfg dfs now w =
     (if length (wk_buffer w) \<ge> wc_flush_batch cfg then flush_buffer cfg (dfs 1) now w else w)"

lemma turn_parts:
  assumes "wk_running w" and "first \<noteq> Gone"
  shows "worker_turn cfg dfs now first drained w =
    (let w1 = turn1 cfg dfs now first w;
         w3 = turn2 cfg dfs now (w1\<lparr>wk_buffer := wk_buffer w1 @ filter (\<lambda>e. \<not> is_shutdown e) drained\<rparr>)
     in if first = Got Shutdown \<or> Shutdown \<in> set drained then worker_exit (dfs 2) w3 else w3)"
  using assms by (simp add: worker_turn_def turn1_def turn2_def Let_def)

lemma turn1_holds:
  assumes "first \<noteq> Gone"
  shows "subseq (holds k (turn1 cfg dfs now first w))
      (holds k w @ filter (of_kind k) (case first of Got e \<Rightarrow> [e] | _ \<Rightarrow> []))"
    and "(\<And>n. \<not> dfs 0 n) \<Longrightarrow> fresh cfg now (holds k w) \<Longrightarrow> holds k (turn1 cfg dfs now first w) =
      holds k w @ filter (of_kind k) (case first of Got e \<Rightarrow> [e] | _ \<Rightarrow> [])"
proof -
  have shut: "is_shutdown e \<Longrightarrow> \<not> of_kind k e" for e by (cases k; cases e) auto
  show "subseq (holds k (turn1 cfg dfs now first w))
      (holds k w @ filter (of_kind k) (case first of Got e \<Rightarrow> [e] | _ \<Rightarrow> []))"
    using flush_buffer_holds(1) shut assms by (cases first) (auto simp: turn1_def holds_push holds_def)
  show "holds k (turn1 cfg dfs now first w) = holds k w @ filter (of_kind k) (case first of Got e \<Rightarrow> [e] | _ \<Rightarrow> [])"
    if "\<And>n. \<not> dfs 0 n" "fresh cfg now (holds k w)"
    using flush_buffer_holds(2) [of "dfs 0", OF that] shut assms
    by (cases first) (auto simp: turn1_def holds_push holds_def)
qed

lemma turn2_holds:
  "subseq (holds k (turn2 cfg dfs now w)) (holds k w)"
  "(\<And>n. \<not> dfs 1 n) \<Longrightarrow> fresh cfg now (holds k w) \<Longrightarrow> holds k (turn2 cfg dfs now w) = holds k w"
  using flush_buffer_holds(1) flush_buffer_holds(2) [of "dfs 1"] by (simp_all add: turn2_def)

lemma turn_subseq:
  assumes "wk_running w"
  shows "subseq (holds k (worker_turn cfg dfs now first drained w))
    (holds k w @ filter (of_kind k) (if first = Gone then [] else turn_push first drained))"
proof (cases "first = Gone")
  case True
  then show ?thesis using assms worker_exit_holds(1) by (simp add: worker_turn_def)
next
  case False
  let ?w1 = "turn1 cfg dfs now first w"
  let ?w2 = "?w1\<lparr>wk_buffer := wk_buffer ?w1 @ filter (\<lambda>e. \<not> is_shutdown e) drained\<rparr>"
  have 2: "holds k ?w2 = holds k ?w1 @ filter (of_kind k) drained"
    unfolding holds_push filter_kind_shutdown ..
  have "subseq (holds k ?w2) (holds k w @ filter (of_kind k) (turn_push first drained))"
    unfolding 2 turn_push_def by (rule subseq_trans_append [OF turn1_holds(1) [OF False]]) simp
  moreover have "subseq (holds k (worker_turn cfg dfs now first drained w)) (holds k (turn2 cfg dfs now ?w2))"
    unfolding turn_parts [OF assms False] Let_def using worker_exit_holds(1) by simp
  ultimately show ?thesis
    using False turn2_holds(1) [of k cfg dfs now ?w2] subseq_order.order_trans by simp
qed

lemma turn_exact:
  assumes "wk_running w" and "\<And>i n. \<not> dfs i n"
    and "fresh cfg now (holds k w @ filter (of_kind k) (if first = Gone then [] else turn_push first drained))"
  shows "holds k (worker_turn cfg dfs now first drained w)
    = holds k w @ filter (of_kind k) (if first = Gone then [] else turn_push first drained)"
proof (cases "first = Gone")
  case True
  then show ?thesis using assms(1,2) worker_exit_holds(2) by (simp add: worker_turn_def)
next
  case False
  let ?w1 = "turn1 cfg dfs now first w"
  let ?w2 = "?w1\<lparr>wk_buffer := wk_buffer ?w1 @ filter (\<lambda>e. \<not> is_shutdown e) drained\<rparr>"
  have fr: "fresh cfg now (holds k w)"
      "fresh cfg now (holds k w @ filter (of_kind k) (turn_push first drained))"
    using assms(3) False by (simp_all add: fresh_def)
  have "holds k ?w2 = holds k ?w1 @ filter (of_kind k) drained"
    unfolding holds_push filter_kind_shutdown ..
  also have "\<dots> = holds k w @ filter (of_kind k) (turn_push first drained)"
    using turn1_holds(2) [OF False, of dfs, OF assms(2) fr(1)] by (simp add: turn_push_def)
  finally have 2: "holds k ?w2 = \<dots>" .
  have "holds k (turn2 cfg dfs now ?w2) = holds k ?w2"
    by (rule turn2_holds(2)) (use assms(2) fr(2) 2 in simp_all)
  then show ?thesis
    unfolding turn_parts [OF assms(1) False] Let_def using worker_exit_holds(2) [of "dfs 2"] assms(2) 2 False by simp
qed

lemma turn_buffer:
  assumes "wk_running w" and "0 < wc_flush_batch cfg"
  shows "length (wk_buffer (worker_turn cfg dfs now first drained w)) < wc_flush_batch cfg"
    and "\<not> wk_running (worker_turn cfg dfs now first drained w) \<Longrightarrow>
      wk_buffer (worker_turn cfg dfs now first drained w) = []"
proof -
  have t2: "length (wk_buffer (turn2 cfg dfs now x)) < wc_flush_batch cfg" for x
    using assms(2) flush_buffer_holds(3) by (simp add: turn2_def)
  have r1: "wk_running (turn1 cfg dfs now first w)"
    using assms(1) flush_buffer_holds(4) by (cases first) (auto simp: turn1_def)
  have r2: "wk_running (turn2 cfg dfs now x) = wk_running x" for x
    using flush_buffer_holds(4) by (simp add: turn2_def)
  show "length (wk_buffer (worker_turn cfg dfs now first drained w)) < wc_flush_batch cfg"
    using assms t2 worker_exit_holds(3) turn_parts [OF assms(1)]
    by (cases "first = Gone") (simp_all add: worker_turn_def [of _ _ _ Gone] Let_def)
  show "wk_buffer (worker_turn cfg dfs now first drained w) = []"
    if "\<not> wk_running (worker_turn cfg dfs now first drained w)"
    using that assms(1) worker_exit_holds(3) turn_parts [OF assms(1)] r1 r2
    by (cases "first = Gone") (auto simp: worker_turn_def [of _ _ _ Gone] Let_def split: if_splits)
qed

section \<open>Properties\<close>

lemma received_turn: "received_in t = (if ti_first t = Gone then [] else turn_push (ti_first t) (ti_drained t))"
  by (cases "ti_first t") (simp_all add: received_in_def turn_push_def)

lemma loop_subseq:
  "worker_loop cfg ts w = (w', es) \<Longrightarrow> subseq (holds k w') (holds k w @ filter (of_kind k) es)"
proof (induction ts arbitrary: w es)
  case (Cons t ts)
  show ?case
  proof (cases "wk_running w")
    case True
    let ?w1 = "worker_turn cfg (ti_faults t) (ti_now t) (ti_first t) (ti_drained t) w"
    obtain es1 where r: "worker_loop cfg ts ?w1 = (w', es1)" "es = received_in t @ es1"
      using Cons.prems True by (auto split: prod.splits)
    have "subseq (holds k w') (holds k ?w1 @ filter (of_kind k) es1)" by (rule Cons.IH [OF r(1)])
    also have "subseq (holds k ?w1 @ filter (of_kind k) es1) (holds k w @ filter (of_kind k) es)"
      unfolding r(2) received_turn by (rule subseq_trans_append [OF turn_subseq [OF True]]) simp
    finally show ?thesis .
  qed (use Cons.prems in simp)
qed simp

lemma loop_exact:
  "worker_loop cfg ts w = (w', es) \<Longrightarrow> \<forall>t \<in> set ts. \<forall>i n. \<not> ti_faults t i n \<Longrightarrow>
     \<forall>t \<in> set ts. fresh cfg (ti_now t) (holds k w @ filter (of_kind k) es) \<Longrightarrow>
     holds k w' = holds k w @ filter (of_kind k) es"
proof (induction ts arbitrary: w es)
  case (Cons t ts)
  show ?case
  proof (cases "wk_running w")
    case True
    let ?w1 = "worker_turn cfg (ti_faults t) (ti_now t) (ti_first t) (ti_drained t) w"
    obtain es1 where r: "worker_loop cfg ts ?w1 = (w', es1)" "es = received_in t @ es1"
      using Cons.prems(1) True by (auto split: prod.splits)
    have 1: "holds k ?w1 = holds k w @ filter (of_kind k) (received_in t)"
      unfolding received_turn
      by (rule turn_exact [OF True])
        (use Cons.prems(2,3) r(2) in \<open>auto simp: fresh_def received_turn\<close>)
    have "holds k w' = holds k ?w1 @ filter (of_kind k) es1"
      by (rule Cons.IH [OF r(1)]) (use Cons.prems(2,3) r(2) in \<open>auto simp: 1 fresh_def\<close>)
    then show ?thesis by (simp add: 1 r(2))
  qed (use Cons.prems in simp)
qed simp

lemma loop_buffer:
  "worker_loop cfg ts w = (w', es) \<Longrightarrow> 0 < wc_flush_batch cfg \<Longrightarrow>
     length (wk_buffer w) < wc_flush_batch cfg \<Longrightarrow> (\<not> wk_running w \<longrightarrow> wk_buffer w = []) \<Longrightarrow>
     length (wk_buffer w') < wc_flush_batch cfg \<and> (\<not> wk_running w' \<longrightarrow> wk_buffer w' = [])"
proof (induction ts arbitrary: w es)
  case (Cons t ts)
  then show ?case
    using turn_buffer by (cases "wk_running w") (fastforce split: prod.splits)+
qed simp

text \<open>
  C14: The log worker neither invents nor reorders, and loses nothing silently. Whatever statements
  fail, each table holds a subsequence of the events received, in the order they came, and the
  buffer never reaches the batch size. When no statement fails, every received event is in its
  table or in the buffer unless it is older than the retention period; and when the worker has
  stopped, on shutdown or when its senders are gone, the buffer is empty: everything is written.
\<close>

theorem worker_logs_all:
  assumes "worker_loop cfg ts w = (w', es)" and "wk_running w" and "wk_buffer w = []"
    and "0 < wc_flush_batch cfg"
  shows "subseq (rows k (wk_db w') @ filter (of_kind k) (wk_buffer w')) (rows k (wk_db w) @ filter (of_kind k) es)
    \<and> length (wk_buffer w') < wc_flush_batch cfg \<and> (\<not> wk_running w' \<longrightarrow> wk_buffer w' = [])
    \<and> ((\<forall>t \<in> set ts. (\<forall>i n. \<not> ti_faults t i n)
           \<and> (\<forall>e \<in> set (rows k (wk_db w) @ filter (of_kind k) es). cutoff_of cfg (ti_now t) \<le> event_time e)) \<longrightarrow>
        rows k (wk_db w') @ filter (of_kind k) (wk_buffer w') = rows k (wk_db w) @ filter (of_kind k) es)"
proof -
  have w: "holds k w = rows k (wk_db w)" using assms(3) by (simp add: holds_def)
  have "holds k w' = holds k w @ filter (of_kind k) es"
    if "\<forall>t \<in> set ts. (\<forall>i n. \<not> ti_faults t i n)
           \<and> (\<forall>e \<in> set (rows k (wk_db w) @ filter (of_kind k) es). cutoff_of cfg (ti_now t) \<le> event_time e)"
    by (rule loop_exact [OF assms(1)]) (use that in \<open>auto simp: fresh_def w\<close>)
  then show ?thesis
    using loop_subseq [OF assms(1), of k] loop_buffer [OF assms(1,4)] assms(2,3,4)
    by (auto simp: w holds_def [of k w'])
qed

definition demo_worker :: worker where
  "demo_worker = \<lparr>wk_buffer = [], wk_flush_count = 0,
     wk_db = \<lparr>access_log = [], proxy_log = [], audit_log_rows = []\<rparr>, wk_running = True\<rparr>"

definition demo_audit :: audit_event where
  "demo_audit = \<lparr>au_timestamp = 5, au_request_id = ''r'', au_action = ''create'', au_resource = ''model'',
     au_resource_id = ''gpt'', au_detail = None\<rparr>"

theorem worker_logs_all_witness:
  "rows AuditKind (wk_db (fst (worker_loop \<lparr>wc_flush_batch = 100, wc_retention_every = 100, wc_retention_days = 30\<rparr>
     [\<lparr>ti_faults = (\<lambda>_ _. False), ti_now = 6, ti_first = Got (Audit demo_audit), ti_drained = [Shutdown]\<rparr>]
     demo_worker))) = [Audit demo_audit]"
proof -
  let ?cfg = "\<lparr>wc_flush_batch = 100, wc_retention_every = 100, wc_retention_days = 30\<rparr>"
  let ?ts = "[\<lparr>ti_faults = (\<lambda>_ _. False), ti_now = 6, ti_first = Got (Audit demo_audit), ti_drained = [Shutdown]\<rparr>]"
  have init: "wk_running demo_worker" "wk_buffer demo_worker = []" "0 < wc_flush_batch ?cfg"
      "rows AuditKind (wk_db demo_worker) = []"
    by (simp_all add: demo_worker_def)
  obtain w' es where r: "worker_loop ?cfg ?ts demo_worker = (w', es)" by fastforce
  have es: "es = [Audit demo_audit, Shutdown]" and stop: "\<not> wk_running w'"
    using r by (auto simp: received_in_def worker_turn_def worker_exit_def Let_def demo_worker_def)
  have "cutoff_of ?cfg 6 \<le> event_time (Audit demo_audit)"
    by (simp add: cutoff_of_def day_nanos_def demo_audit_def)
  then have "\<forall>t \<in> set ?ts. (\<forall>i n. \<not> ti_faults t i n)
      \<and> (\<forall>e \<in> set (rows AuditKind (wk_db demo_worker) @ filter (of_kind AuditKind) es). cutoff_of ?cfg (ti_now t) \<le> event_time e)"
    by (simp add: es init(4) del: rows.simps event_time.simps)
  with worker_logs_all [OF r init(1-3), of AuditKind] stop
  have "rows AuditKind (wk_db w') @ [] = rows AuditKind (wk_db demo_worker) @ filter (of_kind AuditKind) es"
    by (metis (no_types, lifting) filter.simps(1))
  then show ?thesis unfolding r by (simp add: es init(4) del: rows.simps)
qed

end
