(* ===== verification/Analytics.thy ===== *)
theory Analytics
  imports Logger Errors
begin

text \<open>
  \<open>src/src/db/analytics/queries.rs\<close> and the outcome of a call in \<open>src/src/db/analytics.rs\<close>: the
  queries over the proxy log and what a caller sees of a worker that fails, panics or is late.
  Of DuckDB the model takes as arguments which statements fail, how a fetched number is converted
  and in which order rows that compare equal are returned (\<open>duck_env\<close>); \<open>duck_law\<close> states what its
  documentation says of them. A query answers rows, an error, or a panic of the conversion.
\<close>

section \<open>The driver\<close>

datatype 'a sql_result = Rows 'a | SqlError | SqlPanic

fun sql_bind :: "'a sql_result \<Rightarrow> ('a \<Rightarrow> 'b sql_result) \<Rightarrow> 'b sql_result" where
  "sql_bind (Rows x) f = f x"
| "sql_bind SqlError f = SqlError"
| "sql_bind SqlPanic f = SqlPanic"

text \<open>\<open>rows.flatten()\<close>: rows whose conversion failed are left out.\<close>

fun flatten_rows :: "'a sql_result list \<Rightarrow> 'a list sql_result" where
  "flatten_rows [] = Rows []"
| "flatten_rows (Rows x # rs) = sql_bind (flatten_rows rs) (\<lambda>xs. Rows (x # xs))"
| "flatten_rows (SqlError # rs) = flatten_rows rs"
| "flatten_rows (SqlPanic # rs) = SqlPanic"

record duck_env =
  dk_fault :: "nat \<Rightarrow> bool"
  dk_u64 :: "int \<Rightarrow> int sql_result"
  dk_i64 :: "int \<Rightarrow> int sql_result"
  dk_newest_first :: "proxy_event list \<Rightarrow> proxy_event list"
  dk_most_first :: "(string \<times> nat) list \<Rightarrow> (string \<times> nat) list"
  dk_from_ts :: from_ts

definition row_micros :: "proxy_event \<Rightarrow> int" where
  "row_micros r = micros (pe_timestamp r)"

definition duck_law :: "duck_env \<Rightarrow> bool" where
  "duck_law env \<longleftrightarrow>
     (\<forall>n. 0 \<le> n \<and> n < 2 ^ 64 \<longrightarrow> dk_u64 env n = Rows n)
     \<and> (\<forall>n m. dk_i64 env n = Rows m \<longrightarrow> m = n)
     \<and> (\<forall>n. - (2 ^ 63) \<le> n \<and> n < 2 ^ 63 \<longrightarrow> dk_i64 env n = Rows n)
     \<and> (\<forall>rs. mset (dk_newest_first env rs) = mset rs
          \<and> sorted_wrt (\<lambda>a b. row_micros b \<le> row_micros a) (dk_newest_first env rs))
     \<and> (\<forall>ds. mset (dk_most_first env ds) = mset ds
          \<and> sorted_wrt (\<lambda>a b. snd b \<le> snd a) (dk_most_first env ds))
     \<and> from_ts_law (dk_from_ts env)"

definition sql_stmt :: "duck_env \<Rightarrow> nat \<Rightarrow> 'a sql_result \<Rightarrow> 'a sql_result" where
  "sql_stmt env n r = (if dk_fault env n then SqlError else r)"

section \<open>Queries\<close>

record bucket_entry =
  be_timestamp :: int
  be_count :: int

record model_dist_entry =
  md_model :: string
  md_count :: int

record token_dist_entry =
  td_category :: string
  td_count :: int

record overview_metrics =
  om_total_requests :: int
  om_total_tokens :: int
  om_request_buckets :: "bucket_entry list"
  om_token_buckets :: "bucket_entry list"
  om_model_dist :: "model_dist_entry list"
  om_token_dist :: "token_dist_entry list"

definition ts_or_epoch :: "duck_env \<Rightarrow> int \<Rightarrow> datetime" where
  "ts_or_epoch env t = (case dk_from_ts env t of Some d \<Rightarrow> d | None \<Rightarrow> 0)"

definition ts_range :: "duck_env \<Rightarrow> int \<Rightarrow> int \<Rightarrow> datetime \<times> datetime" where
  "ts_range env start_ts end_ts = (ts_or_epoch env start_ts, ts_or_epoch env end_ts)"

definition rows_between :: "duck_env \<Rightarrow> int \<Rightarrow> int \<Rightarrow> log_db \<Rightarrow> proxy_event list" where
  "rows_between env start_ts end_ts d = (case ts_range env start_ts end_ts of (s, e) \<Rightarrow>
     filter (\<lambda>r. row_micros r \<ge> micros s \<and> row_micros r < micros e) (proxy_log d))"

text \<open>\<open>COALESCE(SUM(column), 0)\<close>: nulls do not count.\<close>

definition sum_column :: "(proxy_event \<Rightarrow> int option) \<Rightarrow> proxy_event list \<Rightarrow> int" where
  "sum_column col rs = sum_list (List.map_filter col rs)"

definition as_u64 :: "int \<Rightarrow> int" where
  "as_u64 n = n mod 2 ^ 64"

definition totals_impl :: "duck_env \<Rightarrow> int \<Rightarrow> int \<Rightarrow> log_db \<Rightarrow> (int \<times> int \<times> int \<times> int \<times> int) sql_result" where
  "totals_impl env start_ts end_ts d =
     (let rs = rows_between env start_ts end_ts d
      in sql_bind (sql_stmt env 0 (dk_u64 env (int (length rs)))) (\<lambda>n.
         sql_bind (dk_u64 env (sum_column pe_total_tokens rs)) (\<lambda>total.
         sql_bind (dk_i64 env (sum_column pe_prompt_tokens rs)) (\<lambda>prompt.
         sql_bind (dk_i64 env (sum_column pe_completion_tokens rs)) (\<lambda>completion.
         sql_bind (dk_i64 env (sum_column pe_cached_tokens rs)) (\<lambda>cached.
           Rows (n, total, prompt, completion, cached)))))))"

text \<open>\<open>epoch(DATE_TRUNC('hour', timestamp))\<close> in seconds.\<close>

definition bucket_ts :: "proxy_event \<Rightarrow> int" where
  "bucket_ts r = row_micros r div 3600000000 * 3600"

definition bucket_row :: "duck_env \<Rightarrow> proxy_event list \<Rightarrow> int \<Rightarrow> (int \<times> int \<times> int) sql_result" where
  "bucket_row env rs b =
     (let group = filter (\<lambda>r. bucket_ts r = b) rs
      in sql_bind (dk_i64 env (int (length group))) (\<lambda>n.
         sql_bind (dk_i64 env (sum_column pe_total_tokens group)) (\<lambda>tokens.
           Rows (b, as_u64 n, as_u64 tokens))))"

definition hourly_buckets_impl ::
    "duck_env \<Rightarrow> int \<Rightarrow> int \<Rightarrow> log_db \<Rightarrow> (bucket_entry list \<times> bucket_entry list) sql_result" where
  "hourly_buckets_impl env start_ts end_ts d =
     (let rs = rows_between env start_ts end_ts d
      in sql_bind (sql_stmt env 1
           (flatten_rows (map (bucket_row env rs) (sort (remdups (map bucket_ts rs)))))) (\<lambda>bs.
         Rows (map (\<lambda>(b, n, t). \<lparr>be_timestamp = b, be_count = n\<rparr>) bs,
               map (\<lambda>(b, n, t). \<lparr>be_timestamp = b, be_count = t\<rparr>) bs)))"

definition requests_impl :: "duck_env \<Rightarrow> int \<Rightarrow> int \<Rightarrow> log_db \<Rightarrow> bucket_entry list sql_result" where
  "requests_impl env start_ts end_ts d = sql_bind (hourly_buckets_impl env start_ts end_ts d) (\<lambda>b. Rows (fst b))"

definition tokens_impl :: "duck_env \<Rightarrow> int \<Rightarrow> int \<Rightarrow> log_db \<Rightarrow> bucket_entry list sql_result" where
  "tokens_impl env start_ts end_ts d = sql_bind (hourly_buckets_impl env start_ts end_ts d) (\<lambda>b. Rows (snd b))"

text \<open>\<open>GROUP BY model_name\<close>\<close>

definition model_counts :: "proxy_event list \<Rightarrow> (string \<times> nat) list" where
  "model_counts rs = map (\<lambda>m. (m, length (filter (\<lambda>r. pe_model_name r = m) rs)))
     (remdups (map pe_model_name rs))"

definition model_dist_impl :: "duck_env \<Rightarrow> int \<Rightarrow> int \<Rightarrow> log_db \<Rightarrow> model_dist_entry list sql_result" where
  "model_dist_impl env start_ts end_ts d =
     sql_stmt env 2 (flatten_rows (map
       (\<lambda>(m, n). sql_bind (dk_i64 env (int n)) (\<lambda>c. Rows \<lparr>md_model = m, md_count = as_u64 c\<rparr>))
       (dk_most_first env (model_counts (rows_between env start_ts end_ts d)))))"

definition token_dist_from_sums :: "int \<Rightarrow> int \<Rightarrow> int \<Rightarrow> token_dist_entry list" where
  "token_dist_from_sums prompt0 completion0 cached0 =
     (let prompt = max prompt0 0; completion = max completion0 0; cached = max cached0 0;
          uncached_input = prompt - min cached prompt
      in [\<lparr>td_category = ''uncached_input'', td_count = uncached_input\<rparr>,
          \<lparr>td_category = ''cached_input'', td_count = min cached prompt\<rparr>,
          \<lparr>td_category = ''output'', td_count = completion\<rparr>])"

definition token_dist_impl :: "duck_env \<Rightarrow> int \<Rightarrow> int \<Rightarrow> log_db \<Rightarrow> token_dist_entry list sql_result" where
  "token_dist_impl env start_ts end_ts d =
     sql_bind (totals_impl env start_ts end_ts d) (\<lambda>(_, _, prompt, completion, cached).
       Rows (token_dist_from_sums prompt completion cached))"

definition overview_impl :: "duck_env \<Rightarrow> int \<Rightarrow> int \<Rightarrow> log_db \<Rightarrow> overview_metrics sql_result" where
  "overview_impl env start_ts end_ts d =
     sql_bind (totals_impl env start_ts end_ts d) (\<lambda>(total_requests, total_tokens, prompt, completion, cached).
     sql_bind (hourly_buckets_impl env start_ts end_ts d) (\<lambda>(request_buckets, token_buckets).
     sql_bind (model_dist_impl env start_ts end_ts d) (\<lambda>model_dist.
       Rows \<lparr>om_total_requests = total_requests, om_total_tokens = total_tokens,
             om_request_buckets = request_buckets, om_token_buckets = token_buckets,
             om_model_dist = model_dist,
             om_token_dist = token_dist_from_sums prompt completion cached\<rparr>)))"

section \<open>The proxy log query\<close>

record log_query =
  lq_page :: nat
  lq_per_page :: nat
  lq_start_ts :: "int option"
  lq_end_ts :: "int option"
  lq_model_name :: "string option"
  lq_provider_name :: "string option"
  lq_status :: "string option"
  lq_api_key_name :: "string option"
  lq_endpoint :: "string option"
  lq_is_streaming :: "bool option"
  lq_upstream_model :: "string option"
  lq_provider_type :: "string option"
  lq_client_ip :: "string option"

text \<open>The response has the columns of the row, the time in whole seconds.\<close>

definition log_entry :: "proxy_event \<Rightarrow> proxy_event" where
  "log_entry r = r\<lparr>pe_timestamp := row_micros r div 1000000\<rparr>"

record log_page =
  lp_items :: "proxy_event list"
  lp_total :: int

text \<open>A text filter applies when it is given and not empty; a null column never matches one.\<close>

definition text_filter :: "string option \<Rightarrow> string option \<Rightarrow> bool" where
  "text_filter f v = (case f of Some t \<Rightarrow> t = [] \<or> v = Some t | None \<Rightarrow> True)"

definition where_clause :: "duck_env \<Rightarrow> log_query \<Rightarrow> proxy_event \<Rightarrow> bool" where
  "where_clause env q r =
     ((case lq_start_ts q of Some t \<Rightarrow> row_micros r \<ge> micros (ts_or_epoch env t) | None \<Rightarrow> True)
      \<and> (case lq_end_ts q of Some t \<Rightarrow> row_micros r < micros (ts_or_epoch env t) | None \<Rightarrow> True)
      \<and> text_filter (lq_model_name q) (Some (pe_model_name r))
      \<and> text_filter (lq_provider_name q) (Some (pe_provider_name r))
      \<and> text_filter (lq_status q) (Some (pe_status r))
      \<and> text_filter (lq_api_key_name q) (pe_api_key_name r)
      \<and> text_filter (lq_endpoint q) (Some (pe_endpoint r))
      \<and> (case lq_is_streaming q of Some b \<Rightarrow> pe_is_streaming r = b | None \<Rightarrow> True)
      \<and> text_filter (lq_upstream_model q) (Some (pe_upstream_model r))
      \<and> text_filter (lq_provider_type q) (Some (pe_provider_type r))
      \<and> text_filter (lq_client_ip q) (pe_client_ip r))"

definition saturating_mul :: "nat \<Rightarrow> nat \<Rightarrow> nat" where
  "saturating_mul a b = min (a * b) (2 ^ 64 - 1)"

text \<open>\<open>limit\<close> and \<open>offset\<close> are bound as \<open>i64\<close>; a negative one is refused by DuckDB.\<close>

definition query_proxy_logs_impl :: "duck_env \<Rightarrow> log_query \<Rightarrow> log_db \<Rightarrow> log_page sql_result" where
  "query_proxy_logs_impl env q d =
     (let rs = filter (where_clause env q) (proxy_log d);
          offset = saturating_mul (lq_page q - 1) (lq_per_page q)
      in sql_bind (sql_stmt env 0 (dk_u64 env (int (length rs)))) (\<lambda>total.
         if int offset \<ge> total then Rows \<lparr>lp_items = [], lp_total = total\<rparr>
         else if lq_per_page q \<ge> 2 ^ 63 \<or> offset \<ge> 2 ^ 63 then SqlError
         else sql_stmt env 1 (Rows \<lparr>lp_items = map log_entry
             (take (lq_per_page q) (drop offset (dk_newest_first env rs))), lp_total = total\<rparr>)))"

section \<open>A call\<close>

datatype analytics_error = AnalyticsTimeout | AnalyticsUnavailable | AnalyticsFailed

definition analytics_message :: "analytics_error \<Rightarrow> string" where
  "analytics_message e = (case e of
     AnalyticsTimeout \<Rightarrow> ''analytics query timed out''
   | AnalyticsUnavailable \<Rightarrow> ''analytics service unavailable''
   | AnalyticsFailed \<Rightarrow> ''analytics query failed'')"

definition analytics_response :: "analytics_error \<Rightarrow> http_error" where
  "analytics_response e = (503, mk_error (analytics_message e) 503 ''service_unavailable'')"

text \<open>\<open>run_guarded\<close> and \<open>send_result\<close>: what a worker sends back; \<open>None\<close> when it drops the sender.\<close>

definition run_guarded :: "'a sql_result \<Rightarrow> (unit + 'a) option" where
  "run_guarded q = (case q of Rows x \<Rightarrow> Some (Inr x) | SqlError \<Rightarrow> Some (Inl ()) | SqlPanic \<Rightarrow> None)"

definition send_result :: "'a sql_result \<Rightarrow> (analytics_error + 'a) option" where
  "send_result q = (case run_guarded q of
     Some (Inr x) \<Rightarrow> Some (Inr x) | Some (Inl _) \<Rightarrow> Some (Inl AnalyticsFailed) | None \<Rightarrow> None)"

text \<open>A call finds the channel open or not, and is answered in time or not.\<close>

record call_outcome =
  co_sent :: bool
  co_in_time :: bool

definition analytics_call :: "call_outcome \<Rightarrow> 'a sql_result \<Rightarrow> analytics_error + 'a" where
  "analytics_call out q =
     (if \<not> co_sent out then Inl AnalyticsUnavailable
      else if \<not> co_in_time out then Inl AnalyticsTimeout
      else (case send_result q of Some r \<Rightarrow> r | None \<Rightarrow> Inl AnalyticsUnavailable))"

section \<open>Groups\<close>

lemma sql_bind_Rows: "sql_bind r f = Rows y \<longleftrightarrow> (\<exists>x. r = Rows x \<and> f x = Rows y)"
  by (cases r) simp_all

lemma sql_stmt_Rows: "sql_stmt env n r = Rows y \<longleftrightarrow> \<not> dk_fault env n \<and> r = Rows y"
  by (simp add: sql_stmt_def)

text \<open>Summing the groups of a list is summing the list.\<close>

lemma sum_list_if_eq:
  "distinct ks \<Longrightarrow> a \<in> set ks \<Longrightarrow> (\<Sum>k\<leftarrow>ks. if a = k then (c::int) else 0) = c"
proof (induction ks)
  case (Cons k ks)
  have "(\<Sum>k\<leftarrow>ks. if a = k then c else 0) = 0" if "a \<notin> set ks"
    using that by (induction ks) auto
  with Cons show ?case by auto
qed simp

lemma sum_groups:
  fixes g :: "'a \<Rightarrow> int"
  shows "distinct ks \<Longrightarrow> f ` set xs \<subseteq> set ks \<Longrightarrow>
    (\<Sum>k\<leftarrow>ks. sum_list (map g (filter (\<lambda>x. f x = k) xs))) = sum_list (map g xs)"
proof (induction xs)
  case (Cons a xs)
  have "(\<Sum>k\<leftarrow>ks. sum_list (map g (filter (\<lambda>x. f x = k) (a # xs))))
      = (\<Sum>k\<leftarrow>ks. (if f a = k then g a else 0) + sum_list (map g (filter (\<lambda>x. f x = k) xs)))"
    by (rule arg_cong [where f = sum_list]) simp
  also have "\<dots> = g a + sum_list (map g xs)"
    using Cons by (simp add: sum_list_addf sum_list_if_eq)
  finally show ?case by simp
qed simp

lemma sum_column_map: "sum_column col rs = sum_list (map (\<lambda>r. case col r of Some n \<Rightarrow> n | None \<Rightarrow> 0) rs)"
  by (induction rs) (auto simp: sum_column_def List.map_filter_def split: option.splits)

lemma int_length_sum: "int (length rs) = sum_list (map (\<lambda>_. 1) rs)"
  by (induction rs) simp_all

lemma flatten_rows_map: "list_all (\<lambda>x. f x = Rows (g x)) xs \<Longrightarrow> flatten_rows (map f xs) = Rows (map g xs)"
  by (induction xs) simp_all

lemma duck_lawD:
  assumes "duck_law env"
  shows "0 \<le> n \<Longrightarrow> n < 2 ^ 64 \<Longrightarrow> dk_u64 env n = Rows n"
    and "- (2 ^ 63) \<le> n \<Longrightarrow> n < 2 ^ 63 \<Longrightarrow> dk_i64 env n = Rows n"
    and "mset (dk_newest_first env rs) = mset rs"
    and "sorted_wrt (\<lambda>a b. row_micros b \<le> row_micros a) (dk_newest_first env rs)"
    and "mset (dk_most_first env ds) = mset ds"
    and "dk_i64 env n = Rows m \<Longrightarrow> m = n"
  using assms by (auto simp: duck_law_def)

text \<open>The rows of a table the queries can count: fewer than \<open>2 ^ 63\<close>, with token counts from 0.\<close>

definition countable_rows :: "proxy_event list \<Rightarrow> bool" where
  "countable_rows rs \<longleftrightarrow> int (length rs) < 2 ^ 63 \<and> sum_column pe_total_tokens rs < 2 ^ 63
     \<and> list_all (\<lambda>r. case pe_total_tokens r of Some n \<Rightarrow> 0 \<le> n | None \<Rightarrow> True) rs"

lemma sum_column_filter:
  assumes "list_all (\<lambda>r. case pe_total_tokens r of Some n \<Rightarrow> 0 \<le> n | None \<Rightarrow> True) rs"
  shows "0 \<le> sum_column pe_total_tokens (filter P rs)
    \<and> sum_column pe_total_tokens (filter P rs) \<le> sum_column pe_total_tokens rs"
  using assms by (induction rs) (auto simp: sum_column_map split: option.splits)

lemma bucket_row_ok:
  assumes "duck_law env" "countable_rows rs"
  shows "bucket_row env rs b = Rows (b, int (length (filter (\<lambda>r. bucket_ts r = b) rs)),
    sum_column pe_total_tokens (filter (\<lambda>r. bucket_ts r = b) rs))"
proof -
  let ?g = "filter (\<lambda>r. bucket_ts r = b) rs"
  have n: "int (length ?g) < 2 ^ 63"
    using assms(2) length_filter_le [of "\<lambda>r. bucket_ts r = b" rs] unfolding countable_rows_def by linarith
  have t: "0 \<le> sum_column pe_total_tokens ?g" "sum_column pe_total_tokens ?g < 2 ^ 63"
    using sum_column_filter [of rs "\<lambda>r. bucket_ts r = b"] assms(2) by (auto simp: countable_rows_def)
  have "dk_i64 env (int (length ?g)) = Rows (int (length ?g))"
      "dk_i64 env (sum_column pe_total_tokens ?g) = Rows (sum_column pe_total_tokens ?g)"
    using n t by (auto intro!: duck_lawD(2) [OF assms(1)])
  then show ?thesis using n t by (simp add: bucket_row_def Let_def as_u64_def)
qed

lemma hourly_buckets_ok:
  assumes "duck_law env" "countable_rows (rows_between env s e d)" "\<not> dk_fault env 1"
  defines "rs \<equiv> rows_between env s e d"
  defines "bs \<equiv> sort (remdups (map bucket_ts rs))"
  shows "hourly_buckets_impl env s e d = Rows
    (map (\<lambda>b. \<lparr>be_timestamp = b, be_count = int (length (filter (\<lambda>r. bucket_ts r = b) rs))\<rparr>) bs,
     map (\<lambda>b. \<lparr>be_timestamp = b, be_count = sum_column pe_total_tokens (filter (\<lambda>r. bucket_ts r = b) rs)\<rparr>) bs)"
proof -
  have "flatten_rows (map (bucket_row env rs) bs) = Rows (map (\<lambda>b. (b,
      int (length (filter (\<lambda>r. bucket_ts r = b) rs)),
      sum_column pe_total_tokens (filter (\<lambda>r. bucket_ts r = b) rs))) bs)"
    by (rule flatten_rows_map) (use bucket_row_ok assms(1,2) in \<open>simp add: rs_def list_all_iff\<close>)
  then show ?thesis
    using assms(3) by (simp add: hourly_buckets_impl_def Let_def sql_stmt_def rs_def bs_def comp_def)
qed

lemma model_dist_ok:
  assumes "duck_law env" "countable_rows (rows_between env s e d)" "\<not> dk_fault env 2"
  defines "rs \<equiv> rows_between env s e d"
  shows "model_dist_impl env s e d = Rows
    (map (\<lambda>(m, n). \<lparr>md_model = m, md_count = int n\<rparr>) (dk_most_first env (model_counts rs)))"
proof -
  have len: "int n < 2 ^ 63" if "(m, n) \<in> set (dk_most_first env (model_counts rs))" for m n
  proof -
    have "(m, n) \<in> set (model_counts rs)" using that mset_eq_setD [OF duck_lawD(5) [OF assms(1)]] by blast
    then show ?thesis
      using assms(2) by (auto simp: model_counts_def countable_rows_def rs_def intro: le_less_trans [OF length_filter_le])
  qed
  have "sql_bind (dk_i64 env (int n)) (\<lambda>c. Rows \<lparr>md_model = m, md_count = as_u64 c\<rparr>)
      = Rows \<lparr>md_model = m, md_count = int n\<rparr>" if "(m, n) \<in> set (dk_most_first env (model_counts rs))" for m n
    using len [OF that] by (simp add: as_u64_def duck_lawD(2) [OF assms(1), of "int n"])
  then have "flatten_rows (map (\<lambda>(m, n). sql_bind (dk_i64 env (int n)) (\<lambda>c. Rows \<lparr>md_model = m, md_count = as_u64 c\<rparr>))
        (dk_most_first env (model_counts rs)))
      = Rows (map (\<lambda>(m, n). \<lparr>md_model = m, md_count = int n\<rparr>) (dk_most_first env (model_counts rs)))"
    by (intro flatten_rows_map) (auto simp: list_all_iff)
  then show ?thesis using assms(3) by (simp add: model_dist_impl_def sql_stmt_def rs_def)
qed

lemma mset_sum_list: "mset xs = mset ys \<Longrightarrow> sum_list (map g xs) = (sum_list (map g ys) :: int)"
  by (metis mset_map sum_mset_sum_list)

lemma group_keys: "distinct (sort (remdups (map f rs)))" "f ` set rs \<subseteq> set (sort (remdups (map f rs)))"
  by simp_all

lemma bucket_sums:
  "(\<Sum>b\<leftarrow>sort (remdups (map bucket_ts rs)). int (length (filter (\<lambda>r. bucket_ts r = b) rs))) = int (length rs)"
  "(\<Sum>b\<leftarrow>sort (remdups (map bucket_ts rs)). sum_column pe_total_tokens (filter (\<lambda>r. bucket_ts r = b) rs))
    = sum_column pe_total_tokens rs"
  unfolding int_length_sum sum_column_map by (rule sum_groups [OF group_keys])+

lemma model_sums: "(\<Sum>(m, n)\<leftarrow>model_counts rs. int n) = int (length rs)"
proof -
  have "(\<Sum>(m, n)\<leftarrow>model_counts rs. int n)
      = (\<Sum>m\<leftarrow>remdups (map pe_model_name rs). int (length (filter (\<lambda>r. pe_model_name r = m) rs)))"
    by (simp add: model_counts_def comp_def)
  also have "\<dots> = int (length rs)"
    unfolding int_length_sum by (rule sum_groups) simp_all
  finally show ?thesis .
qed

section \<open>Pages\<close>

text \<open>Rows with distinct times have one order; consecutive pages cut it without gaps or overlaps.\<close>

lemma newest_first_unique:
  assumes "duck_law env" and "distinct (map row_micros rs)"
  shows "dk_newest_first env rs = rev (sort_key row_micros rs)"
proof -
  let ?ys = "dk_newest_first env rs"
  have "sorted (map row_micros (rev ?ys))"
    using duck_lawD(4) [OF assms(1), of rs] by (simp add: sorted_wrt_rev sorted_wrt_map rev_map [symmetric])
  moreover have "mset rs = mset (rev ?ys)" using duck_lawD(3) [OF assms(1)] by simp
  ultimately have "sort_key row_micros rs = rev ?ys"
    using assms(2) by (intro sort_key_inj_key_eq) (simp_all add: distinct_map)
  then show ?thesis by simp
qed

lemma concat_pages: "concat (map (\<lambda>i. take n (drop (i * n) xs)) [0..<k]) = take (k * n) xs"
proof (induction k)
  case (Suc k)
  have "take (Suc k * n) xs = take (k * n + n) xs" by (simp add: add.commute)
  also have "\<dots> = take (k * n) xs @ take n (drop (k * n) xs)" by (rule take_add)
  finally show ?case using Suc by simp
qed simp

lemma saturated_page:
  assumes "length xs < 2 ^ 63"
  shows "saturating_mul i n \<ge> length xs \<Longrightarrow> take n (drop (i * n) xs) = []"
    and "saturating_mul i n < length xs \<Longrightarrow> saturating_mul i n = i * n"
  using assms by (auto simp: saturating_mul_def min_def split: if_splits)

lemma query_page:
  fixes d :: log_db
  assumes "duck_law env" and "\<And>n. \<not> dk_fault env n" and "lq_per_page q < 2 ^ 63"
  defines "rs \<equiv> filter (where_clause env q) (proxy_log d)"
  assumes "distinct (map row_micros rs)" and "length rs < 2 ^ 63"
  shows "query_proxy_logs_impl env q d = Rows \<lparr>lp_items = map log_entry (take (lq_per_page q)
      (drop ((lq_page q - 1) * lq_per_page q) (rev (sort_key row_micros rs)))), lp_total = int (length rs)\<rparr>"
proof -
  let ?s = "rev (sort_key row_micros rs)" and ?o = "saturating_mul (lq_page q - 1) (lq_per_page q)"
  have len: "length ?s = length rs" by simp
  have u: "dk_u64 env (int (length rs)) = Rows (int (length rs))"
    by (rule duck_lawD(1) [OF assms(1)]) (use assms(6) in simp_all)
  show ?thesis
  proof (cases "?o \<ge> length rs")
    case True
    then have "take (lq_per_page q) (drop ((lq_page q - 1) * lq_per_page q) ?s) = []"
      using saturated_page(1) [of ?s] assms(6) by (simp only: len)
    then show ?thesis
      using True u assms(2) by (simp add: query_proxy_logs_impl_def Let_def rs_def [symmetric] sql_stmt_def)
  next
    case False
    have o: "(lq_page q - 1) * lq_per_page q = ?o"
      using saturated_page(2) [of ?s] assms(6) False by (simp only: len not_le)
    have "?o < 2 ^ 63" using False assms(6) by linarith
    then show ?thesis
      unfolding o query_proxy_logs_impl_def Let_def rs_def [symmetric] newest_first_unique [OF assms(1,5)]
      using False u assms(2,3) by (simp add: sql_stmt_def)
  qed
qed

text \<open>The hourly buckets as values: the whole hours of the rows, with their counts and token sums.\<close>

definition hourly_values :: "proxy_event list \<Rightarrow> bucket_entry list \<times> bucket_entry list" where
  "hourly_values rs =
     (let bs = sort (remdups (map bucket_ts rs))
      in (map (\<lambda>b. \<lparr>be_timestamp = b, be_count = int (length (filter (\<lambda>r. bucket_ts r = b) rs))\<rparr>) bs,
          map (\<lambda>b. \<lparr>be_timestamp = b, be_count = sum_column pe_total_tokens (filter (\<lambda>r. bucket_ts r = b) rs)\<rparr>) bs))"

lemma hourly_values_ok:
  "sum_list (map be_count (fst (hourly_values rs))) = int (length rs)"
  "sum_list (map be_count (snd (hourly_values rs))) = sum_column pe_total_tokens rs"
  "sorted_wrt (<) (map be_timestamp (fst (hourly_values rs)))"
  "map be_timestamp (snd (hourly_values rs)) = map be_timestamp (fst (hourly_values rs))"
  "be_timestamp ` set (fst (hourly_values rs)) = bucket_ts ` set rs"
  by (simp_all add: hourly_values_def Let_def comp_def bucket_sums strict_sorted_iff image_comp)

lemma overview_values:
  assumes "overview_impl env s e d = Rows m" and "duck_law env"
    and "countable_rows (rows_between env s e d)"
  defines "rs \<equiv> rows_between env s e d"
  obtains prompt completion cached where
    "om_total_requests m = int (length rs)" "om_total_tokens m = sum_column pe_total_tokens rs"
    "om_request_buckets m = fst (hourly_values rs)" "om_token_buckets m = snd (hourly_values rs)"
    "om_model_dist m = map (\<lambda>(m, n). \<lparr>md_model = m, md_count = int n\<rparr>) (dk_most_first env (model_counts rs))"
    "om_token_dist m = token_dist_from_sums prompt completion cached" "prompt = sum_column pe_prompt_tokens rs"
proof -
  obtain n total prompt completion cached reqs toks dist where
      t: "totals_impl env s e d = Rows (n, total, prompt, completion, cached)"
    and h: "hourly_buckets_impl env s e d = Rows (reqs, toks)" and md: "model_dist_impl env s e d = Rows dist"
    and m: "m = \<lparr>om_total_requests = n, om_total_tokens = total, om_request_buckets = reqs,
      om_token_buckets = toks, om_model_dist = dist, om_token_dist = token_dist_from_sums prompt completion cached\<rparr>"
    using assms(1) by (auto simp: overview_impl_def sql_bind_Rows)
  have r: "0 \<le> sum_column pe_total_tokens rs" "sum_column pe_total_tokens rs < 2 ^ 63" "int (length rs) < 2 ^ 63"
    using assms(3) sum_column_filter [of rs "\<lambda>_. True"] by (auto simp: countable_rows_def rs_def)
  have u: "dk_u64 env (int (length rs)) = Rows (int (length rs))"
      "dk_u64 env (sum_column pe_total_tokens rs) = Rows (sum_column pe_total_tokens rs)"
    using r by (auto intro!: duck_lawD(1) [OF assms(2)])
  have n: "n = int (length rs)" "total = sum_column pe_total_tokens rs" "prompt = sum_column pe_prompt_tokens rs"
    using t duck_lawD(6) [OF assms(2)]
    by (auto simp: totals_impl_def Let_def sql_bind_Rows sql_stmt_Rows u [unfolded rs_def] rs_def)
  have f: "\<not> dk_fault env 1" "\<not> dk_fault env 2"
    using h md by (auto simp: hourly_buckets_impl_def model_dist_impl_def sql_stmt_def Let_def split: if_splits)
  note hourly_buckets_ok [OF assms(2,3) f(1)] model_dist_ok [OF assms(2,3) f(2)]
  then show ?thesis
    using h md by (intro that [of prompt completion cached]) (simp_all add: m n hourly_values_def Let_def rs_def)
qed

section \<open>Properties\<close>

text \<open>
  The numbers of the overview agree with one another. When the queries go through and the
  token counts of the range are not negative and add up within 64 bits, the hourly request counts
  and the counts per model both add up to the total number of requests, the hourly token counts
  add up to the total number of tokens, the buckets are whole hours in ascending order, and cached
  and uncached input add up to the prompt tokens.
\<close>

theorem overview_agrees:
  assumes "overview_impl env s e d = Rows m" and "duck_law env"
    and "countable_rows (rows_between env s e d)"
  shows "om_total_requests m = int (length (rows_between env s e d))
    \<and> sum_list (map be_count (om_request_buckets m)) = om_total_requests m
    \<and> sum_list (map md_count (om_model_dist m)) = om_total_requests m
    \<and> om_total_tokens m = sum_column pe_total_tokens (rows_between env s e d)
    \<and> sum_list (map be_count (om_token_buckets m)) = om_total_tokens m
    \<and> sorted_wrt (<) (map be_timestamp (om_request_buckets m))
    \<and> (\<exists>u c out. map td_count (om_token_dist m) = [u, c, out] \<and> 0 \<le> u \<and> 0 \<le> c \<and> 0 \<le> out
         \<and> u + c = max (sum_column pe_prompt_tokens (rows_between env s e d)) 0)"
proof -
  let ?rs = "rows_between env s e d"
  obtain prompt completion cached where m: "om_total_requests m = int (length ?rs)"
      "om_total_tokens m = sum_column pe_total_tokens ?rs"
      "om_request_buckets m = fst (hourly_values ?rs)" "om_token_buckets m = snd (hourly_values ?rs)"
      "om_model_dist m = map (\<lambda>(m, n). \<lparr>md_model = m, md_count = int n\<rparr>) (dk_most_first env (model_counts ?rs))"
      "om_token_dist m = token_dist_from_sums prompt completion cached"
      "prompt = sum_column pe_prompt_tokens ?rs"
    using overview_values [OF assms] .
  have "sum_list (map md_count (om_model_dist m)) = (\<Sum>(m, n)\<leftarrow>model_counts ?rs. int n)"
    unfolding m by (simp add: comp_def case_prod_beta' mset_sum_list [OF duck_lawD(5) [OF assms(2)]])
  then show ?thesis
    using hourly_values_ok [of ?rs] by (auto simp: m model_sums token_dist_from_sums_def Let_def)
qed


section \<open>Witnesses\<close>

definition demo_duck :: duck_env where
  "demo_duck = \<lparr>dk_fault = (\<lambda>_. False),
     dk_u64 = (\<lambda>n. if 0 \<le> n \<and> n < 2 ^ 64 then Rows n else SqlError),
     dk_i64 = (\<lambda>n. if - (2 ^ 63) \<le> n \<and> n < 2 ^ 63 then Rows n else SqlError),
     dk_newest_first = (\<lambda>rs. rev (sort_key row_micros rs)),
     dk_most_first = (\<lambda>ds. rev (sort_key snd ds)),
     dk_from_ts = (\<lambda>t. Some (t * 1000000000))\<rparr>"

definition demo_row :: "int \<Rightarrow> proxy_event" where
  "demo_row t = \<lparr>pe_timestamp = t * 1000000000, pe_request_id = ''r'', pe_api_key_name = None,
     pe_model_name = ''gpt'', pe_provider_name = ''p'', pe_prompt_tokens = Some 3,
     pe_completion_tokens = Some 2, pe_total_tokens = Some 5, pe_cached_tokens = Some 1,
     pe_latency_ms = 7, pe_status = ''200'', pe_endpoint = ''/chat/completions'', pe_is_streaming = False,
     pe_ttft_ms = None, pe_upstream_model = ''gpt'', pe_provider_type = ''OpenAI'',
     pe_response_body_size = None, pe_error_message = None, pe_client_ip = None\<rparr>"

definition demo_log :: log_db where
  "demo_log = \<lparr>access_log = [], proxy_log = [demo_row 10, demo_row 4000, demo_row 20], audit_log_rows = []\<rparr>"

definition demo_query :: log_query where
  "demo_query = \<lparr>lq_page = 1, lq_per_page = 2, lq_start_ts = None, lq_end_ts = None, lq_model_name = Some ''gpt'',
     lq_provider_name = None, lq_status = Some [], lq_api_key_name = None, lq_endpoint = None,
     lq_is_streaming = None, lq_upstream_model = None, lq_provider_type = None, lq_client_ip = None\<rparr>"

lemma demo_duck_law: "duck_law demo_duck"
proof -
  have rev_sorted: "sorted_wrt (\<lambda>a b. f b \<le> f a) (rev (sort_key f rs))" for f :: "'a \<Rightarrow> 'b::linorder" and rs
    using sorted_sort_key [of f rs] by (simp add: sorted_wrt_rev sorted_wrt_map)
  show ?thesis
    by (auto simp: duck_law_def demo_duck_def from_ts_law_def rev_sorted split: if_splits)
qed

theorem overview_agrees_witness:
  "case overview_impl demo_duck 0 5000 demo_log of
     Rows m \<Rightarrow> sum_list (map be_count (om_request_buckets m)) = 3
       \<and> sum_list (map be_count (om_token_buckets m)) = 15 | _ \<Rightarrow> False"
proof -
  have c: "countable_rows (rows_between demo_duck 0 5000 demo_log)"
      "int (length (rows_between demo_duck 0 5000 demo_log)) = 3"
      "sum_column pe_total_tokens (rows_between demo_duck 0 5000 demo_log) = 15" by code_simp+
  have "case overview_impl demo_duck 0 5000 demo_log of Rows m \<Rightarrow> True | _ \<Rightarrow> False" by code_simp
  then obtain m where m: "overview_impl demo_duck 0 5000 demo_log = Rows m"
    by (auto split: sql_result.splits)
  show ?thesis using overview_agrees [OF m demo_duck_law c(1)] c(2,3) by (simp add: m)
qed


end
