(* ===== verification/Console.thy ===== *)
theory Console
  imports Auth Admin Analytics
begin

text \<open>
  The read-only handlers of the console: \<open>src/src/handlers/analytics.rs\<close>, \<open>logs.rs\<close> and
  \<open>stats.rs\<close>. The log tables the analytics workers read are the argument \<open>d\<close>; \<open>cn_now\<close> is the
  clock in seconds. Seconds are integers: the configuration bounds the retention by 36500 days
  and a time that \<open>from_timestamp\<close> accepts is below \<open>2 ^ 43\<close> in size, so nothing reaches the limits
  of an \<open>i64\<close>. The two rates of the overview are floating-point numbers, computed by the
  argument \<open>rate\<close> from a count and the length of the range.
\<close>

section \<open>Ranges\<close>

record validated_range =
  vr_start :: int
  vr_end :: int

record console_env =
  cn_now :: int
  cn_duck :: duck_env
  cn_call :: call_outcome
  cn_run :: run_env

definition validate_ts_range ::
    "console_env \<Rightarrow> int option \<Rightarrow> int option \<Rightarrow> nat \<Rightarrow> http_error + validated_range" where
  "validate_ts_range env start_ts end_ts retention =
     (let now = cn_now env;
          start = (case start_ts of Some t \<Rightarrow> t | None \<Rightarrow> now - 30 * 86400);
          end0 = (case end_ts of Some t \<Rightarrow> t | None \<Rightarrow> now)
      in if dk_from_ts (cn_duck env) start = None then
           Inl (into_response (re_rid (cn_run env)) (bad_request ''invalid start_ts''))
         else if dk_from_ts (cn_duck env) end0 = None then
           Inl (into_response (re_rid (cn_run env)) (bad_request ''invalid end_ts''))
         else
           (let max_range = (int retention + 1) * 86400;
                end1 = min end0 (now + 3600)
            in Inr (if start \<ge> end1 then \<lparr>vr_start = end1 - 86400, vr_end = end1\<rparr>
                    else if end1 - start > max_range then \<lparr>vr_start = end1 - max_range, vr_end = end1\<rparr>
                    else \<lparr>vr_start = start, vr_end = end1\<rparr>)))"

definition ranged ::
    "console_env \<Rightarrow> int option \<Rightarrow> int option \<Rightarrow> app_state \<Rightarrow> (duck_env \<Rightarrow> int \<Rightarrow> int \<Rightarrow> log_db \<Rightarrow> 'a sql_result)
      \<Rightarrow> log_db \<Rightarrow> http_error + 'a" where
  "ranged env start_ts end_ts s query d =
     and_then (validate_ts_range env start_ts end_ts (retention_days (log_cfg (config s)))) (\<lambda>range.
       map_err analytics_response
         (analytics_call (cn_call env) (query (cn_duck env) (vr_start range) (vr_end range) d)))"

definition handle_requests ::
    "console_env \<Rightarrow> int option \<Rightarrow> int option \<Rightarrow> app_state \<Rightarrow> log_db \<Rightarrow> http_error + bucket_entry list" where
  "handle_requests env start_ts end_ts s = ranged env start_ts end_ts s requests_impl"

definition handle_tokens ::
    "console_env \<Rightarrow> int option \<Rightarrow> int option \<Rightarrow> app_state \<Rightarrow> log_db \<Rightarrow> http_error + bucket_entry list" where
  "handle_tokens env start_ts end_ts s = ranged env start_ts end_ts s tokens_impl"

definition handle_model_dist ::
    "console_env \<Rightarrow> int option \<Rightarrow> int option \<Rightarrow> app_state \<Rightarrow> log_db \<Rightarrow> http_error + model_dist_entry list" where
  "handle_model_dist env start_ts end_ts s = ranged env start_ts end_ts s model_dist_impl"

definition handle_token_dist ::
    "console_env \<Rightarrow> int option \<Rightarrow> int option \<Rightarrow> app_state \<Rightarrow> log_db \<Rightarrow> http_error + token_dist_entry list" where
  "handle_token_dist env start_ts end_ts s = ranged env start_ts end_ts s token_dist_impl"

section \<open>The proxy log\<close>

definition max_per_page :: nat where
  "max_per_page = 100"

definition max_offset_rows :: nat where
  "max_offset_rows = 100000"

record proxy_log_query =
  pq_page :: "nat option"
  pq_per_page :: "nat option"
  pq_filters :: log_query

record log_listing =
  ll_items :: "proxy_event list"
  ll_total :: int
  ll_page :: nat
  ll_per_page :: nat

definition page_size :: "proxy_log_query \<Rightarrow> nat" where
  "page_size q = min (max (case pq_per_page q of Some n \<Rightarrow> n | None \<Rightarrow> 20) 1) max_per_page"

definition requested_page :: "proxy_log_query \<Rightarrow> nat" where
  "requested_page q = max (case pq_page q of Some n \<Rightarrow> n | None \<Rightarrow> 1) 1"

definition invalid_ts :: "console_env \<Rightarrow> int option \<Rightarrow> bool" where
  "invalid_ts env t = (case t of Some t \<Rightarrow> dk_from_ts (cn_duck env) t = None | None \<Rightarrow> False)"

definition list_proxy_logs :: "console_env \<Rightarrow> proxy_log_query \<Rightarrow> log_db \<Rightarrow> http_error + log_listing" where
  "list_proxy_logs env q d =
     (let per_page = page_size q;
          offset = min (saturating_mul (requested_page q - 1) per_page) max_offset_rows;
          page = offset div per_page + 1
      in if invalid_ts env (lq_start_ts (pq_filters q)) then
           Inl (into_response (re_rid (cn_run env)) (bad_request ''invalid start_ts''))
         else if invalid_ts env (lq_end_ts (pq_filters q)) then
           Inl (into_response (re_rid (cn_run env)) (bad_request ''invalid end_ts''))
         else and_then (map_err analytics_response (analytics_call (cn_call env)
                (query_proxy_logs_impl (cn_duck env)
                  ((pq_filters q)\<lparr>lq_page := page, lq_per_page := per_page\<rparr>) d))) (\<lambda>r.
                Inr \<lparr>ll_items = lp_items r, ll_total = lp_total r, ll_page = page, ll_per_page = per_page\<rparr>))"

section \<open>The overview\<close>

definition remote_user_from_headers ::
    "(string \<times> string) list \<Rightarrow> ip_addr \<Rightarrow> trusted_proxy list \<Rightarrow> string option" where
  "remote_user_from_headers headers direct_ip proxies =
     (if \<not> list_ex (\<lambda>t. trusted_proxy_contains t direct_ip) proxies then None
      else Option.bind (header_get ''remote-user'' headers) to_str)"

record 'f overview_stats =
  os_range_start :: int
  os_range_end :: int
  os_provider_count :: nat
  os_model_count :: nat
  os_api_request_count :: int
  os_token_consumption :: int
  os_rpm :: 'f
  os_tpm :: 'f
  os_username :: "string option"
  os_request_buckets :: "bucket_entry list"
  os_token_buckets :: "bucket_entry list"
  os_model_dist :: "model_dist_entry list"
  os_token_dist :: "token_dist_entry list"

definition count_both :: "db_env \<Rightarrow> database \<Rightarrow> db_error + nat \<times> nat" where
  "count_both env d =
     and_then (count_providers env d) (\<lambda>p. and_then (count_models env d) (\<lambda>m. Inr (p, m)))"

definition overview_stats ::
    "(int \<Rightarrow> int \<Rightarrow> 'f) \<Rightarrow> console_env \<Rightarrow> (string \<times> string) list \<Rightarrow> ip_addr \<Rightarrow> int option \<Rightarrow> int option
      \<Rightarrow> app_state \<Rightarrow> log_db \<Rightarrow> http_error + 'f overview_stats" where
  "overview_stats rate env headers peer start_ts end_ts s d =
     (let username = remote_user_from_headers headers peer (trusted_proxies (server (config s)))
      in and_then (validate_ts_range env start_ts end_ts (retention_days (log_cfg (config s)))) (\<lambda>range.
         and_then (db_or_http (cn_run env) (run_db_read (cn_run env) (count_both (re_db (cn_run env))) s)) (\<lambda>(p, m).
         and_then (map_err analytics_response (analytics_call (cn_call env)
           (overview_impl (cn_duck env) (vr_start range) (vr_end range) d))) (\<lambda>metrics.
           Inr \<lparr>os_range_start = vr_start range, os_range_end = vr_end range,
                os_provider_count = p, os_model_count = m,
                os_api_request_count = om_total_requests metrics,
                os_token_consumption = om_total_tokens metrics,
                os_rpm = rate (om_total_requests metrics) (vr_end range - vr_start range),
                os_tpm = rate (om_total_tokens metrics) (vr_end range - vr_start range),
                os_username = username, os_request_buckets = om_request_buckets metrics,
                os_token_buckets = om_token_buckets metrics, os_model_dist = om_model_dist metrics,
                os_token_dist = om_token_dist metrics\<rparr>))))"

section \<open>Facts\<close>

definition range_ok :: "console_env \<Rightarrow> nat \<Rightarrow> validated_range \<Rightarrow> bool" where
  "range_ok env retention r \<longleftrightarrow> vr_start r < vr_end r \<and> vr_end r \<le> cn_now env + 3600
     \<and> vr_end r - vr_start r \<le> (int retention + 1) * 86400"

lemma validate_ts_range_ok:
  "validate_ts_range env s e retention = Inr r \<Longrightarrow> range_ok env retention r"
  by (auto simp: validate_ts_range_def range_ok_def Let_def split: if_splits)

lemma analytics_call_ok: "analytics_call out q = Inr x \<longleftrightarrow> co_sent out \<and> co_in_time out \<and> q = Rows x"
  by (cases q) (auto simp: analytics_call_def send_result_def run_guarded_def)

lemma analytics_response_text:
  "fst (analytics_response e) = 503" "err_message (snd (analytics_response e)) \<in>
     {''analytics query timed out'', ''analytics service unavailable'', ''analytics query failed''}"
  by (cases e; simp add: analytics_response_def analytics_message_def mk_error_def)+

lemma db_or_http_ok: "db_or_http env r = Inr a \<longleftrightarrow> r = Inr (Inr a)"
  by (auto simp: db_or_http_def split: sum.splits)

lemma counts_ok:
  assumes "run_db_read env (count_both e) s = Inr (Inr (p, m))"
  shows "p = length (providers (db s)) \<and> m = length (models (db s))"
proof -
  have "count_both e (db s) = Inr (p, m)"
    using assms by (simp add: run_db_read_def run_blocking_Inr)
  then show ?thesis by (auto simp: count_both_def count_providers_def count_models_def and_then_Inr)
qed

lemma query_items_bounded:
  "query_proxy_logs_impl env q d = Rows p \<Longrightarrow> length (lp_items p) \<le> lq_per_page q"
  by (auto simp: query_proxy_logs_impl_def Let_def sql_bind_Rows sql_stmt_Rows split: if_splits)

section \<open>Properties\<close>

text \<open>
  A time range a console query asks for is brought within bounds before any row is read: a
  time chrono cannot represent is refused with 400; otherwise the range ends at the requested end,
  but at most an hour from now, starts before it ends, and spans at most one day more than logs
  are kept; a range within those bounds is taken as it was asked for.
\<close>

theorem ts_range_exact:
  "case validate_ts_range env start_ts end_ts retention of
     Inl err \<Rightarrow> fst err = 400 \<and> (dk_from_ts (cn_duck env) (case start_ts of Some t \<Rightarrow> t | None \<Rightarrow> cn_now env - 30 * 86400) = None
       \<or> dk_from_ts (cn_duck env) (case end_ts of Some t \<Rightarrow> t | None \<Rightarrow> cn_now env) = None)
   | Inr r \<Rightarrow> vr_end r = min (case end_ts of Some t \<Rightarrow> t | None \<Rightarrow> cn_now env) (cn_now env + 3600)
       \<and> vr_start r = (let start = (case start_ts of Some t \<Rightarrow> t | None \<Rightarrow> cn_now env - 30 * 86400)
           in if start < vr_end r then max start (vr_end r - (int retention + 1) * 86400) else vr_end r - 86400)
       \<and> vr_start r < vr_end r \<and> vr_end r - vr_start r \<le> (int retention + 1) * 86400"
proof (cases "validate_ts_range env start_ts end_ts retention")
  case (Inl err)
  then show ?thesis
    by (auto simp: validate_ts_range_def Let_def error_defs split: if_splits)
next
  case (Inr r)
  then have "vr_end r = min (case end_ts of Some t \<Rightarrow> t | None \<Rightarrow> cn_now env) (cn_now env + 3600)
       \<and> vr_start r = (let start = (case start_ts of Some t \<Rightarrow> t | None \<Rightarrow> cn_now env - 30 * 86400)
           in if start < vr_end r then max start (vr_end r - (int retention + 1) * 86400) else vr_end r - 86400)"
    by (auto simp: validate_ts_range_def Let_def split: if_splits)
  with Inr validate_ts_range_ok [OF Inr] show ?thesis by (simp add: range_ok_def)
qed

text \<open>
  C32: A page of the proxy log costs a bounded scan whatever page is asked for: the page size is
  between 1 and 100, at most 100000 rows are skipped, no more rows than the page size are
  returned, and the page the answer names is the one that was read: the requested one unless the
  bound on skipped rows moved it back. A failure is a 400 for a bad time or a 503 with one of
  three fixed texts, never the text of the database.
\<close>

theorem log_listing_bounded:
  "case list_proxy_logs env q d of
     Inr l \<Rightarrow> 1 \<le> ll_per_page l \<and> ll_per_page l \<le> 100 \<and> (ll_page l - 1) * ll_per_page l \<le> 100000
       \<and> length (ll_items l) \<le> ll_per_page l
       \<and> ll_page l = (if (requested_page q - 1) * ll_per_page l \<le> 100000 then requested_page q
                      else 100000 div ll_per_page l + 1)
       \<and> query_proxy_logs_impl (cn_duck env) ((pq_filters q)\<lparr>lq_page := ll_page l, lq_per_page := ll_per_page l\<rparr>) d
         = Rows \<lparr>lp_items = ll_items l, lp_total = ll_total l\<rparr>
   | Inl err \<Rightarrow> fst err = 400 \<and> err_message (snd err) \<in> {''invalid start_ts'', ''invalid end_ts''}
       \<or> fst err = 503 \<and> err_message (snd err) \<in> {''analytics query timed out'',
            ''analytics service unavailable'', ''analytics query failed''}"
proof (cases "list_proxy_logs env q d")
  case (Inl err)
  then show ?thesis
    using analytics_response_text
    by (auto simp: list_proxy_logs_def Let_def and_then_Inl map_err_Inl error_defs simp del: insert_iff split: if_splits)
next
  case (Inr l)
  let ?pp = "page_size q" and ?page = "min (saturating_mul (requested_page q - 1) (page_size q)) max_offset_rows div page_size q + 1"
  have pp: "1 \<le> ?pp" "?pp \<le> 100" by (auto simp: page_size_def max_per_page_def)
  obtain r where r: "query_proxy_logs_impl (cn_duck env) ((pq_filters q)\<lparr>lq_page := ?page, lq_per_page := ?pp\<rparr>) d = Rows r"
    and l: "l = \<lparr>ll_items = lp_items r, ll_total = lp_total r, ll_page = ?page, ll_per_page = ?pp\<rparr>"
    using Inr by (auto simp: list_proxy_logs_def Let_def and_then_Inr map_err_Inr analytics_call_ok split: if_splits)
  have "(?page - 1) * ?pp \<le> 100000"
    using div_times_less_eq_dividend [of "min (saturating_mul (requested_page q - 1) ?pp) max_offset_rows" ?pp]
    by (simp add: max_offset_rows_def)
  moreover have "?page = (if (requested_page q - 1) * ?pp \<le> 100000 then requested_page q else 100000 div ?pp + 1)"
  proof (cases "(requested_page q - 1) * ?pp \<le> 100000")
    case True
    then have "min (saturating_mul (requested_page q - 1) ?pp) max_offset_rows = (requested_page q - 1) * ?pp"
      by (simp add: saturating_mul_def max_offset_rows_def)
    moreover have "requested_page q - 1 + 1 = requested_page q" by (simp add: requested_page_def)
    ultimately show ?thesis using True pp by simp
  next
    case False
    then have "min (saturating_mul (requested_page q - 1) ?pp) max_offset_rows = 100000"
      by (simp add: saturating_mul_def max_offset_rows_def)
    with False show ?thesis by simp
  qed
  ultimately show ?thesis
    using pp query_items_bounded [OF r] r unfolding Inr l by simp
qed

text \<open>
  The overview names a user only on the word of a trusted proxy, and computes its rates over
  a range that is never empty: when it answers, the user is the \<open>Remote-User\<close> header of a request
  whose direct peer is in the configured proxies, and no user otherwise; the range is within the
  bounds of every console query, so the division by its length is by a positive number; the
  counts are those of the tables and the metrics those of that range.
\<close>

theorem overview_stats_sound:
  "case overview_stats rate env headers peer start_ts end_ts s d of
     Inl err \<Rightarrow> fst err \<in> {400, 404, 409, 500, 503}
   | Inr o1 \<Rightarrow> os_username o1 = (if is_trusted_proxy peer (trusted_proxies (server (config s)))
         then Option.bind (header_get ''remote-user'' headers) to_str else None)
       \<and> 0 < os_range_end o1 - os_range_start o1
       \<and> os_range_end o1 - os_range_start o1 \<le> (int (retention_days (log_cfg (config s))) + 1) * 86400
       \<and> os_provider_count o1 = length (providers (db s)) \<and> os_model_count o1 = length (models (db s))
       \<and> os_rpm o1 = rate (os_api_request_count o1) (os_range_end o1 - os_range_start o1)
       \<and> (\<exists>m. overview_impl (cn_duck env) (os_range_start o1) (os_range_end o1) d = Rows m
            \<and> os_api_request_count o1 = om_total_requests m \<and> os_token_consumption o1 = om_total_tokens m)"
proof (cases "overview_stats rate env headers peer start_ts end_ts s d")
  case (Inl err)
  then show ?thesis
    by (auto simp: overview_stats_def Let_def and_then_Inl map_err_Inl validate_ts_range_def db_or_http_def error_defs
      from_db_error_def analytics_response_def split: if_splits sum.splits db_error.splits)
next
  case (Inr o1)
  then obtain r where r: "validate_ts_range env start_ts end_ts (retention_days (log_cfg (config s))) = Inr r"
    by (auto simp: overview_stats_def Let_def and_then_Inr)
  show ?thesis
    unfolding Inr sum.case using Inr validate_ts_range_ok [OF r]
    by (auto simp: overview_stats_def Let_def and_then_Inr map_err_Inr r range_ok_def analytics_call_ok
      remote_user_from_headers_def is_trusted_proxy_def db_or_http_ok dest!: counts_ok)
qed

end
