(* ===== verification/Loki.thy ===== *)
theory Loki
  imports Logger Config "HOL-Library.Product_Lexorder"
begin

text \<open>
  \<open>src/src/db/loki.rs\<close>: the optional push of log events to Loki. The serialisation of an event to
  its JSON line (\<open>serde_json::to_string\<close> on a derived serialiser) is the argument \<open>line\<close>; what
  the HTTP push answers is an argument of the flush. A \<open>BTreeMap\<close> is an association list in
  key order; the iteration order of a \<open>HashMap\<close> is the order of its list.
\<close>

section \<open>Ordered maps\<close>

fun bt_insert :: "'k::linorder \<Rightarrow> 'v \<Rightarrow> ('k \<times> 'v) list \<Rightarrow> ('k \<times> 'v) list" where
  "bt_insert k v [] = [(k, v)]"
| "bt_insert k v ((k', v') # m) =
     (if k = k' then (k, v) # m
      else if k < k' then (k, v) # (k', v') # m
      else (k', v') # bt_insert k v m)"

text \<open>\<open>map.entry(k).or_default().push(v)\<close>\<close>

definition bt_push :: "'k::linorder \<Rightarrow> 'v \<Rightarrow> ('k \<times> 'v list) list \<Rightarrow> ('k \<times> 'v list) list" where
  "bt_push k v m = bt_insert k ((case map_of m k of Some vs \<Rightarrow> vs | None \<Rightarrow> []) @ [v]) m"

section \<open>Labels\<close>

definition is_ascii_alphabetic :: "char \<Rightarrow> bool" where
  "is_ascii_alphabetic c = (is_upper c \<or> is_lower c)"

definition is_valid_label_name :: "string \<Rightarrow> bool" where
  "is_valid_label_name name =
     (name \<noteq> [] \<and> (is_ascii_alphabetic (hd name) \<or> hd name = CHR ''_'')
      \<and> list_all (\<lambda>c. is_ascii_alphanumeric c \<or> c = CHR ''_'') name)"

type_synonym labels = "(string \<times> string) list"

definition sanitize_static_labels :: "labels \<Rightarrow> labels" where
  "sanitize_static_labels raw = filter (\<lambda>(k, _). is_valid_label_name k) raw"

definition bool_text :: "bool \<Rightarrow> string" where
  "bool_text b = (if b then ''true'' else ''false'')"

fun event_labels :: "log_event \<Rightarrow> labels" where
  "event_labels (Access e) = [(''event_type'', ''access''), (''method'', ae_method e)]"
| "event_labels (Proxy e) = [(''event_type'', ''proxy''), (''model_name'', pe_model_name e),
     (''status'', pe_status e), (''is_streaming'', bool_text (pe_is_streaming e))]"
| "event_labels (Audit e) = [(''event_type'', ''audit''), (''action'', au_action e),
     (''resource'', au_resource e)]"
| "event_labels Shutdown = []"

definition event_to_labels :: "log_event \<Rightarrow> labels \<Rightarrow> labels" where
  "event_to_labels event static_labels =
     fold (\<lambda>(k, v). bt_insert k v) (event_labels event)
       (fold (\<lambda>(k, v). bt_insert k v) static_labels [])"

section \<open>The payload\<close>

text \<open>\<open>timestamp_nanos_opt().unwrap_or(0)\<close>: nanoseconds that fit an \<open>i64\<close>.\<close>

definition timestamp_nanos :: "datetime \<Rightarrow> int" where
  "timestamp_nanos dt = (if - (2 ^ 63) \<le> dt \<and> dt < 2 ^ 63 then dt else 0)"

type_synonym stream_values = "(int \<times> string) list"

definition add_event ::
    "(log_event \<Rightarrow> string) \<Rightarrow> labels \<Rightarrow> log_event \<Rightarrow> (labels \<times> stream_values) list
      \<Rightarrow> (labels \<times> stream_values) list" where
  "add_event line static_labels event groups =
     (if event = Shutdown then groups
      else bt_push (event_to_labels event static_labels)
        (timestamp_nanos (event_time event), line event) groups)"

definition group_events ::
    "(log_event \<Rightarrow> string) \<Rightarrow> labels \<Rightarrow> log_event list \<Rightarrow> (labels \<times> stream_values) list" where
  "group_events line static_labels events = fold (add_event line static_labels) events []"

definition stream_json :: "labels \<times> stream_values \<Rightarrow> json" where
  "stream_json g = (case g of (ls, vs) \<Rightarrow>
     Object [(''stream'', Object (map (\<lambda>(k, v). (k, String v)) ls)),
       (''values'', Array (map (\<lambda>(ns, l). Array [String (show_int ns), String l]) (sort_key fst vs)))])"

definition build_push_payload ::
    "(log_event \<Rightarrow> string) \<Rightarrow> log_event list \<Rightarrow> labels \<Rightarrow> json" where
  "build_push_payload line events static_labels =
     Object [(''streams'', Array (map stream_json (group_events line static_labels events)))]"

section \<open>The sink\<close>

definition loki_channel_cap :: nat where
  "loki_channel_cap = 4096"

datatype loki_init_error = InvalidUrl string | ClientFailed string | IncompleteBasicAuth

record loki_state =
  lk_push_url :: string
  lk_static_labels :: labels
  lk_basic_user :: "string option"
  lk_basic_password :: "string option"
  lk_bearer_token :: "string option"
  lk_batch_size :: nat
  lk_interval :: nat

text \<open>\<open>scheme\<close> is the scheme the URL parser finds, \<open>client\<close> whether the HTTP client can be built.\<close>

definition loki_new ::
    "(string \<Rightarrow> string option) \<Rightarrow> string + unit \<Rightarrow> loki_config \<Rightarrow> loki_init_error + loki_state" where
  "loki_new scheme client cfg =
     (let push_url = trim_end_char (CHR ''/'') (loki_url cfg) @ ''/loki/api/v1/push''
      in if scheme push_url \<notin> {Some ''http'', Some ''https''} then Inl (InvalidUrl push_url)
         else if (basic_auth_user cfg = None) \<noteq> (basic_auth_password cfg = None) then
           Inl IncompleteBasicAuth
         else (case client of
             Inl e \<Rightarrow> Inl (ClientFailed e)
           | Inr _ \<Rightarrow> Inr \<lparr>lk_push_url = push_url,
               lk_static_labels = sanitize_static_labels (loki_labels cfg),
               lk_basic_user = basic_auth_user cfg, lk_basic_password = basic_auth_password cfg,
               lk_bearer_token = bearer_token cfg, lk_batch_size = max (loki_batch_size cfg) 1,
               lk_interval = max (loki_interval_secs cfg) 1\<rparr>))"

record loki_request =
  lr_url :: string
  lr_body :: json
  lr_basic :: "(string \<times> string) option"
  lr_bearer :: "string option"

record loki_worker_state =
  lw_buffer :: "log_event list"
  lw_failures :: "64 word"
  lw_pushed :: "loki_request list"
  lw_running :: bool

definition push_request :: "(log_event \<Rightarrow> string) \<Rightarrow> loki_state \<Rightarrow> log_event list \<Rightarrow> loki_request" where
  "push_request line st events =
     \<lparr>lr_url = lk_push_url st, lr_body = build_push_payload line events (lk_static_labels st),
      lr_basic = (case (lk_basic_user st, lk_basic_password st) of
        (Some u, Some p) \<Rightarrow> Some (u, p) | _ \<Rightarrow> None),
      lr_bearer = lk_bearer_token st\<rparr>"

text \<open>\<open>accepted\<close> says whether the push is answered with a success status.\<close>

definition flush_loki ::
    "(log_event \<Rightarrow> string) \<Rightarrow> loki_state \<Rightarrow> bool \<Rightarrow> loki_worker_state \<Rightarrow> loki_worker_state" where
  "flush_loki line st accepted w =
     w\<lparr>lw_pushed := lw_pushed w @ [push_request line st (lw_buffer w)], lw_buffer := [],
       lw_failures := (if accepted then 0 else lw_failures w + 1)\<rparr>"

definition loki_turn ::
    "(log_event \<Rightarrow> string) \<Rightarrow> loki_state \<Rightarrow> (nat \<Rightarrow> bool) \<Rightarrow> received \<Rightarrow> log_event list
      \<Rightarrow> loki_worker_state \<Rightarrow> loki_worker_state" where
  "loki_turn line st ok first drained w =
     (if \<not> lw_running w then w
      else
        (let flushed = (if lw_buffer w \<noteq> [] then flush_loki line st (ok 0) w else w)
         in if first = Gone then flushed\<lparr>lw_running := False\<rparr>
            else
              (let w1 = (case first of
                     Got e \<Rightarrow> if is_shutdown e then w else w\<lparr>lw_buffer := lw_buffer w @ [e]\<rparr>
                   | _ \<Rightarrow> flushed);
                   w2 = w1\<lparr>lw_buffer := lw_buffer w1 @ filter (\<lambda>e. \<not> is_shutdown e) drained\<rparr>;
                   w3 = (if length (lw_buffer w2) \<ge> lk_batch_size st then flush_loki line st (ok 1) w2 else w2)
               in if first = Got Shutdown \<or> Shutdown \<in> set drained then
                    (if lw_buffer w3 \<noteq> [] then flush_loki line st (ok 2) w3 else w3)\<lparr>lw_running := False\<rparr>
                  else w3)))"

text \<open>The worker over a whole run: what each \<open>recv_timeout\<close> gave and what was drained after it.\<close>

record loki_input =
  li_accepted :: "nat \<Rightarrow> bool"
  li_first :: received
  li_drained :: "log_event list"

fun loki_worker ::
    "(log_event \<Rightarrow> string) \<Rightarrow> loki_state \<Rightarrow> loki_input list \<Rightarrow> loki_worker_state \<Rightarrow> loki_worker_state \<times> log_event list" where
  "loki_worker line st [] w = (w, [])"
| "loki_worker line st (t # ts) w =
     (if \<not> lw_running w then (w, [])
      else (case loki_worker line st ts
              (loki_turn line st (li_accepted t) (li_first t) (li_drained t) w) of
        (w', es) \<Rightarrow> (w', (case li_first t of
             Got e \<Rightarrow> e # li_drained t | Quiet \<Rightarrow> li_drained t | Gone \<Rightarrow> []) @ es)))"

section \<open>The manager\<close>

text \<open>
  \<open>LogManager::new\<close>: the steps that can fail are opening the database, the limits, the schema and
  the two cloned connections (\<open>df\<close>); a Loki sink that cannot be set up is left out.
\<close>

definition log_manager_new ::
    "(string \<Rightarrow> string option) \<Rightarrow> string + unit \<Rightarrow> driver_faults \<Rightarrow> log_config
      \<Rightarrow> (log_manager \<times> loki_state option) option" where
  "log_manager_new scheme client df cfg =
     (if df 0 \<or> df 1 \<or> df 2 \<or> df 3 \<or> df 4 then None
      else
        (let sink = (if loki_enabled (loki cfg) \<and> loki_url (loki cfg) \<noteq> [] then
               (case loki_new scheme client (loki cfg) of Inr st \<Rightarrow> Some st | Inl _ \<Rightarrow> None)
             else None)
         in Some (\<lparr>lm_sender = \<lparr>ch_queue = [], ch_cap = channel_cap cfg\<rparr>,
                   lm_loki = map_option (\<lambda>_. \<lparr>ch_queue = [], ch_cap = loki_channel_cap\<rparr>) sink\<rparr>, sink)))"

text \<open>\<open>LogManager::shutdown\<close>: the log worker first, then Loki; each is joined when it has the signal.\<close>

definition lm_shutdown :: "nat list \<Rightarrow> nat list \<Rightarrow> log_manager \<Rightarrow> bool \<times> bool \<times> log_manager" where
  "lm_shutdown frees loki_frees lm =
     (case signal_shutdown frees (lm_sender lm) of (joined, ch) \<Rightarrow>
        (case lm_loki lm of
           None \<Rightarrow> (joined, True, lm\<lparr>lm_sender := ch\<rparr>)
         | Some l \<Rightarrow>
             (case signal_shutdown loki_frees l of (loki_joined, l') \<Rightarrow>
                (joined, loki_joined, lm\<lparr>lm_sender := ch, lm_loki := Some l'\<rparr>))))"

section \<open>Facts\<close>

lemma map_of_bt_insert [simp]: "map_of (bt_insert k v m) = (map_of m)(k \<mapsto> v)"
  by (induction k v m rule: bt_insert.induct) (auto simp: fun_eq_iff)

lemma keys_bt_insert: "fst ` set (bt_insert k v m) = insert k (fst ` set m)"
  by (induction k v m rule: bt_insert.induct) auto

lemma sorted_bt_insert:
  "sorted_wrt (<) (map fst m) \<Longrightarrow> sorted_wrt (<) (map fst (bt_insert k v m))"
proof (induction k v m rule: bt_insert.induct)
  case (2 k v k' v' m)
  have keys: "x \<in> set (map fst (bt_insert k v m)) \<Longrightarrow> x = k \<or> x \<in> set (map fst m)" for x
    using keys_bt_insert [of k v m] by auto
  consider "k = k'" | "k < k'" | "k' < k" by (rule linorder_cases)
  then show ?case
  proof cases
    case 1
    with 2 show ?thesis by simp
  next
    case 2
    with "2.prems" show ?thesis by (auto intro: order.strict_trans)
  next
    case 3
    with 2 show ?thesis using keys by (auto simp del: set_map)
  qed
qed simp

text \<open>What a grouped map holds of each key.\<close>

definition entries :: "('k \<times> 'v list) list \<Rightarrow> 'k \<Rightarrow> 'v list" where
  "entries m k = (case map_of m k of Some vs \<Rightarrow> vs | None \<Rightarrow> [])"

lemma entries_push: "entries (bt_push k v m) k' = (if k' = k then entries m k @ [v] else entries m k')"
  by (simp add: entries_def bt_push_def)

lemma sorted_bt_push:
  "sorted_wrt (<) (map fst m) \<Longrightarrow> sorted_wrt (<) (map fst (bt_push k v m))"
  by (simp add: bt_push_def sorted_bt_insert)

definition label_entry :: "(log_event \<Rightarrow> string) \<Rightarrow> log_event \<Rightarrow> int \<times> string" where
  "label_entry line e = (timestamp_nanos (event_time e), line e)"

lemma group_fold:
  "sorted_wrt (<) (map fst g) \<Longrightarrow>
   sorted_wrt (<) (map fst (fold (add_event line sl) es g))
   \<and> entries (fold (add_event line sl) es g) ls = entries g ls
       @ map (label_entry line) (filter (\<lambda>e. e \<noteq> Shutdown \<and> event_to_labels e sl = ls) es)
   \<and> fst ` set (fold (add_event line sl) es g) = fst ` set g
       \<union> (\<lambda>e. event_to_labels e sl) ` {e \<in> set es. e \<noteq> Shutdown}"
proof (induction es arbitrary: g)
  case (Cons e es)
  have s: "sorted_wrt (<) (map fst (add_event line sl e g))"
    using Cons.prems by (simp add: add_event_def sorted_bt_push)
  have k: "fst ` set (add_event line sl e g) = fst ` set g \<union> (if e = Shutdown then {} else {event_to_labels e sl})"
    by (simp add: add_event_def bt_push_def keys_bt_insert)
  have en: "entries (add_event line sl e g) ls = entries g ls
      @ (if e \<noteq> Shutdown \<and> event_to_labels e sl = ls then [label_entry line e] else [])"
    by (auto simp: add_event_def entries_push label_entry_def)
  show ?case using Cons.IH [OF s] by (auto simp: k en)
qed simp

lemma map_of_distinct_iff: "distinct (map fst m) \<Longrightarrow> (k, v) \<in> set m \<longleftrightarrow> map_of m k = Some v"
  by (simp add: map_of_eq_Some_iff)

lemma sorted_distinct: "sorted_wrt (<) (map fst m) \<Longrightarrow> distinct (map fst (m :: ('a::linorder \<times> 'b) list))"
  by (simp add: strict_sorted_iff)

lemma fold_insert_keys:
  "fst ` set (fold (\<lambda>(k, v). bt_insert k v) xs m) = fst ` set xs \<union> fst ` set m"
proof (induction xs arbitrary: m)
  case (Cons x xs)
  then show ?case by (cases x) (auto simp: keys_bt_insert)
qed simp

lemma event_label_names: "k \<in> fst ` set (event_labels e) \<Longrightarrow> is_valid_label_name k"
proof -
  have "list_all is_valid_label_name [''event_type'', ''method'', ''model_name'', ''status'', ''is_streaming'',
      ''action'', ''resource'']" by code_simp
  then show "k \<in> fst ` set (event_labels e) \<Longrightarrow> is_valid_label_name k" by (cases e) auto
qed

lemma pushed_label_names:
  "(k, v) \<in> set (event_to_labels e (sanitize_static_labels sl)) \<Longrightarrow> is_valid_label_name k"
proof -
  assume "(k, v) \<in> set (event_to_labels e (sanitize_static_labels sl))"
  then have "k \<in> fst ` set (event_to_labels e (sanitize_static_labels sl))"
    by (rule rev_image_eqI) simp
  then have "k \<in> fst ` set (event_labels e) \<union> fst ` set (sanitize_static_labels sl)"
    by (simp add: event_to_labels_def fold_insert_keys)
  then show ?thesis using event_label_names by (auto simp: sanitize_static_labels_def)
qed

text \<open>What is pushed of one stream.\<close>

definition stream_events :: "log_event list \<Rightarrow> labels \<Rightarrow> labels \<Rightarrow> log_event list" where
  "stream_events es sl ls = filter (\<lambda>e. e \<noteq> Shutdown \<and> event_to_labels e sl = ls) es"

lemma group_events_exact:
  "distinct (map fst (group_events line sl es))"
  "(ls, vs) \<in> set (group_events line sl es) \<longleftrightarrow>
     vs = map (label_entry line) (stream_events es sl ls) \<and> stream_events es sl ls \<noteq> []"
proof -
  let ?g = "group_events line sl es"
  have s: "sorted_wrt (<) (map fst ?g)" and en: "entries ?g ls = map (label_entry line) (stream_events es sl ls)"
    and k: "fst ` set ?g = (\<lambda>e. event_to_labels e sl) ` {e \<in> set es. e \<noteq> Shutdown}"
    using group_fold [of "[]" line sl es ls]
    by (simp_all add: group_events_def stream_events_def entries_def)
  show d: "distinct (map fst ?g)" by (rule sorted_distinct [OF s])
  have mem: "(ls, vs) \<in> set ?g \<longleftrightarrow> map_of ?g ls = Some vs" by (rule map_of_distinct_iff [OF d])
  have dom: "map_of ?g ls \<noteq> None \<longleftrightarrow> stream_events es sl ls \<noteq> []"
    using k by (auto simp: map_of_eq_None_iff stream_events_def filter_empty_conv)
  show "(ls, vs) \<in> set ?g \<longleftrightarrow> vs = map (label_entry line) (stream_events es sl ls) \<and> stream_events es sl ls \<noteq> []"
    using mem dom en by (cases "map_of ?g ls") (auto simp: entries_def)
qed

text \<open>Strictly ordered keys are the sorted list of their set, so the groups are determined.\<close>

lemma group_events_list:
  "group_events line sl es = map (\<lambda>ls. (ls, map (label_entry line) (stream_events es sl ls)))
     (sorted_list_of_set ((\<lambda>e. event_to_labels e sl) ` (set es - {Shutdown})))"
proof -
  let ?g = "group_events line sl es"
  have s: "sorted_wrt (<) (map fst ?g)"
    and k: "fst ` set ?g = (\<lambda>e. event_to_labels e sl) ` {e \<in> set es. e \<noteq> Shutdown}"
    using group_fold [of "[]" line sl es] by (simp_all add: group_events_def)
  have "map fst ?g = sorted_list_of_set (set (map fst ?g))"
    by (rule sorted_list_of_set.idem_if_sorted_distinct [symmetric])
      (use s in \<open>simp_all add: strict_sorted_iff\<close>)
  also have "set (map fst ?g) = (\<lambda>e. event_to_labels e sl) ` (set es - {Shutdown})"
    using k by (simp add: set_diff_eq)
  finally have keys: "map fst ?g = sorted_list_of_set ((\<lambda>e. event_to_labels e sl) ` (set es - {Shutdown}))" .
  have "?g = map (\<lambda>ls. (ls, map (label_entry line) (stream_events es sl ls))) (map fst ?g)"
    using group_events_exact(2) [of _ _ line sl es] by (auto simp: comp_def intro!: map_idI [symmetric])
  then show ?thesis by (simp only: keys)
qed

section \<open>The worker\<close>

text \<open>The requests a worker has sent are those of its batches; with the buffer they are its events.\<close>

definition lw_carries ::
    "(log_event \<Rightarrow> string) \<Rightarrow> loki_state \<Rightarrow> loki_worker_state \<Rightarrow> log_event list \<Rightarrow> bool" where
  "lw_carries line st w es \<longleftrightarrow> (\<exists>batches. lw_pushed w = map (push_request line st) batches
     \<and> concat batches @ lw_buffer w = es \<and> [] \<notin> set batches)"

lemma carries_flush:
  "lw_carries line st w es \<Longrightarrow> lw_buffer w \<noteq> [] \<Longrightarrow> lw_carries line st (flush_loki line st ok w) es"
proof -
  assume "lw_carries line st w es" "lw_buffer w \<noteq> []"
  then obtain bs where "lw_pushed w = map (push_request line st) bs" "concat bs @ lw_buffer w = es" "[] \<notin> set bs"
    by (auto simp: lw_carries_def)
  then show ?thesis using \<open>lw_buffer w \<noteq> []\<close>
    by (auto simp: lw_carries_def flush_loki_def intro!: exI [of _ "bs @ [lw_buffer w]"])
qed

lemma carries_push:
  "lw_carries line st w es \<Longrightarrow> lw_carries line st (w\<lparr>lw_buffer := lw_buffer w @ es'\<rparr>) (es @ es')"
  by (auto simp: lw_carries_def)

lemma carries_stop: "lw_carries line st w es \<Longrightarrow> lw_carries line st (w\<lparr>lw_running := b\<rparr>) es"
  by (auto simp: lw_carries_def)

lemma flush_loki_fields [simp]:
  "lw_buffer (flush_loki line st ok w) = []" "lw_running (flush_loki line st ok w) = lw_running w"
  by (simp_all add: flush_loki_def)

lemma carries_flush_if:
  "lw_carries line st w es \<Longrightarrow> lw_carries line st (if lw_buffer w \<noteq> [] then flush_loki line st ok w else w) es"
  by (simp add: carries_flush)

text \<open>The part of a turn after \<open>recv_timeout\<close>.\<close>

definition loki_rest ::
    "(log_event \<Rightarrow> string) \<Rightarrow> loki_state \<Rightarrow> (nat \<Rightarrow> bool) \<Rightarrow> bool \<Rightarrow> log_event list
      \<Rightarrow> loki_worker_state \<Rightarrow> loki_worker_state" where
  "loki_rest line st ok stop drained w1 =
     (let w2 = w1\<lparr>lw_buffer := lw_buffer w1 @ filter (\<lambda>e. \<not> is_shutdown e) drained\<rparr>;
          w3 = (if length (lw_buffer w2) \<ge> lk_batch_size st then flush_loki line st (ok 1) w2 else w2)
      in if stop then (if lw_buffer w3 \<noteq> [] then flush_loki line st (ok 2) w3 else w3)\<lparr>lw_running := False\<rparr>
         else w3)"

lemma loki_rest_carries:
  fixes ok stop drained
  assumes "lw_carries line st w1 es" and "0 < lk_batch_size st" and "lw_running w1"
  defines "w \<equiv> loki_rest line st ok stop drained w1"
  shows "lw_carries line st w (es @ filter (\<lambda>e. \<not> is_shutdown e) drained)"
    and "length (lw_buffer w) < lk_batch_size st" and "lw_running w \<longleftrightarrow> \<not> stop"
    and "stop \<Longrightarrow> lw_buffer w = []"
proof -
  let ?w2 = "w1\<lparr>lw_buffer := lw_buffer w1 @ filter (\<lambda>e. \<not> is_shutdown e) drained\<rparr>"
  let ?w3 = "if length (lw_buffer ?w2) \<ge> lk_batch_size st then flush_loki line st (ok 1) ?w2 else ?w2"
  have 2: "lw_carries line st ?w2 (es @ filter (\<lambda>e. \<not> is_shutdown e) drained)"
    by (rule carries_push [OF assms(1)])
  have 3: "lw_carries line st ?w3 (es @ filter (\<lambda>e. \<not> is_shutdown e) drained)"
  proof (cases "length (lw_buffer ?w2) \<ge> lk_batch_size st")
    case True
    then have "lw_buffer ?w2 \<noteq> []" using assms(2) by (metis leD list.size(3))
    with True show ?thesis using carries_flush [OF 2] by simp
  qed (use 2 in simp)
  show "lw_carries line st w (es @ filter (\<lambda>e. \<not> is_shutdown e) drained)"
    unfolding w_def loki_rest_def Let_def
    using carries_stop [OF carries_flush_if [OF 3]] 3 by (simp only: split: if_split) blast
  show "length (lw_buffer w) < lk_batch_size st" "lw_running w \<longleftrightarrow> \<not> stop" "stop \<Longrightarrow> lw_buffer w = []"
    using assms(2,3) by (auto simp: w_def loki_rest_def Let_def)
qed

lemma loki_turn_rest:
  assumes "lw_running w"
  shows "loki_turn line st ok Gone drained w
      = (if lw_buffer w \<noteq> [] then flush_loki line st (ok 0) w else w)\<lparr>lw_running := False\<rparr>"
    and "loki_turn line st ok Quiet drained w = loki_rest line st ok (Shutdown \<in> set drained) drained
      (if lw_buffer w \<noteq> [] then flush_loki line st (ok 0) w else w)"
    and "loki_turn line st ok (Got e) drained w = loki_rest line st ok (e = Shutdown \<or> Shutdown \<in> set drained) drained
      (w\<lparr>lw_buffer := lw_buffer w @ filter (\<lambda>e. \<not> is_shutdown e) [e]\<rparr>)"
  using assms by (simp_all add: loki_turn_def loki_rest_def Let_def)

definition input_events :: "loki_input \<Rightarrow> log_event list" where
  "input_events t = (case li_first t of
     Got e \<Rightarrow> e # li_drained t | Quiet \<Rightarrow> li_drained t | Gone \<Rightarrow> [])"

definition lw_ok :: "loki_state \<Rightarrow> loki_worker_state \<Rightarrow> bool" where
  "lw_ok st w \<longleftrightarrow> length (lw_buffer w) < lk_batch_size st \<and> (\<not> lw_running w \<longrightarrow> lw_buffer w = [])"

lemma loki_turn_carries:
  fixes t :: loki_input
  assumes "lw_running w" and "lw_carries line st w es" and "lw_ok st w"
  defines "w' \<equiv> loki_turn line st (li_accepted t) (li_first t) (li_drained t) w"
  shows "lw_carries line st w' (es @ filter (\<lambda>e. \<not> is_shutdown e) (input_events t))" and "lw_ok st w'"
proof -
  have b: "0 < lk_batch_size st" using assms(3) by (auto simp: lw_ok_def)
  have run: "lw_running (if lw_buffer w \<noteq> [] then flush_loki line st (li_accepted t 0) w else w)"
    using assms(1) by simp
  consider (gone) "li_first t = Gone" | (quiet) "li_first t = Quiet" | (got) e where "li_first t = Got e"
    by (cases "li_first t") auto
  then have "lw_carries line st w' (es @ filter (\<lambda>e. \<not> is_shutdown e) (input_events t)) \<and> lw_ok st w'"
  proof cases
    case gone
    then show ?thesis
      unfolding w'_def gone loki_turn_rest(1) [OF assms(1)]
      using carries_stop [OF carries_flush_if [OF assms(2)]] b by (auto simp: input_events_def gone lw_ok_def)
  next
    case quiet
    show ?thesis
      unfolding w'_def quiet loki_turn_rest(2) [OF assms(1)]
      using loki_rest_carries [OF carries_flush_if [OF assms(2)] b run] by (simp add: input_events_def quiet lw_ok_def)
  next
    case got
    let ?w1 = "w\<lparr>lw_buffer := lw_buffer w @ filter (\<lambda>e. \<not> is_shutdown e) [e]\<rparr>"
    have run1: "lw_running ?w1" using assms(1) by simp
    have evs: "es @ filter (\<lambda>e. \<not> is_shutdown e) (input_events t)
        = (es @ filter (\<lambda>e. \<not> is_shutdown e) [e]) @ filter (\<lambda>e. \<not> is_shutdown e) (li_drained t)"
      by (simp add: input_events_def got)
    show ?thesis
      unfolding w'_def got loki_turn_rest(3) [OF assms(1)] evs lw_ok_def
      using loki_rest_carries [OF carries_push [OF assms(2)] b run1] by (metis (no_types, lifting))
  qed
  then show "lw_carries line st w' (es @ filter (\<lambda>e. \<not> is_shutdown e) (input_events t))" and "lw_ok st w'"
    by simp_all
qed

lemma loki_worker_carries:
  "loki_worker line st ts w = (w', es) \<Longrightarrow> lw_carries line st w es0 \<Longrightarrow> lw_ok st w \<Longrightarrow>
     lw_carries line st w' (es0 @ filter (\<lambda>e. \<not> is_shutdown e) es) \<and> lw_ok st w'"
proof (induction ts arbitrary: w es es0)
  case (Cons t ts)
  show ?case
  proof (cases "lw_running w")
    case True
    obtain es1 where r: "loki_worker line st ts (loki_turn line st (li_accepted t) (li_first t) (li_drained t) w)
        = (w', es1)" "es = input_events t @ es1"
      using Cons.prems(1) True by (auto simp: input_events_def split: prod.splits)
    show ?thesis
      using Cons.IH [OF r(1) loki_turn_carries [OF True Cons.prems(2,3)]] by (simp add: r(2))
  qed (use Cons.prems in simp)
qed simp

section \<open>Properties\<close>

text \<open>
  A push to Loki carries every event of its batch exactly once. The payload has one stream
  for every label set that occurs, in ascending order, none empty and none twice; a stream holds
  the entries of exactly the events with its labels, in ascending time order and in their order
  of arrival at equal times. With the configured labels sanitised every label name is one that
  Loki accepts, so that one bad label cannot make every push fail.
\<close>

theorem loki_payload_exact:
  "build_push_payload line es sl = Object [(''streams'', Array (map
     (\<lambda>ls. Object [(''stream'', Object (map (\<lambda>(k, v). (k, String v)) ls)),
        (''values'', Array (map (\<lambda>(ns, l). Array [String (show_int ns), String l])
           (sort_key fst (map (\<lambda>e. (timestamp_nanos (event_time e), line e))
              (filter (\<lambda>e. e \<noteq> Shutdown \<and> event_to_labels e sl = ls) es)))))])
     (sorted_list_of_set ((\<lambda>e. event_to_labels e sl) ` (set es - {Shutdown})))))]
   \<and> list_all (\<lambda>(k, _). is_valid_label_name k) (event_to_labels e (sanitize_static_labels sl'))"
proof
  have "group_events line sl es = map (\<lambda>ls. (ls, map (label_entry line) (stream_events es sl ls)))
      (sorted_list_of_set ((\<lambda>e. event_to_labels e sl) ` (set es - {Shutdown})))"
    by (rule group_events_list)
  then show "build_push_payload line es sl = Object [(''streams'', Array (map
     (\<lambda>ls. Object [(''stream'', Object (map (\<lambda>(k, v). (k, String v)) ls)),
        (''values'', Array (map (\<lambda>(ns, l). Array [String (show_int ns), String l])
           (sort_key fst (map (\<lambda>e. (timestamp_nanos (event_time e), line e))
              (filter (\<lambda>e. e \<noteq> Shutdown \<and> event_to_labels e sl = ls) es)))))])
     (sorted_list_of_set ((\<lambda>e. event_to_labels e sl) ` (set es - {Shutdown})))))]"
    by (simp add: build_push_payload_def stream_json_def stream_events_def label_entry_def [abs_def])
  show "list_all (\<lambda>(k, _). is_valid_label_name k) (event_to_labels e (sanitize_static_labels sl'))"
    using pushed_label_names by (auto simp: list_all_iff)
qed

text \<open>
  C31: The Loki worker sends every event it receives in exactly one request and in the order of
  arrival: the requests it has sent are those of consecutive, nonempty batches, which with the
  buffer make up what it received. The buffer never reaches the batch size, and when the worker
  has stopped, on shutdown or when its senders are gone, nothing is left in it.
\<close>

theorem loki_worker_sends_all:
  assumes "loki_worker line st ts \<lparr>lw_buffer = [], lw_failures = n, lw_pushed = [], lw_running = True\<rparr> = (w, es)"
    and "loki_new scheme client cfg = Inr st"
  shows "(\<exists>batches. lw_pushed w = map (push_request line st) batches \<and> [] \<notin> set batches
       \<and> concat batches @ lw_buffer w = filter (\<lambda>e. \<not> is_shutdown e) es)
    \<and> length (lw_buffer w) < lk_batch_size st \<and> (lw_running w \<or> lw_buffer w = [])"
proof -
  have "0 < lk_batch_size st" using assms(2) by (auto simp: loki_new_def Let_def split: if_splits sum.splits)
  then have "lw_carries line st w ([] @ filter (\<lambda>e. \<not> is_shutdown e) es) \<and> lw_ok st w"
    by (intro loki_worker_carries [OF assms(1)]) (simp_all add: lw_carries_def lw_ok_def)
  then show ?thesis by (auto simp: lw_carries_def lw_ok_def)
qed

definition demo_loki :: loki_state where
  "demo_loki = \<lparr>lk_push_url = ''http://l/loki/api/v1/push'', lk_static_labels = [], lk_basic_user = None,
     lk_basic_password = None, lk_bearer_token = None, lk_batch_size = 1, lk_interval = 5\<rparr>"

theorem loki_worker_sends_all_witness:
  "lw_buffer (fst (loki_worker (\<lambda>_. ''line'') demo_loki
     [\<lparr>li_accepted = (\<lambda>_. True), li_first = Got (Audit demo_audit), li_drained = [Shutdown]\<rparr>]
     \<lparr>lw_buffer = [], lw_failures = 0, lw_pushed = [], lw_running = True\<rparr>)) = []"
proof -
  let ?ts = "[\<lparr>li_accepted = (\<lambda>_. True), li_first = Got (Audit demo_audit), li_drained = [Shutdown]\<rparr>]"
  let ?cfg = "default_loki\<lparr>loki_url := ''http://l/'', loki_batch_size := 1, loki_labels := []\<rparr>"
  obtain w es where r: "loki_worker (\<lambda>_. ''line'') demo_loki ?ts
      \<lparr>lw_buffer = [], lw_failures = 0, lw_pushed = [], lw_running = True\<rparr> = (w, es)" by fastforce
  have "loki_new (\<lambda>_. Some ''http'') (Inr ()) ?cfg = Inr demo_loki" by code_simp
  from loki_worker_sends_all [OF r this] show ?thesis
    unfolding r by (simp add: demo_loki_def)
qed

end
