(* ===== verification/Server.thy ===== *)
theory Server
  imports Proxy_Facts Console Loki
begin

text \<open>
  \<open>src/src/main.rs\<close>: the command line, the CORS policy, the route table with its middleware and the
  whole path of a request under \<open>/v1\<close>. A path is the list of its segments; a captured segment of a
  pattern is \<open>None\<close>. The middleware a router adds with \<open>layer\<close> wraps the routes added before it,
  their 405 answers included, and not the fallback added after it.
\<close>

section \<open>Command line\<close>

datatype config_path = NoPath | ConfigPath string | MissingPath

fun config_path_in :: "string list \<Rightarrow> config_path" where
  "config_path_in [] = NoPath"
| "config_path_in (arg # args) =
     (if arg \<in> {''-c'', ''--config''} then
        (case args of p # _ \<Rightarrow> ConfigPath p | [] \<Rightarrow> MissingPath)
      else config_path_in args)"

text \<open>The first argument is the program's name; \<open>MissingPath\<close> ends the process.\<close>

definition parse_config_path_from :: "string list \<Rightarrow> config_path" where
  "parse_config_path_from args = config_path_in (tl args)"

datatype trace_level = TRACE | DEBUG | INFO | WARN | ERROR

definition parse_level :: "string \<Rightarrow> trace_level" where
  "parse_level s =
     (let l = to_ascii_lowercase s
      in if l = ''trace'' then TRACE else if l = ''debug'' then DEBUG else if l = ''info'' then INFO
         else if l = ''warn'' then WARN else if l = ''error'' then ERROR else INFO)"

section \<open>CORS\<close>

datatype cors_origins = AnyOrigin | OriginList "string list"

record cors =
  co_origins :: cors_origins
  co_methods :: "string list"
  co_headers :: "string list"
  co_expose :: "string list"
  co_credentials :: bool

definition expose_headers :: "string list" where
  "expose_headers = [''x-request-id'']"

text \<open>\<open>header_ok\<close> says whether a text is a header value; an origin that is not one stops the start.\<close>

definition cors_layer :: "(string \<Rightarrow> bool) \<Rightarrow> string list \<Rightarrow> bool \<Rightarrow> cors option" where
  "cors_layer header_ok origins allow_credentials =
     (let base = \<lparr>co_origins = OriginList [], co_methods = [''GET'', ''POST'', ''PUT'', ''DELETE''],
            co_headers = [''authorization'', ''content-type'', ''accept'', ''cookie'', ''x-requested-with''],
            co_expose = expose_headers, co_credentials = False\<rparr>
      in if origins = [] then Some base
         else if list_ex (\<lambda>o1. o1 = ''*'') origins then Some (base\<lparr>co_origins := AnyOrigin\<rparr>)
         else if \<not> list_all header_ok origins then None
         else Some (base\<lparr>co_origins := OriginList origins, co_credentials := allow_credentials\<rparr>))"

section \<open>Routes\<close>

datatype endpoint =
    CreateProvider | ListProviders | GetProvider | UpdateProvider | DeleteProvider | ListProviderTypes
  | CreateModel | ListModels | GetModel | UpdateModel | DeleteModel
  | ListApiKeys | CreateApiKey | UpdateApiKey | DeleteApiKey
  | OverviewStats | DataRequests | DataTokens | DataModelDist | DataTokenDist | DataProxyLog
  | Health | ChatCompletions | Completions | Embeddings | Responses | ProxyModels

datatype layer = BodyLimit "nat option" | AuthLayer | AccessLogLayer | CompressionLayer

type_synonym pattern = "string option list"

definition admin_max_body_bytes :: nat where
  "admin_max_body_bytes = 64 * 1024"

definition admin_routes :: "(pattern \<times> string \<times> endpoint) list" where
  "admin_routes =
    [([Some ''providers''], ''POST'', CreateProvider), ([Some ''providers''], ''GET'', ListProviders),
     ([Some ''providers'', None], ''GET'', GetProvider), ([Some ''providers'', None], ''PUT'', UpdateProvider),
     ([Some ''providers'', None], ''DELETE'', DeleteProvider), ([Some ''provider-types''], ''GET'', ListProviderTypes),
     ([Some ''models''], ''POST'', CreateModel), ([Some ''models''], ''GET'', ListModels),
     ([Some ''models'', None], ''GET'', GetModel), ([Some ''models'', None], ''PUT'', UpdateModel),
     ([Some ''models'', None], ''DELETE'', DeleteModel),
     ([Some ''api-keys''], ''GET'', ListApiKeys), ([Some ''api-keys''], ''POST'', CreateApiKey),
     ([Some ''api-keys'', None], ''PUT'', UpdateApiKey), ([Some ''api-keys'', None], ''DELETE'', DeleteApiKey),
     ([Some ''stats''], ''GET'', OverviewStats),
     ([Some ''data'', Some ''requests''], ''GET'', DataRequests), ([Some ''data'', Some ''tokens''], ''GET'', DataTokens),
     ([Some ''data'', Some ''model-dist''], ''GET'', DataModelDist), ([Some ''data'', Some ''token-dist''], ''GET'', DataTokenDist),
     ([Some ''data'', Some ''proxy-log''], ''GET'', DataProxyLog)]"

definition v1_routes :: "(pattern \<times> string \<times> endpoint) list" where
  "v1_routes =
    [([Some ''chat'', Some ''completions''], ''POST'', ChatCompletions), ([Some ''completions''], ''POST'', Completions),
     ([Some ''embeddings''], ''POST'', Embeddings), ([Some ''responses''], ''POST'', Responses),
     ([Some ''models''], ''GET'', ProxyModels)]"

definition matches :: "pattern \<Rightarrow> string list \<Rightarrow> bool" where
  "matches p segs = list_all2 (\<lambda>a b. a = None \<or> a = Some b) p segs"

datatype target = To endpoint | MethodNotAllowed | NotFoundFallback | StaticFiles

text \<open>The layers from the outermost in, and what they lead to. An axum \<open>GET\<close> route serves \<open>HEAD\<close> too.\<close>

definition route_in :: "(pattern \<times> string \<times> endpoint) list \<Rightarrow> layer list \<Rightarrow> string \<Rightarrow> string list \<Rightarrow> layer list \<times> target" where
  "route_in routes layers meth segs =
     (case filter (\<lambda>(p, _, _). matches p segs) routes of
        [] \<Rightarrow> ([], NotFoundFallback)
      | rs \<Rightarrow> (layers, case filter (\<lambda>(_, m, _). m = meth \<or> m = ''GET'' \<and> meth = ''HEAD'') rs of
                 (_, _, e) # _ \<Rightarrow> To e | [] \<Rightarrow> MethodNotAllowed))"

definition v1_limit :: "config_app \<Rightarrow> nat option" where
  "v1_limit cfg =
     (let n = max_request_body_bytes (proxy_cfg cfg) in if n = 0 then None else Some n)"

definition build_app :: "config_app \<Rightarrow> string \<Rightarrow> string list \<Rightarrow> layer list \<times> target" where
  "build_app cfg meth segs = (case segs of
     [] \<Rightarrow> ([], StaticFiles)
   | first # rest \<Rightarrow>
       if first = ''v1'' then
         route_in v1_routes [AccessLogLayer, AuthLayer, BodyLimit (v1_limit cfg)] meth rest
       else if first = ''api'' then
         route_in admin_routes [CompressionLayer, AccessLogLayer, BodyLimit (Some admin_max_body_bytes)] meth rest
       else if segs = [''health''] then
         ([], if meth \<in> {''GET'', ''HEAD''} then To Health else MethodNotAllowed)
       else ([], StaticFiles))"

section \<open>A request under /v1\<close>

text \<open>
  What is sent back: a proxied answer, the JSON of a handler or of an error, or a text of the
  framework; with the requests sent upstream on the way.
\<close>

datatype v1_body = Proxied proxy_body | JsonBody json | ErrorBody ait_error | PlainText string

definition of_error :: "http_error \<Rightarrow> sent \<Rightarrow> (v1_body \<times> sent) response" where
  "of_error e sent = \<lparr>resp_status = fst e, resp_headers = [], resp_body = (ErrorBody (snd e), sent)\<rparr>"

definition plain :: "nat \<Rightarrow> string \<Rightarrow> (v1_body \<times> sent) response" where
  "plain status t = \<lparr>resp_status = status, resp_headers = [], resp_body = (PlainText t, [])\<rparr>"

text \<open>A handler's answer; \<open>None\<close> is a panic, which ends the connection (here a 500).\<close>

definition of_answer :: "proxy_answer \<times> app_state \<times> sent \<Rightarrow> (v1_body \<times> sent) response \<times> app_state" where
  "of_answer r = (case r of (a, s, sent) \<Rightarrow>
     (case a of
        Some (Inr resp) \<Rightarrow> \<lparr>resp_status = resp_status resp, resp_headers = resp_headers resp,
          resp_body = (Proxied (resp_body resp), sent)\<rparr>
      | Some (Inl e) \<Rightarrow> of_error e sent
      | None \<Rightarrow> \<lparr>resp_status = 500, resp_headers = [], resp_body = (PlainText [], sent)\<rparr>, s))"

text \<open>The extractors of a handler: the key, the client's address and the request id, then the body.\<close>

definition v1_post ::
    "(proxy_env \<Rightarrow> api_key_context \<Rightarrow> ip_addr option \<Rightarrow> string \<Rightarrow> string \<Rightarrow> app_state \<Rightarrow> proxy_answer \<times> app_state \<times> sent)
      \<Rightarrow> proxy_env \<Rightarrow> nat option \<Rightarrow> request \<Rightarrow> string \<Rightarrow> app_state \<Rightarrow> (v1_body \<times> sent) response \<times> app_state" where
  "v1_post handler e limit req body s =
     (case (rq_key_context req, rq_client_ip req, rq_request_id req) of
        (Some key, Some client_ip, Some request_id) \<Rightarrow>
          if (case limit of Some n \<Rightarrow> length body > n | None \<Rightarrow> False) then (plain 413 ''length limit exceeded'', s)
          else of_answer (handler e key client_ip request_id body s)
      | _ \<Rightarrow> (plain 500 ''Missing request extension'', s))"

definition v1_models :: "run_env \<Rightarrow> request \<Rightarrow> app_state \<Rightarrow> (v1_body \<times> sent) response \<times> app_state" where
  "v1_models env req s =
     (if rq_key_context req = None then (plain 500 ''Missing request extension'', s)
      else (case list_models_proxy env s of
          Inl e \<Rightarrow> of_error e []
        | Inr j \<Rightarrow> \<lparr>resp_status = 200, resp_headers = [], resp_body = (JsonBody j, [])\<rparr>, s))"

definition v1_target ::
    "target \<Rightarrow> proxy_env \<Rightarrow> nat option \<Rightarrow> request \<Rightarrow> string \<Rightarrow> app_state \<Rightarrow> (v1_body \<times> sent) response \<times> app_state" where
  "v1_target t e limit req body s = (case t of
     To ChatCompletions \<Rightarrow> v1_post chat_completions e limit req body s
   | To Completions \<Rightarrow> v1_post completions e limit req body s
   | To Embeddings \<Rightarrow> v1_post embeddings e limit req body s
   | To Responses \<Rightarrow> v1_post responses e limit req body s
   | To ProxyModels \<Rightarrow> v1_models (px_run e) req s
   | _ \<Rightarrow> (plain 405 [], s))"

text \<open>The auth layer around it: \<open>env\<close> is its clock and database, with the id the access log gave.\<close>

definition v1_auth ::
    "target \<Rightarrow> proxy_env \<Rightarrow> string \<Rightarrow> run_env \<Rightarrow> request \<Rightarrow> app_state \<Rightarrow> (v1_body \<times> sent) response \<times> app_state" where
  "v1_auth t e body env req s =
     (case auth_middleware env req s of
        (Inl err, s1) \<Rightarrow> (of_error err [], s1)
      | (Inr req', s1) \<Rightarrow>
          v1_target t (e\<lparr>px_run := (px_run e)\<lparr>re_rid := re_rid env\<rparr>\<rparr>) (v1_limit (config s)) req' body s1)"

definition serve_v1 ::
    "proxy_env \<Rightarrow> run_env \<Rightarrow> string \<Rightarrow> instant \<Rightarrow> datetime \<Rightarrow> string list \<Rightarrow> request \<Rightarrow> string \<Rightarrow> app_state
      \<Rightarrow> (v1_body \<times> sent) response \<times> app_state" where
  "serve_v1 e env uuid t1 utc1 segs req body s =
     (case build_app (config s) (rq_method req) (''v1'' # segs) of
        (_, NotFoundFallback) \<Rightarrow> (of_error (not_found (re_rid env) ''404 not found'') [], s)
      | (_, t) \<Rightarrow> access_log_middleware env uuid t1 utc1 (v1_auth t e body) req s)"

section \<open>Facts\<close>

lemma v1_target_models: "snd (resp_body (fst (v1_models env req s))) = []"
  by (auto simp: v1_models_def plain_def of_error_def split: sum.split)

lemma v1_post_sent:
  "snd (resp_body (fst (v1_post (proxy_endpoint path) e limit req body s))) = sent \<Longrightarrow> sent \<noteq> [] \<Longrightarrow>
     \<exists>key ip rid a s'. rq_key_context req = Some key \<and> rq_client_ip req = Some ip \<and> rq_request_id req = Some rid
       \<and> (case limit of Some n \<Rightarrow> length body \<le> n | None \<Rightarrow> True)
       \<and> proxy_endpoint path e key ip rid body s = (a, s', sent)"
  by (auto simp: v1_post_def plain_def of_answer_def of_error_def not_less
      split: option.splits if_splits prod.splits sum.splits)

lemmas endpoint_defs = chat_completions_def completions_def embeddings_def responses_def

lemma v1_target_sent:
  assumes "snd (resp_body (fst (v1_target t e limit req body s))) \<noteq> []"
  obtains path key ip rid a s' where "rq_key_context req = Some key" "rq_client_ip req = Some ip"
    "path \<in> {''/chat/completions'', ''/completions'', ''/embeddings'', ''/responses''}"
    "case limit of Some n \<Rightarrow> length body \<le> n | None \<Rightarrow> True"
    "proxy_endpoint path e key ip rid body s = (a, s', snd (resp_body (fst (v1_target t e limit req body s))))"
proof -
  obtain path where "path \<in> {''/chat/completions'', ''/completions'', ''/embeddings'', ''/responses''}"
      and v: "v1_target t e limit req body s = v1_post (proxy_endpoint path) e limit req body s"
    using assms by (cases t; (simp add: v1_target_def plain_def v1_target_models; fail)?)
      (auto simp: v1_target_def endpoint_defs plain_def v1_target_models split: endpoint.splits)
  then show ?thesis using that v1_post_sent [OF refl] assms by (metis v)
qed

text \<open>
  A request presents a key: its bearer token is that of an enabled, unexpired key, as the database
  says now or a cache entry younger than its time to live.
\<close>

definition presents_key :: "run_env \<Rightarrow> request \<Rightarrow> app_state \<Rightarrow> api_key_info \<Rightarrow> bool" where
  "presents_key env req s info \<longleftrightarrow>
     (\<exists>tok. header_get ''authorization'' (rq_headers req) = Some (''Bearer '' @ tok)
        \<and> (get_api_key_by_raw (re_db env) tok (db s) = Inr (Some info)
           \<or> (\<exists>t. dm_get (api_key_cache s) (hash_key (re_db env) tok) = Some (info, t)
                  \<and> elapsed (re_clk env) t < cache_ttl))
        \<and> info_enabled info \<and> (case info_expires_at info of Some x \<Rightarrow> re_utc env < x | None \<Rightarrow> True))"

lemma presents_key_id [simp]:
  "presents_key (env\<lparr>re_rid := r\<rparr>) (req\<lparr>rq_request_id := i\<rparr>) s info = presents_key env req s info"
  by (simp add: presents_key_def split: option.split)

text \<open>What passed the auth layer and was sent upstream.\<close>

lemma v1_auth_sent:
  assumes "v1_auth t e body env req s = (r, s')" and "snd (resp_body r) \<noteq> []" and "auth_enabled (auth (config s))"
  shows "\<exists>info. presents_key env req s info
          \<and> (max_request_body_bytes (proxy_cfg (config s)) = 0 \<or> length body \<le> max_request_body_bytes (proxy_cfg (config s)))
          \<and> (\<exists>path ip rid a s1 s2. path \<in> {''/chat/completions'', ''/completions'', ''/embeddings'', ''/responses''}
               \<and> proxy_endpoint path (e\<lparr>px_run := (px_run e)\<lparr>re_rid := re_rid env\<rparr>\<rparr>) \<lparr>ctx_name = Some (info_name info)\<rparr>
                   ip rid body s1 = (a, s2, snd (resp_body r)))"
proof -
  obtain x s1 where a: "auth_middleware env req s = (x, s1)" by fastforce
  obtain req' where x: "x = Inr req'" using assms(1,2) a by (cases x) (auto simp: v1_auth_def of_error_def)
  let ?e = "e\<lparr>px_run := (px_run e)\<lparr>re_rid := re_rid env\<rparr>\<rparr>"
  have v: "r = fst (v1_target t ?e (v1_limit (config s)) req' body s1)"
    using assms(1) a x by (simp add: v1_auth_def split: prod.splits)
  from assms(2) obtain path key ip rid a' s2 where p: "rq_key_context req' = Some key"
      "path \<in> {''/chat/completions'', ''/completions'', ''/embeddings'', ''/responses''}"
      "case v1_limit (config s) of Some n \<Rightarrow> length body \<le> n | None \<Rightarrow> True"
      "proxy_endpoint path ?e key ip rid body s1 = (a', s2, snd (resp_body r))"
    unfolding v by (rule v1_target_sent)
  have "max_request_body_bytes (proxy_cfg (config s)) = 0 \<or> length body \<le> max_request_body_bytes (proxy_cfg (config s))"
    using p(3) by (auto simp: v1_limit_def Let_def split: if_splits)
  then show ?thesis
    using auth_middleware_sound [OF assms(3) a] p(1,2,4) x unfolding presents_key_def by fastforce
qed

section \<open>Property\<close>


definition demo_keyed_request :: request where
  "demo_keyed_request = demo_request\<lparr>rq_headers := [(''authorization'', ''Bearer k'')]\<rparr>"

definition demo_keyed_state :: app_state where
  "demo_keyed_state = demo_state\<lparr>api_key_cache := [(hash_key (re_db demo_run) ''k'',
     (\<lparr>info_id = ''i'', info_name = ''ci'', info_enabled = True, info_expires_at = None, info_created_at = 0\<rparr>, re_clk demo_run))]\<rparr>"

definition demo_served :: "(v1_body \<times> sent) response \<times> app_state" where
  "demo_served = serve_v1 (demo_px\<lparr>px_from := (\<lambda>_. Some (Object [(''model'', String ''gpt'')]))\<rparr>) demo_run ''u'' 5 5 [''chat'', ''completions''] demo_keyed_request ''{}'' demo_keyed_state"

lemma demo_served_sent: "snd (resp_body (fst demo_served)) \<noteq> []"
  by code_simp


end
