(* ===== verification/Lifecycle.thy ===== *)
theory Lifecycle
  imports Server
begin

text \<open>
  The life of the process (\<open>main\<close> in \<open>src/src/main.rs\<close>): the steps of starting up, the first
  signal, which stops the listener and starts the wait for open connections, and what ends it.
  Connections, signals, the clock and errors of the listener come from outside, as steps; a
  timer that is due fires before the clock moves on.
\<close>

section \<open>Starting up\<close>

datatype startup = ConfigFails | StateFails | BadAddress | BindFails | Bound

datatype ending =
    Returned
  | ExitCode nat
  | PanicExit

record process =
  ps_draining :: "nat option"
  ps_connections :: nat
  ps_now :: nat
  ps_end :: "ending option"
  ps_logs_flushed :: bool
  ps_served :: bool

definition process_start :: "startup \<Rightarrow> process" where
  "process_start u =
     (let p = \<lparr>ps_draining = None, ps_connections = 0, ps_now = 0, ps_end = None, ps_logs_flushed = False,
               ps_served = False\<rparr>
      in case u of
           ConfigFails \<Rightarrow> p\<lparr>ps_end := Some (ExitCode 1)\<rparr>
         | StateFails \<Rightarrow> p\<lparr>ps_end := Some (ExitCode 1)\<rparr>
         | BadAddress \<Rightarrow> p\<lparr>ps_end := Some PanicExit\<rparr>
         | BindFails \<Rightarrow> p\<lparr>ps_end := Some (ExitCode 1)\<rparr>
         | Bound \<Rightarrow> p)"

section \<open>Serving and stopping\<close>

text \<open>\<open>log_manager.shutdown()\<close> and the end of the process.\<close>

definition flush_and :: "ending \<Rightarrow> process \<Rightarrow> process" where
  "flush_and e p = p\<lparr>ps_logs_flushed := True, ps_end := Some e\<rparr>"

datatype process_event =
    Connect
  | Disconnect
  | Clock nat
  | Signal
  | ListenerError
  | TimerFires
  | ServerDone

text \<open>
  \<open>Signal\<close> is Ctrl+C or SIGTERM: the first one cancels the token, the next one forces the exit.
  \<open>ServerDone\<close>: the listener is closed and no connection is left.
\<close>

inductive process_step :: "nat \<Rightarrow> process_event \<Rightarrow> process \<Rightarrow> process \<Rightarrow> bool" for timeout where
  connect: "ps_end p = None \<Longrightarrow> ps_draining p = None
    \<Longrightarrow> process_step timeout Connect p (p\<lparr>ps_connections := ps_connections p + 1, ps_served := True\<rparr>)"
| disconnect: "ps_end p = None \<Longrightarrow> 0 < ps_connections p
    \<Longrightarrow> process_step timeout Disconnect p (p\<lparr>ps_connections := ps_connections p - 1\<rparr>)"
| clock: "ps_end p = None \<Longrightarrow> (case ps_draining p of Some t \<Rightarrow> ps_now p + d \<le> t + timeout | None \<Rightarrow> True)
    \<Longrightarrow> process_step timeout (Clock d) p (p\<lparr>ps_now := ps_now p + d\<rparr>)"
| first_signal: "ps_end p = None \<Longrightarrow> ps_draining p = None
    \<Longrightarrow> process_step timeout Signal p (p\<lparr>ps_draining := Some (ps_now p)\<rparr>)"
| second_signal: "ps_end p = None \<Longrightarrow> ps_draining p = Some t
    \<Longrightarrow> process_step timeout Signal p (flush_and (ExitCode 0) p)"
| timer: "ps_end p = None \<Longrightarrow> ps_draining p = Some t \<Longrightarrow> t + timeout \<le> ps_now p
    \<Longrightarrow> process_step timeout TimerFires p (flush_and (ExitCode 0) p)"
| done_: "ps_end p = None \<Longrightarrow> ps_draining p = Some t \<Longrightarrow> ps_connections p = 0
    \<Longrightarrow> process_step timeout ServerDone p (flush_and Returned p)"
| listener: "ps_end p = None
    \<Longrightarrow> process_step timeout ListenerError p (p\<lparr>ps_end := Some (ExitCode 1)\<rparr>)"

inductive_cases process_stepE: "process_step timeout ev p p'"

inductive process_runs :: "nat \<Rightarrow> startup \<Rightarrow> process_event list \<Rightarrow> process \<Rightarrow> bool" for timeout u where
  start: "process_runs timeout u [] (process_start u)"
| step: "process_runs timeout u evs p \<Longrightarrow> process_step timeout ev p p' \<Longrightarrow> process_runs timeout u (evs @ [ev]) p'"

section \<open>Facts\<close>

definition process_ok :: "nat \<Rightarrow> startup \<Rightarrow> process_event list \<Rightarrow> process \<Rightarrow> bool" where
  "process_ok timeout u evs p \<longleftrightarrow>
     (ps_logs_flushed p \<longleftrightarrow> ps_end p \<in> {Some Returned, Some (ExitCode 0)})
     \<and> (ps_served p \<longrightarrow> u = Bound)
     \<and> (ps_end p = Some (ExitCode 1) \<longrightarrow> u \<noteq> Bound \<or> ListenerError \<in> set evs)
     \<and> (ps_end p = Some PanicExit \<longrightarrow> u = BadAddress)
     \<and> ps_end p \<in> {None, Some Returned, Some (ExitCode 0), Some (ExitCode 1), Some PanicExit}
     \<and> (case ps_draining p of Some t \<Rightarrow> ps_now p \<le> t + timeout | None \<Rightarrow> True)
     \<and> (u \<noteq> Bound \<longrightarrow> ps_end p \<noteq> None)"

lemma process_start_ok: "process_ok timeout u [] (process_start u)"
  by (cases u) (auto simp: process_ok_def process_start_def)

lemma process_step_ok: "process_ok timeout u evs p \<Longrightarrow> process_step timeout ev p p' \<Longrightarrow> process_ok timeout u (evs @ [ev]) p'"
  by (elim process_stepE) (auto simp: process_ok_def flush_and_def split: option.splits)

lemma process_runs_ok: "process_runs timeout u evs p \<Longrightarrow> process_ok timeout u evs p"
  by (induction rule: process_runs.induct) (auto intro: process_start_ok process_step_ok)

text \<open>
  A process that served a connection ends without flushing its logs only on an error of its
  listener. In every run: the logs are flushed exactly by the endings that follow a signal, so a
  process that ended after serving, with no listener error, has flushed them; while it is stopping
  the clock never passes the graceful timeout, and when that is due, or nothing is connected, or a
  second signal comes, a step ends it with its logs flushed.
\<close>

theorem process_flushes_logs:
  assumes "process_runs timeout u evs p"
  shows "(ps_end p \<noteq> None \<and> ps_served p \<and> ListenerError \<notin> set evs \<longrightarrow> ps_logs_flushed p)
    \<and> (ps_end p = None \<longrightarrow> \<not> ps_logs_flushed p)
    \<and> (case ps_draining p of None \<Rightarrow> True | Some t \<Rightarrow>
        ps_now p \<le> t + timeout
        \<and> (ps_end p = None \<longrightarrow>
            (\<exists>p'. process_step timeout Signal p p' \<and> ps_end p' = Some (ExitCode 0) \<and> ps_logs_flushed p')
            \<and> (ps_now p = t + timeout \<longrightarrow>
                (\<exists>p'. process_step timeout TimerFires p p' \<and> ps_end p' \<noteq> None \<and> ps_logs_flushed p'))
            \<and> (ps_connections p = 0 \<longrightarrow>
                (\<exists>p'. process_step timeout ServerDone p p' \<and> ps_end p' \<noteq> None \<and> ps_logs_flushed p'))))"
proof -
  have ok: "process_ok timeout u evs p" by (rule process_runs_ok [OF assms])
  have steps: "(\<exists>p'. process_step timeout Signal p p' \<and> ps_end p' = Some (ExitCode 0) \<and> ps_logs_flushed p')"
    "ps_now p = t + timeout \<Longrightarrow> \<exists>p'. process_step timeout TimerFires p p' \<and> ps_end p' \<noteq> None \<and> ps_logs_flushed p'"
    "ps_connections p = 0 \<Longrightarrow> \<exists>p'. process_step timeout ServerDone p p' \<and> ps_end p' \<noteq> None \<and> ps_logs_flushed p'"
    if "ps_draining p = Some t" "ps_end p = None" for t
    using process_step.second_signal [OF that(2,1)] process_step.timer [OF that(2,1)] process_step.done_ [OF that(2,1)]
    by (force simp: flush_and_def)+
  show ?thesis
    using ok steps by (auto simp: process_ok_def split: option.splits)
qed

theorem process_flushes_logs_witness:
  "\<exists>p. process_runs 30 Bound [Connect, Clock 5, Signal, Clock 30, TimerFires] p \<and> ps_logs_flushed p"
proof -
  let ?p1 = "(process_start Bound)\<lparr>ps_connections := 1, ps_served := True, ps_now := 5\<rparr>"
  let ?p2 = "?p1\<lparr>ps_draining := Some 5, ps_now := 35\<rparr>"
  note start = process_runs.start [of 30 Bound] and next_step = process_runs.step [of 30 Bound]
  have 1: "process_runs 30 Bound [Connect, Clock 5] ?p1"
    using next_step [OF next_step [OF start process_step.connect] process_step.clock [where d = 5]]
    by (simp add: process_start_def)
  have 2: "process_runs 30 Bound [Connect, Clock 5, Signal, Clock 30] ?p2"
    using next_step [OF next_step [OF 1 process_step.first_signal] process_step.clock [where d = 30]]
    by (simp add: process_start_def)
  have 3: "process_runs 30 Bound [Connect, Clock 5, Signal, Clock 30, TimerFires] (flush_and (ExitCode 0) ?p2)"
    using next_step [OF 2 process_step.timer [where t = 5]] by (simp add: process_start_def)
  show ?thesis
    using process_flushes_logs [OF 3] 3 by (auto simp: flush_and_def process_start_def)
qed

end
