(* ===== verification/Analytics_Pool.thy ===== *)
theory Analytics_Pool
  imports Analytics
begin

text \<open>
  The worker pool of \<open>src/src/db/analytics.rs\<close>: several workers take requests from one queue until
  each has consumed a shutdown request. A worker is waiting for the queue, busy with a request or
  gone; a step takes one worker one move further, and any worker may move. The table and the
  driver's behaviour a query meets are those of the moment, so a finishing step has them free.
  A request carries the number of the caller that waits for its answer; \<open>None\<close> as answer is a
  dropped sender.
\<close>

section \<open>Requests\<close>

datatype an_request =
    ARequests int int
  | ATokens int int
  | AModelDist int int
  | ATokenDist int int
  | AQueryProxyLogs log_query
  | AOverview int int
  | AShutdown

datatype an_answer =
    Buckets "analytics_error + bucket_entry list"
  | ModelCounts "analytics_error + model_dist_entry list"
  | TokenCounts "analytics_error + token_dist_entry list"
  | LogPage "analytics_error + log_page"
  | Metrics "analytics_error + overview_metrics"

fun run_request :: "duck_env \<Rightarrow> log_db \<Rightarrow> an_request \<Rightarrow> an_answer option" where
  "run_request env d (ARequests s e) = map_option Buckets (send_result (requests_impl env s e d))"
| "run_request env d (ATokens s e) = map_option Buckets (send_result (tokens_impl env s e d))"
| "run_request env d (AModelDist s e) = map_option ModelCounts (send_result (model_dist_impl env s e d))"
| "run_request env d (ATokenDist s e) = map_option TokenCounts (send_result (token_dist_impl env s e d))"
| "run_request env d (AQueryProxyLogs q) = map_option LogPage (send_result (query_proxy_logs_impl env q d))"
| "run_request env d (AOverview s e) = map_option Metrics (send_result (overview_impl env s e d))"
| "run_request env d AShutdown = None"

section \<open>The pool\<close>

datatype pool_worker = Idle | Busy nat an_request | Exited

record pool =
  pl_queue :: "(nat \<times> an_request) list"
  pl_workers :: "pool_worker list"
  pl_replies :: "(nat \<times> an_answer option) list"
  pl_open :: bool

definition max_analytics_workers :: nat where
  "max_analytics_workers = 8"

text \<open>\<open>Analytics::new\<close>: a connection that cannot be cloned ends the cloning, with fewer workers.\<close>

definition analytics_new :: "(nat \<Rightarrow> bool) \<Rightarrow> nat \<Rightarrow> pool" where
  "analytics_new clone_ok workers =
     (let n = min (max workers 1) max_analytics_workers
      in \<lparr>pl_queue = [], pl_workers = replicate (length (takeWhile clone_ok [1..<n]) + 1) Idle,
          pl_replies = [], pl_open = True\<rparr>)"

inductive worker_step :: "pool \<Rightarrow> pool \<Rightarrow> bool" where
  Take: "i < length (pl_workers s) \<Longrightarrow> pl_workers s ! i = Idle \<Longrightarrow> pl_queue s = (k, r) # rest \<Longrightarrow> r \<noteq> AShutdown \<Longrightarrow>
    worker_step s (s\<lparr>pl_queue := rest, pl_workers := (pl_workers s)[i := Busy k r]\<rparr>)"
| Finish: "i < length (pl_workers s) \<Longrightarrow> pl_workers s ! i = Busy k r \<Longrightarrow>
    worker_step s (s\<lparr>pl_workers := (pl_workers s)[i := Idle], pl_replies := pl_replies s @ [(k, run_request env d r)]\<rparr>)"
| Stop: "i < length (pl_workers s) \<Longrightarrow> pl_workers s ! i = Idle \<Longrightarrow> pl_queue s = (k, AShutdown) # rest \<Longrightarrow>
    worker_step s (s\<lparr>pl_queue := rest, pl_workers := (pl_workers s)[i := Exited]\<rparr>)"
| Closed: "i < length (pl_workers s) \<Longrightarrow> pl_workers s ! i = Idle \<Longrightarrow> pl_queue s = [] \<Longrightarrow> \<not> pl_open s \<Longrightarrow>
    worker_step s (s\<lparr>pl_workers := (pl_workers s)[i := Exited]\<rparr>)"

inductive_cases worker_stepE: "worker_step s s'"

text \<open>\<open>Analytics::shutdown\<close>: one request per worker.\<close>

definition pool_shutdown :: "pool \<Rightarrow> pool" where
  "pool_shutdown s = s\<lparr>pl_queue := pl_queue s @ replicate (length (pl_workers s)) (0, AShutdown)\<rparr>"

section \<open>What is left to do\<close>

definition alive :: "pool_worker list \<Rightarrow> nat" where
  "alive ws = length (filter (\<lambda>w. w \<noteq> Exited) ws)"

fun busy_of :: "pool_worker \<Rightarrow> nat list" where
  "busy_of (Busy k r) = [k]"
| "busy_of _ = []"

definition busy :: "pool_worker list \<Rightarrow> nat list" where
  "busy ws = concat (map busy_of ws)"

definition waiting :: "pool \<Rightarrow> (nat \<times> an_request) list" where
  "waiting s = filter (\<lambda>(k, r). r \<noteq> AShutdown) (pl_queue s)"

text \<open>The callers that still wait or have been answered.\<close>

definition callers :: "pool \<Rightarrow> nat multiset" where
  "callers s = mset (map fst (pl_replies s)) + mset (map fst (waiting s)) + mset (busy (pl_workers s))"

definition draining :: "pool \<Rightarrow> bool" where
  "draining s \<longleftrightarrow> pl_open s \<and> pl_workers s \<noteq> []
     \<and> (\<exists>q. pl_queue s = q @ replicate (alive (pl_workers s)) (0, AShutdown) \<and> list_all (\<lambda>(k, r). r \<noteq> AShutdown) q
          \<and> (alive (pl_workers s) = length (pl_workers s) \<or> q = []))"

definition work_left :: "pool \<Rightarrow> nat" where
  "work_left s = 2 * length (waiting s) + alive (pl_workers s) + length (busy (pl_workers s))"

lemma update_split:
  assumes "i < length ws"
  obtains us vs where "ws = us @ ws ! i # vs" and "\<And>w. ws[i := w] = us @ w # vs"
  using assms that [of "take i ws" "drop (Suc i) ws"] by (simp add: id_take_nth_drop upd_conv_take_nth_drop)

lemma alive_simps [simp]:
  "alive [] = 0" "alive (us @ vs) = alive us + alive vs" "alive (w # vs) = (if w = Exited then 0 else 1) + alive vs"
  by (simp_all add: alive_def)

lemma busy_simps [simp]:
  "busy [] = []" "busy (us @ vs) = busy us @ busy vs" "busy (w # vs) = busy_of w @ busy vs"
  by (simp_all add: busy_def)

lemma alive_le: "alive ws \<le> length ws"
  by (simp add: alive_def)

lemma alive_0: "alive ws = 0 \<longleftrightarrow> set ws \<subseteq> {Exited}"
  by (induction ws) auto

lemma step_callers: "worker_step s s' \<Longrightarrow> callers s' = callers s"
  by (induction rule: worker_step.induct)
    (erule update_split; simp add: callers_def waiting_def)+

lemma step_draining:
  assumes "worker_step s s'" and "draining s"
  shows "draining s' \<and> work_left s' < work_left s"
  using assms
proof (induction rule: worker_step.induct)
  case (Take i s k r rest)
  obtain q where q: "pl_queue s = q @ replicate (alive (pl_workers s)) (0, AShutdown)" "list_all (\<lambda>(k, r). r \<noteq> AShutdown) q"
      "alive (pl_workers s) = length (pl_workers s) \<or> q = []" and s: "pl_open s" "pl_workers s \<noteq> []"
    using Take.prems by (auto simp: draining_def)
  from Take.hyps(3,4) q(1) obtain q' where q': "q = (k, r) # q'"
    by (cases q; cases "alive (pl_workers s)") auto
  obtain us vs where w: "pl_workers s = us @ Idle # vs" "\<And>w. (pl_workers s)[i := w] = us @ w # vs"
    using Take.hyps(1,2) by (metis update_split)
  show ?case
    using q q' s Take.hyps(3,4) by (auto simp: draining_def w(1) w(2) [unfolded w(1)] work_left_def waiting_def)
next
  case (Finish i s k r env d)
  obtain us vs where w: "pl_workers s = us @ Busy k r # vs" "\<And>w. (pl_workers s)[i := w] = us @ w # vs"
    using Finish.hyps(1,2) by (metis update_split)
  show ?case
    using Finish.prems by (auto simp: draining_def w(1) w(2) [unfolded w(1)] work_left_def waiting_def)
next
  case (Stop i s k rest)
  obtain q where q: "pl_queue s = q @ replicate (alive (pl_workers s)) (0, AShutdown)" "list_all (\<lambda>(k, r). r \<noteq> AShutdown) q"
    and s: "pl_open s" "pl_workers s \<noteq> []"
    using Stop.prems by (auto simp: draining_def)
  obtain us vs where w: "pl_workers s = us @ Idle # vs" "\<And>w. (pl_workers s)[i := w] = us @ w # vs"
    using Stop.hyps(1,2) by (metis update_split)
  have "q = []" using q(1,2) Stop.hyps(3) by (cases q) auto
  then show ?case
    using q s Stop.hyps(3) by (auto simp: draining_def w(1) w(2) [unfolded w(1)] work_left_def waiting_def)
next
  case Closed
  then show ?case by (simp add: draining_def)
qed

lemma steps_draining:
  "(worker_step ^^ k) s s' \<Longrightarrow> draining s \<Longrightarrow> draining s' \<and> callers s' = callers s \<and> work_left s' + k \<le> work_left s"
proof (induction k arbitrary: s')
  case (Suc k)
  then obtain t where t: "(worker_step ^^ k) s t" "worker_step t s'" by auto
  with Suc show ?case using step_draining [OF t(2)] step_callers [OF t(2)] by fastforce
qed simp

text \<open>A pool that cannot move has nothing left to do.\<close>

lemma stuck_done:
  assumes "draining s" and stuck: "\<And>s'. \<not> worker_step s s'"
  shows "set (pl_workers s) \<subseteq> {Exited} \<and> pl_queue s = []"
proof -
  obtain q where q: "pl_queue s = q @ replicate (alive (pl_workers s)) (0, AShutdown)" "list_all (\<lambda>(k, r). r \<noteq> AShutdown) q"
      "alive (pl_workers s) = length (pl_workers s) \<or> q = []" and w: "pl_workers s \<noteq> []"
    using assms(1) by (auto simp: draining_def)
  have "w = Exited" if mem: "w \<in> set (pl_workers s)" for w
  proof (cases w)
    case Idle
    obtain i where i: "i < length (pl_workers s)" "pl_workers s ! i = Idle"
      using mem Idle by (metis in_set_conv_nth)
    have "alive (pl_workers s) \<noteq> 0" using mem Idle by (auto simp: alive_0)
    then have "pl_queue s \<noteq> []" by (simp add: q(1))
    then obtain k r rest where "pl_queue s = (k, r) # rest" by (cases "pl_queue s") auto
    then have "\<exists>s'. worker_step s s'"
      using worker_step.Take [OF i] worker_step.Stop [OF i] by (cases "r = AShutdown") blast+
    with stuck show ?thesis by blast
  next
    case (Busy k r)
    then obtain i where "i < length (pl_workers s)" "pl_workers s ! i = Busy k r"
      using mem by (metis in_set_conv_nth)
    then show ?thesis using stuck worker_step.Finish by blast
  qed simp
  then have gone: "set (pl_workers s) \<subseteq> {Exited}" by blast
  then have "alive (pl_workers s) = 0" by (simp add: alive_0)
  then show ?thesis using q w gone by auto
qed

section \<open>Property\<close>

text \<open>
  C15: Shutting the analytics workers down loses no request. However the workers interleave, after
  one shutdown request per worker has been queued they make at most two moves per queued request
  and two per worker and then stand still; when they do, every worker is gone, the queue is
  empty, and every request that was queued or in progress has been answered exactly once, so that
  joining the workers returns.
\<close>

theorem analytics_shutdown_drains:
  assumes "pl_workers s \<noteq> []" and "Exited \<notin> set (pl_workers s)" and "list_all (\<lambda>(k, r). r \<noteq> AShutdown) (pl_queue s)"
    and "pl_open s" and "(worker_step ^^ n) (pool_shutdown s) s'"
  shows "n \<le> 2 * length (pl_queue s) + 2 * length (pl_workers s)
    \<and> ((\<forall>t. \<not> worker_step s' t) \<longrightarrow> list_all (\<lambda>w. w = Exited) (pl_workers s') \<and> pl_queue s' = []
         \<and> mset (map fst (pl_replies s')) =
             mset (map fst (pl_replies s)) + mset (map fst (pl_queue s)) + mset (busy (pl_workers s)))"
proof -
  have al: "alive (pl_workers s) = length (pl_workers s)"
    using assms(2) by (auto simp: alive_def filter_id_conv intro!: arg_cong [where f = length])
  then have d: "draining (pool_shutdown s)" and w: "waiting (pool_shutdown s) = pl_queue s"
    using assms(1-4) by (auto simp: draining_def pool_shutdown_def waiting_def list_all_iff intro!: filter_True)
  note r = steps_draining [OF assms(5) d]
  have "length (busy ws) \<le> length ws" for ws
  proof (induction ws)
    case (Cons w ws)
    then show ?case by (cases w) auto
  qed simp
  from this [of "pl_workers s"]
  have "work_left (pool_shutdown s) \<le> 2 * length (pl_queue s) + 2 * length (pl_workers s)"
    unfolding work_left_def w using al by (simp add: pool_shutdown_def)
  moreover have "mset (map fst (pl_replies s')) = callers (pool_shutdown s)"
    if "set (pl_workers s') \<subseteq> {Exited}" "pl_queue s' = []"
  proof -
    have "busy (pl_workers s') = []" using that(1) by (induction "pl_workers s'") (auto simp: busy_def)
    then show ?thesis using r that(2) by (simp add: callers_def waiting_def)
  qed
  moreover have "callers (pool_shutdown s) = mset (map fst (pl_replies s)) + mset (map fst (pl_queue s)) + mset (busy (pl_workers s))"
    unfolding callers_def w by (simp add: pool_shutdown_def)
  ultimately show ?thesis
    using r stuck_done [of s'] by (auto simp: list_all_iff)
qed

definition demo_pool :: pool where
  "demo_pool = (analytics_new (\<lambda>_. True) 1)\<lparr>pl_queue := [(7, AOverview 0 10)]\<rparr>"

theorem analytics_shutdown_drains_witness:
  "\<exists>s' n. (worker_step ^^ n) (pool_shutdown demo_pool) s' \<and> n \<le> 4 \<and> pl_queue s' = []
     \<and> list_all (\<lambda>w. w = Exited) (pl_workers s') \<and> mset (map fst (pl_replies s')) = {#7#}"
proof -
  have demo: "demo_pool = \<lparr>pl_queue = [(7, AOverview 0 10)], pl_workers = [Idle], pl_replies = [], pl_open = True\<rparr>"
    by (simp add: demo_pool_def analytics_new_def max_analytics_workers_def)
  let ?s1 = "\<lparr>pl_queue = [(0, AShutdown)], pl_workers = [Busy 7 (AOverview 0 10)], pl_replies = [], pl_open = True\<rparr>"
  let ?r = "run_request demo_duck demo_log (AOverview 0 10)"
  let ?s2 = "\<lparr>pl_queue = [(0, AShutdown)], pl_workers = [Idle], pl_replies = [(7, ?r)], pl_open = True\<rparr>"
  let ?s3 = "\<lparr>pl_queue = [], pl_workers = [Exited], pl_replies = [(7, ?r)], pl_open = True\<rparr>"
  have 1: "worker_step (pool_shutdown demo_pool) ?s1"
    using worker_step.Take [of 0 "pool_shutdown demo_pool" 7 "AOverview 0 10" "[(0, AShutdown)]"]
    by (simp add: demo pool_shutdown_def)
  have 2: "worker_step ?s1 ?s2"
    using worker_step.Finish [of 0 ?s1 7 "AOverview 0 10" demo_duck demo_log] by simp
  have 3: "worker_step ?s2 ?s3" using worker_step.Stop [of 0 ?s2 0 "[]"] by simp
  have run: "(worker_step ^^ 3) (pool_shutdown demo_pool) ?s3"
    using 1 2 3 by (auto simp: numeral_3_eq_3)
  have stuck: "\<forall>t. \<not> worker_step ?s3 t" by (auto elim!: worker_stepE)
  have init: "pl_workers demo_pool \<noteq> []" "Exited \<notin> set (pl_workers demo_pool)"
      "list_all (\<lambda>(k, r). r \<noteq> AShutdown) (pl_queue demo_pool)" "pl_open demo_pool"
    by (simp_all add: demo)
  note res = analytics_shutdown_drains [OF init run]
  have bound: "3 \<le> 2 * length (pl_queue demo_pool) + 2 * length (pl_workers demo_pool)"
    by (rule conjunct1 [OF res])
  have "list_all (\<lambda>w. w = Exited) (pl_workers ?s3) \<and> pl_queue ?s3 = [] \<and> mset (map fst (pl_replies ?s3)) =
      mset (map fst (pl_replies demo_pool)) + mset (map fst (pl_queue demo_pool)) + mset (busy (pl_workers demo_pool))"
    by (rule mp [OF conjunct2 [OF res] stuck])
  then show ?thesis
    using run bound by (intro exI [of _ ?s3] exI [of _ 3]) (simp add: demo)
qed

end
