(* ===== verification/Watchdog.thy ===== *)
theory Watchdog
  imports Prelude
begin

text \<open>
  \<open>src/src/db/watchdog.rs\<close>: a thread that interrupts a DuckDB operation which runs past its
  deadline. The worker and the watchdog interleave freely between their atomic actions: the
  worker stores a deadline, runs an operation and clears the deadline; the watchdog loads the
  deadline, compares it with the clock, and when it is due interrupts the connection and clears
  the deadline, two actions. Operations are numbered in the order they start; times are
  milliseconds, kept below \<open>2 ^ 64\<close> by saturating addition.
\<close>

section \<open>The two threads\<close>

definition idle_deadline :: nat where
  "idle_deadline = 2 ^ 64 - 1"

definition deadline_of :: "nat \<Rightarrow> nat \<Rightarrow> nat" where
  "deadline_of now timeout_ms = min (now + timeout_ms) idle_deadline"

definition poll_interval :: "nat \<Rightarrow> nat" where
  "poll_interval timeout_ms = min (max (timeout_ms div 4) 10) 1000"

datatype watch_pc = Watching | Due | Interrupted | Stopped

record watchdog =
  wd_now :: nat
  wd_deadline :: nat
  wd_stop :: bool
  wd_running :: "nat option"
  wd_started_at :: "nat \<Rightarrow> nat"
  wd_next :: nat
  wd_pc :: watch_pc
  wd_interrupted :: "(nat \<times> nat) list"

text \<open>
  An interrupt hits whatever operation runs at that moment; the list keeps which and when. The
  deadline is stored before the operation starts and cleared after it has ended.
\<close>

inductive watch_step :: "nat \<Rightarrow> watchdog \<Rightarrow> watchdog \<Rightarrow> bool" for timeout_ms where
  Tick: "wd_now w < t \<Longrightarrow> watch_step timeout_ms w (w\<lparr>wd_now := t\<rparr>)"
| Begin: "wd_running w = None \<Longrightarrow> \<not> wd_stop w \<Longrightarrow> watch_step timeout_ms w
    (w\<lparr>wd_deadline := deadline_of (wd_now w) timeout_ms, wd_running := Some (wd_next w),
       wd_started_at := (wd_started_at w)(wd_next w := wd_now w), wd_next := Suc (wd_next w)\<rparr>)"
| End: "wd_running w = Some n \<Longrightarrow>
    watch_step timeout_ms w (w\<lparr>wd_running := None, wd_deadline := idle_deadline\<rparr>)"
| SetStop: "wd_running w = None \<Longrightarrow> watch_step timeout_ms w (w\<lparr>wd_stop := True\<rparr>)"
| Check: "wd_pc w = Watching \<Longrightarrow> \<not> wd_stop w \<Longrightarrow> watch_step timeout_ms w
    (w\<lparr>wd_pc := (if wd_deadline w \<noteq> idle_deadline \<and> wd_deadline w \<le> wd_now w then Due else Watching)\<rparr>)"
| Quit: "wd_pc w = Watching \<Longrightarrow> wd_stop w \<Longrightarrow> watch_step timeout_ms w (w\<lparr>wd_pc := Stopped\<rparr>)"
| Interrupt: "wd_pc w = Due \<Longrightarrow> watch_step timeout_ms w
    (w\<lparr>wd_pc := Interrupted, wd_interrupted := (case wd_running w of
         Some n \<Rightarrow> (n, wd_now w) # wd_interrupted w | None \<Rightarrow> wd_interrupted w)\<rparr>)"
| Disarm: "wd_pc w = Interrupted \<Longrightarrow>
    watch_step timeout_ms w (w\<lparr>wd_pc := Watching, wd_deadline := idle_deadline\<rparr>)"

definition watch_init :: watchdog where
  "watch_init = \<lparr>wd_now = 0, wd_deadline = idle_deadline, wd_stop = False, wd_running = None,
     wd_started_at = (\<lambda>_. 0), wd_next = 0, wd_pc = Watching, wd_interrupted = []\<rparr>"

section \<open>Fast operations\<close>

text \<open>No operation has run as long as the timeout.\<close>

definition in_time :: "nat \<Rightarrow> watchdog \<Rightarrow> bool" where
  "in_time timeout_ms w \<longleftrightarrow>
     (\<forall>n. wd_running w = Some n \<longrightarrow> wd_now w < wd_started_at w n + timeout_ms)"

definition fast_step :: "nat \<Rightarrow> watchdog \<Rightarrow> watchdog \<Rightarrow> bool" where
  "fast_step timeout_ms w w' \<longleftrightarrow> watch_step timeout_ms w w' \<and> in_time timeout_ms w \<and> in_time timeout_ms w'"

definition calm :: "nat \<Rightarrow> watchdog \<Rightarrow> bool" where
  "calm timeout_ms w \<longleftrightarrow> wd_pc w \<in> {Watching, Stopped} \<and> wd_interrupted w = []
     \<and> (wd_deadline w = idle_deadline
        \<or> (\<exists>n. wd_running w = Some n \<and> wd_deadline w = deadline_of (wd_started_at w n) timeout_ms))"

lemma calm_step:
  assumes "fast_step timeout_ms w w'" and "calm timeout_ms w"
  shows "calm timeout_ms w'"
proof -
  have "watch_step timeout_ms w w'" "in_time timeout_ms w" using assms(1) by (auto simp: fast_step_def)
  then show ?thesis
    using assms(2)
    by (induction rule: watch_step.induct) (auto simp: calm_def in_time_def deadline_of_def min_def split: if_splits)
qed

text \<open>
  The watchdog leaves operations alone that end in time: as long as no operation runs into its
  timeout, none is ever interrupted, however the two threads interleave.
\<close>

theorem watchdog_spares_fast:
  "(fast_step timeout_ms)\<^sup>*\<^sup>* watch_init w \<Longrightarrow> wd_interrupted w = []"
proof -
  assume run: "(fast_step timeout_ms)\<^sup>*\<^sup>* watch_init w"
  have "calm timeout_ms w"
    using run
  proof (induction rule: rtranclp_induct)
    case base
    show ?case by (simp add: calm_def watch_init_def)
  qed (rule calm_step)
  then show ?thesis by (simp add: calm_def)
qed

section \<open>Overruns\<close>

text \<open>An operation past its deadline is interrupted by the next round of a watchdog that runs.\<close>

lemma watchdog_interrupts_overrun:
  assumes "wd_running w = Some n" and "wd_pc w = Watching" and "\<not> wd_stop w"
    and "wd_deadline w \<noteq> idle_deadline" and "wd_deadline w \<le> wd_now w"
  shows "\<exists>w'. (watch_step timeout_ms ^^ 2) w w' \<and> (n, wd_now w) \<in> set (wd_interrupted w')"
proof -
  let ?w1 = "w\<lparr>wd_pc := Due\<rparr>"
  have "watch_step timeout_ms w ?w1" using watch_step.Check [OF assms(2,3)] assms(4,5) by simp
  moreover have "watch_step timeout_ms ?w1
      (?w1\<lparr>wd_pc := Interrupted, wd_interrupted := (n, wd_now w) # wd_interrupted w\<rparr>)"
    using watch_step.Interrupt [of ?w1 timeout_ms] assms(1) by simp
  ultimately show ?thesis by (force simp: numeral_2_eq_2)
qed

text \<open>
  Between the check and the interrupt the overdue operation may end and the next one start: that
  one is then interrupted within its time, and its own deadline is cleared.
\<close>

theorem watchdog_race:
  "\<exists>w. (watch_step 100)\<^sup>*\<^sup>* watch_init w \<and> wd_running w = Some 1 \<and> (1, wd_now w) \<in> set (wd_interrupted w)
     \<and> wd_now w < wd_started_at w 1 + 100 \<and> wd_deadline w = idle_deadline"
proof -
  have i: "idle_deadline = 18446744073709551615" by (simp add: idle_deadline_def)
  let ?w1 = "watch_init\<lparr>wd_deadline := 100, wd_running := Some 0, wd_started_at := (\<lambda>_. 0)(0 := 0), wd_next := 1\<rparr>"
  let ?w2 = "?w1\<lparr>wd_now := 100\<rparr>"
  let ?w3 = "?w2\<lparr>wd_pc := Due\<rparr>"
  let ?w4 = "?w3\<lparr>wd_running := None, wd_deadline := idle_deadline\<rparr>"
  let ?w5 = "?w4\<lparr>wd_deadline := 200, wd_running := Some 1, wd_started_at := ((\<lambda>_. 0)(0 := 0))(1 := 100), wd_next := 2\<rparr>"
  let ?w6 = "?w5\<lparr>wd_pc := Interrupted, wd_interrupted := [(1, 100)]\<rparr>"
  let ?w7 = "?w6\<lparr>wd_pc := Watching, wd_deadline := idle_deadline\<rparr>"
  have s1: "watch_step 100 watch_init ?w1"
    using watch_step.Begin [of watch_init 100] by (simp add: watch_init_def deadline_of_def i)
  have s2: "watch_step 100 ?w1 ?w2" using watch_step.Tick [of ?w1 100 100] by (simp add: watch_init_def)
  have s3: "watch_step 100 ?w2 ?w3" using watch_step.Check [of ?w2 100] by (simp add: watch_init_def i)
  have s4: "watch_step 100 ?w3 ?w4" using watch_step.End [of ?w3 0 100] by simp
  have s5: "watch_step 100 ?w4 ?w5"
    using watch_step.Begin [of ?w4 100] by (simp add: watch_init_def deadline_of_def i numeral_2_eq_2)
  have s6: "watch_step 100 ?w5 ?w6" using watch_step.Interrupt [of ?w5 100] by (simp add: watch_init_def)
  have s7: "watch_step 100 ?w6 ?w7" using watch_step.Disarm [of ?w6 100] by simp
  have "(watch_step 100)\<^sup>*\<^sup>* watch_init ?w7"
    by (rule converse_rtranclp_into_rtranclp [OF s1
      converse_rtranclp_into_rtranclp [OF s2
      converse_rtranclp_into_rtranclp [OF s3
      converse_rtranclp_into_rtranclp [OF s4
      converse_rtranclp_into_rtranclp [OF s5
      converse_rtranclp_into_rtranclp [OF s6 r_into_rtranclp [of "watch_step 100", OF s7]]]]]]])
  then show ?thesis by (intro exI [of _ ?w7]) (simp add: watch_init_def)
qed

end
