(* ===== verification/Wire.thy ===== *)
theory Wire
  imports Codec Caches
begin

text \<open>
  The JSON of the management API, the server's side: what \<open>serde\<close> derives for the requests and
  answers of \<open>src/src/handlers\<close> (providers, models, API keys) and for \<open>AitError\<close>, and an
  endpoint that reads a JSON body, runs a handler and answers JSON. An object is written in key
  order; a reader looks fields up by name, ignores others, and reads a missing or null field of an
  \<open>Option\<close> as \<open>None\<close>. (\<open>serde\<close> also reads a struct from an array; nothing sends one.)
\<close>

section \<open>Fields\<close>

definition req_field :: "(json \<Rightarrow> 'a option) \<Rightarrow> string \<Rightarrow> json \<Rightarrow> 'a option" where
  "req_field dec k v = Option.bind (jget k v) dec"

definition opt_field :: "(json \<Rightarrow> 'a option) \<Rightarrow> string \<Rightarrow> json \<Rightarrow> 'a option option" where
  "opt_field dec k v =
     (if is_object v then
        (case jget k v of
           None \<Rightarrow> Some None
         | Some x \<Rightarrow> if x = Null then Some None else map_option Some (dec x))
      else None)"

definition jopt :: "('a \<Rightarrow> json) \<Rightarrow> 'a option \<Rightarrow> json" where
  "jopt enc x = (case x of None \<Rightarrow> Null | Some a \<Rightarrow> enc a)"

definition jint :: "int \<Rightarrow> json" where
  "jint i = Number (Integer i)"

definition provider_type_of :: "json \<Rightarrow> provider_type option" where
  "provider_type_of v = Option.bind (as_str v) (\<lambda>s. find (\<lambda>t. to_db t = s) all_provider_types)"

section \<open>Requests\<close>

definition create_provider_of :: "json \<Rightarrow> create_provider_request option" where
  "create_provider_of v =
     Option.bind (req_field as_str ''name'' v) (\<lambda>n.
     Option.bind (req_field provider_type_of ''type'' v) (\<lambda>t.
     Option.bind (req_field as_str ''base_url'' v) (\<lambda>u.
     Option.bind (opt_field as_str ''api_key'' v) (\<lambda>k.
     Option.bind (req_field as_bool ''enabled'' v) (\<lambda>e.
       Some \<lparr>cp_name = n, cp_type = t, cp_base_url = u, cp_api_key = k, cp_enabled = e\<rparr>)))))"

definition update_provider_of :: "json \<Rightarrow> update_provider_request option" where
  "update_provider_of v =
     Option.bind (opt_field as_str ''name'' v) (\<lambda>n.
     Option.bind (opt_field provider_type_of ''type'' v) (\<lambda>t.
     Option.bind (opt_field as_str ''base_url'' v) (\<lambda>u.
     Option.bind (opt_field as_str ''api_key'' v) (\<lambda>k.
     Option.bind (opt_field as_bool ''enabled'' v) (\<lambda>e.
       Some \<lparr>up_name = n, up_type = t, up_base_url = u, up_api_key = k, up_enabled = e\<rparr>)))))"

definition create_model_of :: "json \<Rightarrow> create_model_request option" where
  "create_model_of v =
     Option.bind (req_field as_str ''name'' v) (\<lambda>n.
     Option.bind (req_field as_str ''provider_id'' v) (\<lambda>p.
     Option.bind (req_field as_str ''upstream_model'' v) (\<lambda>u.
     Option.bind (req_field as_bool ''enabled'' v) (\<lambda>e.
       Some \<lparr>cm_name = n, cm_provider_id = p, cm_upstream_model = u, cm_enabled = e\<rparr>))))"

definition update_model_of :: "json \<Rightarrow> update_model_request option" where
  "update_model_of v =
     Option.bind (opt_field as_str ''provider_id'' v) (\<lambda>p.
     Option.bind (opt_field as_str ''upstream_model'' v) (\<lambda>u.
     Option.bind (opt_field as_bool ''enabled'' v) (\<lambda>e.
       Some \<lparr>um_provider_id = p, um_upstream_model = u, um_enabled = e\<rparr>)))"

definition create_api_key_of :: "json \<Rightarrow> (string \<times> int option) option" where
  "create_api_key_of v =
     Option.bind (req_field as_str ''name'' v) (\<lambda>n.
     Option.bind (opt_field as_i64 ''expires_at'' v) (\<lambda>e. Some (n, e)))"

definition update_api_key_of :: "json \<Rightarrow> (string option \<times> int option \<times> bool option) option" where
  "update_api_key_of v =
     Option.bind (opt_field as_str ''name'' v) (\<lambda>n.
     Option.bind (opt_field as_i64 ''expires_at'' v) (\<lambda>e.
     Option.bind (opt_field as_bool ''enabled'' v) (\<lambda>b. Some (n, e, b))))"

section \<open>Answers\<close>

definition json_of_provider :: "provider_response \<Rightarrow> json" where
  "json_of_provider p = Object
     [(''api_key'', jopt String (presp_api_key p)), (''base_url'', String (presp_base_url p)),
      (''created_at'', jint (presp_created_at p)), (''enabled'', Bool (presp_enabled p)),
      (''id'', String (presp_id p)), (''name'', String (presp_name p)),
      (''type'', String (to_db (presp_type p))), (''updated_at'', jint (presp_updated_at p))]"

definition json_of_model :: "model_response \<Rightarrow> json" where
  "json_of_model m = Object
     [(''created_at'', jint (mresp_created_at m)), (''enabled'', Bool (mresp_enabled m)),
      (''id'', String (mresp_id m)), (''name'', String (mresp_name m)),
      (''provider_id'', String (mresp_provider_id m)), (''updated_at'', jint (mresp_updated_at m)),
      (''upstream_model'', String (mresp_upstream_model m))]"

definition json_of_api_key :: "api_key_response \<Rightarrow> json" where
  "json_of_api_key k = Object
     [(''created_at'', jint (kresp_created_at k)), (''enabled'', Bool (kresp_enabled k)),
      (''expires_at'', jopt jint (kresp_expires_at k)), (''id'', String (kresp_id k)),
      (''key'', String (kresp_key k)), (''name'', String (kresp_name k)),
      (''updated_at'', jint (kresp_updated_at k))]"

text \<open>\<open>AitError\<close>: the detail is never written, and the id only when there is one.\<close>

definition json_of_error :: "ait_error \<Rightarrow> json" where
  "json_of_error e = Object
     ([(''code'', jint (int (err_code e))), (''message'', String (err_message e))]
      @ (case err_request_id e of None \<Rightarrow> [] | Some i \<Rightarrow> [(''request_id'', String i)])
      @ [(''type'', String (err_type e))])"

section \<open>Endpoints\<close>

text \<open>
  An answer is a status and the text of its body. The \<open>Json\<close> extractor refuses a body that is not
  JSON with 400 and one that is not such a request with 422 (\<open>refused\<close> is its text, which is not
  JSON); the \<open>Json\<close> answer of a value that cannot be written is a 500.
\<close>

type_synonym reply = "nat \<times> string"

definition json_reply :: "to_vec \<Rightarrow> nat \<Rightarrow> json \<Rightarrow> reply" where
  "json_reply to_vec st v = (case to_vec v of Inr text \<Rightarrow> (st, text) | Inl text \<Rightarrow> (500, text))"

definition reply_of :: "to_vec \<Rightarrow> ('r \<Rightarrow> json) \<Rightarrow> http_error + nat \<times> 'r \<Rightarrow> reply" where
  "reply_of to_vec enc r = (case r of
     Inl (st, e) \<Rightarrow> json_reply to_vec st (json_of_error e)
   | Inr (st, x) \<Rightarrow> json_reply to_vec st (enc x))"

definition json_endpoint ::
    "from_slice \<Rightarrow> to_vec \<Rightarrow> string \<Rightarrow> (json \<Rightarrow> 'q option) \<Rightarrow> ('r \<Rightarrow> json)
      \<Rightarrow> ('q \<Rightarrow> app_state \<Rightarrow> (http_error + nat \<times> 'r) \<times> app_state) \<Rightarrow> string \<Rightarrow> app_state \<Rightarrow> reply \<times> app_state" where
  "json_endpoint from_slice to_vec refused dec enc handler body s =
     (case from_slice body of
        None \<Rightarrow> ((400, refused), s)
      | Some v \<Rightarrow>
          (case dec v of
             None \<Rightarrow> ((422, refused), s)
           | Some q \<Rightarrow> (case handler q s of (r, s') \<Rightarrow> (reply_of to_vec enc r, s'))))"

text \<open>A handler that answers with 200.\<close>

definition ok_200 :: "(http_error + 'r) \<times> app_state \<Rightarrow> (http_error + nat \<times> 'r) \<times> app_state" where
  "ok_200 r = (case r of (Inl e, s) \<Rightarrow> (Inl e, s) | (Inr x, s) \<Rightarrow> (Inr (200, x), s))"

section \<open>Facts\<close>

lemma provider_type_of_to_db [simp]: "provider_type_of (String (to_db t)) = Some t"
  by (cases t) (simp_all add: provider_type_of_def all_provider_types_def)

lemma jopt_null [simp]: "jopt String x = Null \<longleftrightarrow> x = None" "jopt jint y = Null \<longleftrightarrow> y = None"
  by (simp_all add: jopt_def jint_def split: option.split)

lemma as_i64_jint: "- (2 ^ 63) \<le> i \<Longrightarrow> i < 2 ^ 63 \<Longrightarrow> as_i64 (jint i) = Some i"
  by (simp add: jint_def)

lemma jopt_Some [simp]: "jopt f (Some x) = f x" "jopt f None = Null"
  by (simp_all add: jopt_def)

end
