(* ===== verification/Client_Ui.thy ===== *)
theory Client_Ui
  imports Caches
begin

text \<open>
  The shared services of the web console under \<open>src/frontend/src\<close>: the notices of
  \<open>components/toast.rs\<close>, the translations of \<open>i18n.rs\<close>, the browser storage of \<open>storage.rs\<close> and the
  preferences \<open>app.rs\<close> and \<open>components/topbar.rs\<close> keep in it. Signals are fields of a state. A
  key of the generated enum \<open>K\<close> is its text; the embedded files of translations are the argument
  \<open>files\<close>.
\<close>

section \<open>Toasts\<close>

datatype toast_level = ToastSuccess | ToastError | ToastInfo

record toast_data =
  toast_id :: "64 word"
  toast_level :: toast_level
  toast_message :: string

text \<open>A spawned task of \<open>push\<close>: the toast it removes and the time it wakes at (milliseconds).\<close>

record toast_state =
  next_toast_id :: "64 word"
  toasts :: "toast_data list"
  toast_tasks :: "(nat \<times> 64 word) list"

definition toast_remove :: "64 word \<Rightarrow> toast_state \<Rightarrow> toast_state" where
  "toast_remove i s = s\<lparr>toasts := filter (\<lambda>t. toast_id t \<noteq> i) (toasts s)\<rparr>"

definition toast_push :: "nat \<Rightarrow> toast_level \<Rightarrow> string \<Rightarrow> toast_state \<Rightarrow> toast_state" where
  "toast_push now level message s =
     (let i = next_toast_id s
      in s\<lparr>next_toast_id := i + 1,
           toasts := toasts s @ [\<lparr>toast_id = i, toast_level = level, toast_message = message\<rparr>],
           toast_tasks := toast_tasks s @ [(now + 5000, i)]\<rparr>)"

definition toast_success :: "nat \<Rightarrow> string \<Rightarrow> toast_state \<Rightarrow> toast_state" where
  "toast_success now message = toast_push now ToastSuccess message"

definition toast_error :: "nat \<Rightarrow> string \<Rightarrow> toast_state \<Rightarrow> toast_state" where
  "toast_error now message = toast_push now ToastError message"

text \<open>The tasks whose timeout is over run.\<close>

definition toast_wake :: "nat \<Rightarrow> toast_state \<Rightarrow> toast_state" where
  "toast_wake now s =
     fold (\<lambda>(due, i). toast_remove i) (filter (\<lambda>(due, i). due \<le> now) (toast_tasks s))
       (s\<lparr>toast_tasks := filter (\<lambda>(due, i). now < due) (toast_tasks s)\<rparr>)"

section \<open>Translations\<close>

type_synonym dictionary = "(string \<times> string) list"

record i18n =
  i18n_lang :: string
  i18n_translations :: dictionary
  i18n_cache :: "(string, dictionary) dash_map"

definition embedded_translations :: "(string \<Rightarrow> dictionary) \<Rightarrow> string \<Rightarrow> dictionary" where
  "embedded_translations files l =
     (if l = ''zh'' then files ''zh.json'' else if l = ''en'' then files ''en.json'' else files ''zh.json'')"

definition i18n_new :: "(string \<Rightarrow> dictionary) \<Rightarrow> string \<Rightarrow> i18n" where
  "i18n_new files initial_lang =
     (let default = embedded_translations files initial_lang
      in \<lparr>i18n_lang = initial_lang, i18n_translations = default, i18n_cache = [(initial_lang, default)]\<rparr>)"

text \<open>
  \<open>RwLock::write\<close> on a target without threads, with \<open>readers\<close> read guards alive: it cannot wait
  for them, so it aborts (\<open>None\<close>) unless there are none.
\<close>

definition lock_write :: "nat \<Rightarrow> 'a \<Rightarrow> 'a option" where
  "lock_write readers x = (if readers = 0 then Some x else None)"

text \<open>
  \<open>set_lang\<close>. The read guard of the cache is a temporary of the scrutinee of the \<open>match\<close>, so it
  is alive in both arms.
\<close>

definition set_lang :: "(string \<Rightarrow> dictionary) \<Rightarrow> string \<Rightarrow> i18n \<Rightarrow> i18n option" where
  "set_lang files l s =
     (if l = i18n_lang s then Some s
      else
        (let s = s\<lparr>i18n_lang := l\<rparr>; readers = 1
         in case dm_get (i18n_cache s) l of
              Some cached \<Rightarrow> Some (s\<lparr>i18n_translations := cached\<rparr>)
            | None \<Rightarrow>
                (let embedded = embedded_translations files l
                 in Option.bind (lock_write readers (s\<lparr>i18n_cache := dm_insert l embedded (i18n_cache s)\<rparr>)) (\<lambda>s.
                    Some (s\<lparr>i18n_translations := embedded\<rparr>)))))"

definition translate :: "i18n \<Rightarrow> string \<Rightarrow> string" where
  "translate s k = (case map_of (i18n_translations s) k of Some v \<Rightarrow> v | None \<Rightarrow> k)"

text \<open>\<open>str::replace\<close> of a text that is not empty.\<close>

function replace_str :: "string \<Rightarrow> string \<Rightarrow> string \<Rightarrow> string" where
  "replace_str pat by_text s =
     (case s of
        [] \<Rightarrow> []
      | c # cs \<Rightarrow>
          (case strip_prefix pat s of
             Some r \<Rightarrow> if pat = [] then s else by_text @ replace_str pat by_text r
           | None \<Rightarrow> c # replace_str pat by_text cs))"
  by pat_completeness auto
termination
  by (relation "measure (\<lambda>(pat, by_text, s). length s)") (auto simp: strip_prefix_Some)

definition t_replace :: "i18n \<Rightarrow> string \<Rightarrow> (string \<times> string) list \<Rightarrow> string" where
  "t_replace s k pairs =
     foldl (\<lambda>text (ph, val). replace_str (''{{ '' @ ph @ '' }}'') val text) (translate s k) pairs"

section \<open>Storage\<close>

text \<open>
  A web storage: whether it can be used at all, which writes it accepts (a quota), and its texts.
  The storage crate keeps values as JSON, through \<open>to_vec\<close> and \<open>from_slice\<close>.
\<close>

record web_store =
  ws_usable :: bool
  ws_accepts :: "string \<Rightarrow> string \<Rightarrow> bool"
  ws_items :: "(string, string) dash_map"

datatype storage_backend = Local | Session | Memory "(string, string) dash_map"

record browser =
  has_window :: bool
  local_storage :: web_store
  session_storage :: web_store
  backend_cell :: "storage_backend option"

definition ws_set :: "to_vec \<Rightarrow> string \<Rightarrow> json \<Rightarrow> web_store \<Rightarrow> web_store option" where
  "ws_set to_vec k v w =
     (case to_vec v of
        Inl _ \<Rightarrow> None
      | Inr text \<Rightarrow>
          if ws_usable w \<and> ws_accepts w k text then Some (w\<lparr>ws_items := dm_insert k text (ws_items w)\<rparr>) else None)"

definition ws_get_string :: "from_slice \<Rightarrow> string \<Rightarrow> web_store \<Rightarrow> string option" where
  "ws_get_string from_slice k w =
     (if ws_usable w then Option.bind (dm_get (ws_items w) k) (\<lambda>text. Option.bind (from_slice text) as_str) else None)"

definition ws_delete :: "string \<Rightarrow> web_store \<Rightarrow> web_store" where
  "ws_delete k w = w\<lparr>ws_items := dm_remove k (ws_items w)\<rparr>"

definition probe :: "to_vec \<Rightarrow> bool \<Rightarrow> web_store \<Rightarrow> bool \<times> web_store" where
  "probe to_vec window w =
     (if window then
        (case ws_set to_vec ''__gloo_probe__'' (Bool True) w of
           Some w' \<Rightarrow> (True, ws_delete ''__gloo_probe__'' w')
         | None \<Rightarrow> (False, w))
      else (False, w))"

definition probe_backend :: "to_vec \<Rightarrow> browser \<Rightarrow> storage_backend \<times> browser" where
  "probe_backend to_vec b =
     (case probe to_vec (has_window b) (local_storage b) of (found, w) \<Rightarrow>
        let b = b\<lparr>local_storage := w\<rparr>
        in if found then (Local, b)
           else (case probe to_vec (has_window b) (session_storage b) of (found, w) \<Rightarrow>
                   let b = b\<lparr>session_storage := w\<rparr> in if found then (Session, b) else (Memory [], b)))"

definition storage_backend :: "to_vec \<Rightarrow> browser \<Rightarrow> storage_backend \<times> browser" where
  "storage_backend to_vec b =
     (case backend_cell b of
        Some k \<Rightarrow> (k, b)
      | None \<Rightarrow> (case probe_backend to_vec b of (k, b) \<Rightarrow> (k, b\<lparr>backend_cell := Some k\<rparr>)))"

definition get_item :: "from_slice \<Rightarrow> to_vec \<Rightarrow> string \<Rightarrow> browser \<Rightarrow> string option \<times> browser" where
  "get_item from_slice to_vec k b =
     (case storage_backend to_vec b of (kind, b) \<Rightarrow>
        (case kind of
           Local \<Rightarrow> ws_get_string from_slice k (local_storage b)
         | Session \<Rightarrow> ws_get_string from_slice k (session_storage b)
         | Memory m \<Rightarrow> dm_get m k, b))"

text \<open>A write the storage refuses is only reported on the browser's console.\<close>

definition set_item :: "to_vec \<Rightarrow> string \<Rightarrow> string \<Rightarrow> browser \<Rightarrow> browser" where
  "set_item to_vec k v b =
     (case storage_backend to_vec b of (kind, b) \<Rightarrow>
        (case kind of
           Local \<Rightarrow> (case ws_set to_vec k (String v) (local_storage b) of
               Some w \<Rightarrow> b\<lparr>local_storage := w\<rparr> | None \<Rightarrow> b)
         | Session \<Rightarrow> (case ws_set to_vec k (String v) (session_storage b) of
               Some w \<Rightarrow> b\<lparr>session_storage := w\<rparr> | None \<Rightarrow> b)
         | Memory m \<Rightarrow> b\<lparr>backend_cell := Some (Memory (dm_insert k v m))\<rparr>))"

section \<open>Preferences\<close>

definition theme_key :: string where "theme_key = ''ait-theme''"

definition lang_key :: string where "lang_key = ''ait-lang''"

definition system_lang :: "string option \<Rightarrow> string" where
  "system_lang navigator = (case navigator of
     Some l \<Rightarrow> if starts_with l ''zh'' then ''zh'' else if starts_with l ''en'' then ''en'' else ''zh''
   | None \<Rightarrow> ''zh'')"

definition initial_lang :: "string option \<Rightarrow> string option \<Rightarrow> string" where
  "initial_lang stored navigator = (case stored of Some l \<Rightarrow> l | None \<Rightarrow> system_lang navigator)"

definition stored_theme :: "string option \<Rightarrow> bool option" where
  "stored_theme item =
     (if item = Some ''dark'' then Some True else if item = Some ''light'' then Some False else None)"

text \<open>The language button: the translations first, then the stored preference.\<close>

definition toggle_lang ::
    "(string \<Rightarrow> dictionary) \<Rightarrow> to_vec \<Rightarrow> i18n \<times> browser \<Rightarrow> (i18n \<times> browser) option" where
  "toggle_lang files to_vec = (\<lambda>(s, b).
     let new_lang = (if i18n_lang s = ''zh'' then ''en'' else ''zh'')
     in Option.bind (set_lang files new_lang s) (\<lambda>s. Some (s, set_item to_vec lang_key new_lang b)))"

text \<open>The theme button, with the theme shown at the time (\<open>dark\<close>).\<close>

definition toggle_theme :: "to_vec \<Rightarrow> bool \<Rightarrow> browser \<Rightarrow> bool option \<times> browser" where
  "toggle_theme to_vec dark b =
     (let nxt = \<not> dark in (Some nxt, set_item to_vec theme_key (if nxt then ''dark'' else ''light'') b))"

section \<open>Facts\<close>

lemma storage_backend_idem:
  "storage_backend to_vec b = (k, b') \<Longrightarrow> storage_backend to_vec b' = (k, b')"
  by (auto simp: storage_backend_def split: option.splits prod.splits)

text \<open>Once a toast's task has run, no toast of its id is shown.\<close>

lemma toast_remove_shown [simp]: "toasts (toast_remove i s) = filter (\<lambda>t. toast_id t \<noteq> i) (toasts s)"
  by (simp add: toast_remove_def)

lemma toast_wake_shown:
  "toasts (toast_wake now s)
     = filter (\<lambda>t. \<forall>(due, i) \<in> set (toast_tasks s). due \<le> now \<longrightarrow> toast_id t \<noteq> i) (toasts s)"
proof -
  have "toasts (fold (\<lambda>(due, i). toast_remove i) es s)
      = filter (\<lambda>t. \<forall>(due, i) \<in> set es. toast_id t \<noteq> i) (toasts s)" for es :: "(nat \<times> 64 word) list" and s
    by (induction es arbitrary: s) (auto simp: filter_filter intro!: filter_cong split: prod.splits)
  then show ?thesis
    unfolding toast_wake_def by (auto intro!: filter_cong)
qed

text \<open>
  Notices come and go: with every shown toast's task still pending, one that was pushed at a time
  stays for five seconds unless it is closed, and is gone when its task has run.
\<close>

definition toasts_timed :: "toast_state \<Rightarrow> bool" where
  "toasts_timed s \<longleftrightarrow> (\<forall>t \<in> set (toasts s). \<exists>due. (due, toast_id t) \<in> set (toast_tasks s))"

lemma toasts_timed_push: "toasts_timed s \<Longrightarrow> toasts_timed (toast_push now l m s)"
  by (force simp: toasts_timed_def toast_push_def Let_def)

lemma toasts_timed_remove: "toasts_timed s \<Longrightarrow> toasts_timed (toast_remove i s)"
  by (auto simp: toasts_timed_def toast_remove_def)

lemma fold_toast_remove_tasks: "toast_tasks (fold (\<lambda>(due, i). toast_remove i) es s) = toast_tasks s"
  by (induction es arbitrary: s) (auto simp: toast_remove_def split: prod.splits)

lemma toasts_timed_wake:
  assumes "toasts_timed s"
  shows "toasts_timed (toast_wake now s)"
  unfolding toasts_timed_def
proof
  fix t
  assume "t \<in> set (toasts (toast_wake now s))"
  then have t: "t \<in> set (toasts s)" "\<forall>(due, i) \<in> set (toast_tasks s). due \<le> now \<longrightarrow> toast_id t \<noteq> i"
    by (auto simp: toast_wake_shown)
  obtain due where "(due, toast_id t) \<in> set (toast_tasks s)" using assms t(1) by (auto simp: toasts_timed_def)
  moreover from this have "now < due" using t(2) by fastforce
  ultimately show "\<exists>due. (due, toast_id t) \<in> set (toast_tasks (toast_wake now s))"
    unfolding toast_wake_def fold_toast_remove_tasks by auto
qed

section \<open>Properties\<close>

definition set_langs :: "(string \<Rightarrow> dictionary) \<Rightarrow> string list \<Rightarrow> i18n \<Rightarrow> i18n option" where
  "set_langs files ls s = foldl (\<lambda>s l. Option.bind s (set_lang files l)) (Some s) ls"

lemma set_lang_initial:
  assumes "i18n_lang s = l0" "i18n_cache s = [(l0, embedded_translations files l0)]"
  shows "set_lang files l s = (if l = l0 then Some s else None)"
  using assms by (simp add: set_lang_def dm_get_def lock_write_def)

text \<open>
  C27: No other language can ever be shown. Whatever languages are asked for one after the other,
  the translations of the first language stay as they are as long as each request is for that
  language again; the first request for another one finds it missing from the cache, asks for the
  cache's write lock while the read guard of the lookup is still alive, and aborts.
\<close>

theorem language_switch_aborts:
  "set_langs files ls (i18n_new files l0) = (if set ls \<subseteq> {l0} then Some (i18n_new files l0) else None)"
proof -
  have none: "foldl (\<lambda>s l. Option.bind s (set_lang files l)) None ls = None" for ls by (induction ls) simp_all
  have "i18n_lang (i18n_new files l0) = l0" "i18n_cache (i18n_new files l0) = [(l0, embedded_translations files l0)]"
    by (simp_all add: i18n_new_def Let_def)
  note first = set_lang_initial [OF this]
  show ?thesis
    unfolding set_langs_def by (induction ls) (simp_all add: first none)
qed

text \<open>
  A preference that was stored is read back, and storing one leaves the others as they are,
  whichever storage the browser has; a storage that refuses the write keeps the old value.
\<close>

theorem storage_get_set:
  assumes "codec_law from_slice to_vec" and "b' = set_item to_vec k v b"
  shows "fst (get_item from_slice to_vec k b') = Some v
      \<or> fst (get_item from_slice to_vec k b') = fst (get_item from_slice to_vec k b)"
    and "k' \<noteq> k \<Longrightarrow> fst (get_item from_slice to_vec k' b') = fst (get_item from_slice to_vec k' b)"
proof -
  obtain kind c where kc: "storage_backend to_vec b = (kind, c)" by fastforce
  have c: "storage_backend to_vec c = (kind, c)" by (rule storage_backend_idem [OF kc])
  then have cell: "backend_cell c = Some kind"
    by (auto simp: storage_backend_def split: option.splits prod.splits)
  obtain item where item: "to_vec (String v) = Inr item" "from_slice item = Some (String v)"
    using assms(1) by (auto simp: codec_law_def)
  have keep: "storage_backend to_vec (c\<lparr>local_storage := w\<rparr>) = (kind, c\<lparr>local_storage := w\<rparr>)"
      "storage_backend to_vec (c\<lparr>session_storage := w\<rparr>) = (kind, c\<lparr>session_storage := w\<rparr>)"
      "storage_backend to_vec (c\<lparr>backend_cell := Some x\<rparr>) = (x, c\<lparr>backend_cell := Some x\<rparr>)" for w x
    using cell by (simp_all add: storage_backend_def)
  show "fst (get_item from_slice to_vec k b') = Some v
      \<or> fst (get_item from_slice to_vec k b') = fst (get_item from_slice to_vec k b)"
    unfolding assms(2)
    by (cases kind) (auto simp: set_item_def get_item_def kc c keep ws_set_def ws_get_string_def item dash_simps)
  show "fst (get_item from_slice to_vec k' b') = fst (get_item from_slice to_vec k' b)" if "k' \<noteq> k"
    unfolding assms(2) using that
    by (cases kind) (auto simp: set_item_def get_item_def kc c keep ws_set_def ws_get_string_def item dash_simps)
qed

end
