(* ===== verification/Client_Api.thy ===== *)
theory Client_Api
  imports Wire Client_Ui
begin

text \<open>
  The console's client of the management API (\<open>src/frontend/src/api.rs\<close>): its requests, how it
  reads answers and errors, and the cache of responses. A call is cut at its \<open>await\<close>: the request
  it sends, and what it does with the outcome of \<open>fetch\<close>, which is an argument. \<open>Date::now()\<close> is
  the number of milliseconds since 1970. Reading a body as JSON (\<open>serde_json::from_str\<close>) is the
  argument \<open>from_slice\<close>; the texts of its errors are the browser's and the crate's, \<open>decode_error\<close>.
\<close>

section \<open>State\<close>

record cached_response =
  cr_json :: string
  cr_cached_at :: nat

type_synonym response_cache = "(string, cached_response) dash_map"

record client =
  cl_cache :: response_cache
  cl_toasts :: toast_state
  cl_i18n :: i18n

definition request_timeout_ms :: nat where
  "request_timeout_ms = 30000"

definition cache_ttl_ms :: int where
  "cache_ttl_ms = 120000"

definition max_cache_entries :: nat where
  "max_cache_entries = 5"

text \<open>The abort signal: none where the browser has no \<open>AbortSignal.timeout\<close>.\<close>

definition timeout_signal :: "bool \<Rightarrow> nat option" where
  "timeout_signal supported = (if supported then Some request_timeout_ms else None)"

definition clear_cache :: "client \<Rightarrow> client" where
  "clear_cache s = s\<lparr>cl_cache := []\<rparr>"

text \<open>
  The outcome of \<open>fetch\<close>: an error of the network, or a status and the body's text, unless reading
  it fails. Whether \<open>use_context\<close> finds the notices after the \<open>await\<close> is up to the framework,
  \<open>has_context\<close>.
\<close>

type_synonym fetched = "string + nat \<times> (string + string)"

record api_env =
  ap_now :: nat
  ap_has_context :: bool
  ap_from_slice :: from_slice
  ap_to_vec :: to_vec
  ap_decode_error :: "string \<Rightarrow> string"
  ap_encode_uri :: "string \<Rightarrow> string option"
  ap_origin :: string
  ap_signal :: bool

definition handle_401 :: "api_env \<Rightarrow> nat \<Rightarrow> client \<Rightarrow> client" where
  "handle_401 env status s =
     (if status \<noteq> 401 then s
      else
        (let s = clear_cache s
         in if ap_has_context env
            then s\<lparr>cl_toasts := toast_error (ap_now env) (translate (cl_i18n s) ''api_key_expired'') (cl_toasts s)\<rparr>
            else s))"

section \<open>Errors\<close>

record api_error =
  apie_message :: string
  apie_request_id :: "string option"

definition from_net_error :: "string \<Rightarrow> api_error" where
  "from_net_error text = \<lparr>apie_message = text, apie_request_id = None\<rparr>"

definition response_to_error :: "from_slice \<Rightarrow> nat \<Rightarrow> string + string \<Rightarrow> api_error" where
  "response_to_error from_slice status body =
     (let parsed = (case body of Inr text \<Rightarrow> from_slice text | Inl _ \<Rightarrow> None)
      in \<lparr>apie_message = (case Option.bind parsed (\<lambda>v. Option.bind (jget ''message'' v) as_str) of
            Some m \<Rightarrow> m | None \<Rightarrow> ''HTTP '' @ show_nat status),
          apie_request_id = Option.bind parsed (\<lambda>v. Option.bind (jget ''request_id'' v) as_str)\<rparr>)"

section \<open>Calls\<close>

record http_call =
  hc_method :: string
  hc_url :: string
  hc_body :: "string option"
  hc_timeout :: "nat option"

definition resp_ok :: "nat \<Rightarrow> bool" where
  "resp_ok status \<longleftrightarrow> 200 \<le> status \<and> status < 300"

definition decode_text :: "api_env \<Rightarrow> (json \<Rightarrow> 'a option) \<Rightarrow> string \<Rightarrow> api_error + 'a" where
  "decode_text env dec text = (case Option.bind (ap_from_slice env text) dec of
     Some a \<Rightarrow> Inr a | None \<Rightarrow> Inl (from_net_error (ap_decode_error env text)))"

definition decode_body :: "api_env \<Rightarrow> (json \<Rightarrow> 'a option) \<Rightarrow> string + string \<Rightarrow> api_error + 'a" where
  "decode_body env dec body = and_then (map_err from_net_error body) (decode_text env dec)"

definition url_of :: "api_env \<Rightarrow> string \<Rightarrow> string" where
  "url_of env path = ap_origin env @ ''/'' @ path"

text \<open>\<open>Value::to_string\<close>, whose formatting does not fail.\<close>

definition json_text :: "api_env \<Rightarrow> json \<Rightarrow> string" where
  "json_text env v = (case ap_to_vec env v of Inr text \<Rightarrow> text | Inl _ \<Rightarrow> [])"

definition api_post_call :: "api_env \<Rightarrow> string \<Rightarrow> json \<Rightarrow> http_call" where
  "api_post_call env path body =
     \<lparr>hc_method = ''POST'', hc_url = url_of env path, hc_body = Some (json_text env body),
      hc_timeout = timeout_signal (ap_signal env)\<rparr>"

definition api_post :: "api_env \<Rightarrow> (json \<Rightarrow> 'a option) \<Rightarrow> fetched \<Rightarrow> client \<Rightarrow> (api_error + 'a) \<times> client" where
  "api_post env dec outcome s =
     (case outcome of
        Inl e \<Rightarrow> (Inl (from_net_error e), s)
      | Inr (status, body) \<Rightarrow>
          if resp_ok status then (decode_body env dec body, clear_cache s)
          else (Inl (response_to_error (ap_from_slice env) status body), handle_401 env status s))"

definition api_put_call :: "api_env \<Rightarrow> string \<Rightarrow> json \<Rightarrow> http_call" where
  "api_put_call env path body =
     \<lparr>hc_method = ''PUT'', hc_url = url_of env path, hc_body = Some (json_text env body),
      hc_timeout = timeout_signal (ap_signal env)\<rparr>"

definition api_put :: "api_env \<Rightarrow> (json \<Rightarrow> 'a option) \<Rightarrow> fetched \<Rightarrow> client \<Rightarrow> (api_error + 'a) \<times> client" where
  "api_put env dec outcome s =
     (case outcome of
        Inl e \<Rightarrow> (Inl (from_net_error e), s)
      | Inr (status, body) \<Rightarrow>
          if resp_ok status then (decode_body env dec body, clear_cache s)
          else (Inl (response_to_error (ap_from_slice env) status body), handle_401 env status s))"

definition api_delete_call :: "api_env \<Rightarrow> string \<Rightarrow> http_call" where
  "api_delete_call env path =
     \<lparr>hc_method = ''DELETE'', hc_url = url_of env path, hc_body = None,
      hc_timeout = timeout_signal (ap_signal env)\<rparr>"

definition api_delete :: "api_env \<Rightarrow> fetched \<Rightarrow> client \<Rightarrow> (api_error + unit) \<times> client" where
  "api_delete env outcome s =
     (case outcome of
        Inl e \<Rightarrow> (Inl (from_net_error e), s)
      | Inr (status, body) \<Rightarrow>
          if resp_ok status then (Inr (), clear_cache s)
          else (Inl (response_to_error (ap_from_slice env) status body), handle_401 env status s))"

definition api_get_call :: "api_env \<Rightarrow> string \<Rightarrow> http_call" where
  "api_get_call env path =
     \<lparr>hc_method = ''GET'', hc_url = url_of env path, hc_body = None,
      hc_timeout = timeout_signal (ap_signal env)\<rparr>"

definition api_get :: "api_env \<Rightarrow> (json \<Rightarrow> 'a option) \<Rightarrow> fetched \<Rightarrow> client \<Rightarrow> (api_error + 'a) \<times> client" where
  "api_get env dec outcome s =
     (case outcome of
        Inl e \<Rightarrow> (Inl (from_net_error e), s)
      | Inr (status, body) \<Rightarrow>
          if resp_ok status then (decode_body env dec body, s)
          else (Inl (response_to_error (ap_from_slice env) status body), handle_401 env status s))"

section \<open>Cached reads\<close>

text \<open>The lookup before the request: a fresh entry, unless the read is forced.\<close>

definition cached_json :: "nat \<Rightarrow> string \<Rightarrow> bool \<Rightarrow> client \<Rightarrow> string option" where
  "cached_json now path force s =
     (if force then None
      else Option.bind (dm_get (cl_cache s) path) (\<lambda>entry.
        if int now - int (cr_cached_at entry) < cache_ttl_ms then Some (cr_json entry) else None))"

text \<open>The insertion: the new entry first, then the oldest of too many goes.\<close>

definition cache_response :: "string \<Rightarrow> cached_response \<Rightarrow> response_cache \<Rightarrow> response_cache" where
  "cache_response path entry m =
     (let m = dm_insert path entry m
      in if length m > max_cache_entries then
           (case min_by_key (\<lambda>(k, v). cr_cached_at v) m of
              Some (oldest_key, _) \<Rightarrow> dm_remove oldest_key m
            | None \<Rightarrow> m)
         else m)"

definition api_get_cached_done ::
    "api_env \<Rightarrow> (json \<Rightarrow> 'a option) \<Rightarrow> string \<Rightarrow> fetched \<Rightarrow> client \<Rightarrow> (api_error + 'a) \<times> client" where
  "api_get_cached_done env dec path outcome s =
     (case outcome of
        Inl e \<Rightarrow> (Inl (from_net_error e), s)
      | Inr (status, body) \<Rightarrow>
          if \<not> resp_ok status then
            (Inl (response_to_error (ap_from_slice env) status body), handle_401 env status s)
          else
            (case body of
               Inl e \<Rightarrow> (Inl (from_net_error e), s)
             | Inr text \<Rightarrow>
                 (case decode_text env dec text of
                    Inl e \<Rightarrow> (Inl e, s)
                  | Inr result \<Rightarrow>
                      (Inr result,
                       s\<lparr>cl_cache := cache_response path \<lparr>cr_json = text, cr_cached_at = ap_now env\<rparr> (cl_cache s)\<rparr>))))"

text \<open>A whole cached read whose request is answered at once by \<open>fetch\<close>.\<close>

definition api_get_cached ::
    "api_env \<Rightarrow> (json \<Rightarrow> 'a option) \<Rightarrow> (http_call \<Rightarrow> fetched) \<Rightarrow> string \<Rightarrow> bool \<Rightarrow> client \<Rightarrow> (api_error + 'a) \<times> client" where
  "api_get_cached env dec fetch path force s =
     (case cached_json (ap_now env) path force s of
        Some text \<Rightarrow> (decode_text env dec text, s)
      | None \<Rightarrow> api_get_cached_done env dec path (fetch (api_get_call env path)) s)"


section \<open>What the console reads\<close>

record ui_provider_type =
  uit_type :: string
  uit_display_name :: string

record ui_provider =
  uip_id :: string
  uip_name :: string
  uip_type :: string
  uip_base_url :: string
  uip_api_key :: "string option"
  uip_enabled :: bool
  uip_created_at :: int
  uip_updated_at :: int

record ui_model =
  uim_id :: string
  uim_name :: string
  uim_provider_id :: string
  uim_upstream_model :: string
  uim_enabled :: bool
  uim_created_at :: int
  uim_updated_at :: int

record ui_api_key =
  uik_id :: string
  uik_display :: string
  uik_name :: string
  uik_created_at :: int
  uik_updated_at :: int
  uik_enabled :: bool
  uik_expires_at :: "int option"

text \<open>A field with \<open>#[serde(default)]\<close>: the default when it is missing.\<close>

definition default_field :: "'a \<Rightarrow> (json \<Rightarrow> 'a option) \<Rightarrow> string \<Rightarrow> json \<Rightarrow> 'a option" where
  "default_field d dec k v =
     (if is_object v then (case jget k v of None \<Rightarrow> Some d | Some x \<Rightarrow> dec x) else None)"

definition ui_provider_type_of :: "json \<Rightarrow> ui_provider_type option" where
  "ui_provider_type_of v =
     Option.bind (req_field as_str ''type'' v) (\<lambda>t.
     Option.bind (req_field as_str ''display_name'' v) (\<lambda>d. Some \<lparr>uit_type = t, uit_display_name = d\<rparr>))"

definition ui_provider_of :: "json \<Rightarrow> ui_provider option" where
  "ui_provider_of v =
     Option.bind (req_field as_str ''id'' v) (\<lambda>i.
     Option.bind (req_field as_str ''name'' v) (\<lambda>n.
     Option.bind (req_field as_str ''type'' v) (\<lambda>t.
     Option.bind (req_field as_str ''base_url'' v) (\<lambda>u.
     Option.bind (opt_field as_str ''api_key'' v) (\<lambda>k.
     Option.bind (req_field as_bool ''enabled'' v) (\<lambda>e.
     Option.bind (default_field 0 as_i64 ''created_at'' v) (\<lambda>c.
     Option.bind (default_field 0 as_i64 ''updated_at'' v) (\<lambda>m.
       Some \<lparr>uip_id = i, uip_name = n, uip_type = t, uip_base_url = u, uip_api_key = k, uip_enabled = e,
             uip_created_at = c, uip_updated_at = m\<rparr>))))))))"

definition ui_model_of :: "json \<Rightarrow> ui_model option" where
  "ui_model_of v =
     Option.bind (req_field as_str ''id'' v) (\<lambda>i.
     Option.bind (req_field as_str ''name'' v) (\<lambda>n.
     Option.bind (req_field as_str ''provider_id'' v) (\<lambda>p.
     Option.bind (req_field as_str ''upstream_model'' v) (\<lambda>u.
     Option.bind (req_field as_bool ''enabled'' v) (\<lambda>e.
     Option.bind (default_field 0 as_i64 ''created_at'' v) (\<lambda>c.
     Option.bind (default_field 0 as_i64 ''updated_at'' v) (\<lambda>m.
       Some \<lparr>uim_id = i, uim_name = n, uim_provider_id = p, uim_upstream_model = u, uim_enabled = e,
             uim_created_at = c, uim_updated_at = m\<rparr>)))))))"

definition ui_api_key_of :: "json \<Rightarrow> ui_api_key option" where
  "ui_api_key_of v =
     Option.bind (req_field as_str ''id'' v) (\<lambda>i.
     Option.bind (req_field as_str ''key'' v) (\<lambda>d.
     Option.bind (req_field as_str ''name'' v) (\<lambda>n.
     Option.bind (default_field 0 as_i64 ''created_at'' v) (\<lambda>c.
     Option.bind (default_field 0 as_i64 ''updated_at'' v) (\<lambda>m.
     Option.bind (req_field as_bool ''enabled'' v) (\<lambda>e.
     Option.bind (opt_field as_i64 ''expires_at'' v) (\<lambda>x.
       Some \<lparr>uik_id = i, uik_display = d, uik_name = n, uik_created_at = c, uik_updated_at = m,
             uik_enabled = e, uik_expires_at = x\<rparr>)))))))"

text \<open>\<open>Vec<T>\<close>: an array, all of whose elements can be read.\<close>

fun decode_items :: "(json \<Rightarrow> 'a option) \<Rightarrow> json list \<Rightarrow> 'a list option" where
  "decode_items dec [] = Some []"
| "decode_items dec (v # vs) =
     Option.bind (dec v) (\<lambda>x. Option.bind (decode_items dec vs) (\<lambda>xs. Some (x # xs)))"

fun decode_vec :: "(json \<Rightarrow> 'a option) \<Rightarrow> json \<Rightarrow> 'a list option" where
  "decode_vec dec (Array vs) = decode_items dec vs"
| "decode_vec dec _ = None"

section \<open>The operations\<close>

definition create_provider_body :: "string \<Rightarrow> string \<Rightarrow> string \<Rightarrow> string option \<Rightarrow> bool \<Rightarrow> json" where
  "create_provider_body name ptype base_url api_key enabled = Object
     [(''api_key'', jopt String api_key), (''base_url'', String base_url), (''enabled'', Bool enabled),
      (''name'', String name), (''type'', String ptype)]"

definition create_provider_call ::
    "api_env \<Rightarrow> string \<Rightarrow> string \<Rightarrow> string \<Rightarrow> string option \<Rightarrow> bool \<Rightarrow> http_call" where
  "create_provider_call env name ptype base_url api_key enabled =
     api_post_call env ''api/providers'' (create_provider_body name ptype base_url api_key enabled)"

definition update_provider_call ::
    "api_env \<Rightarrow> string \<Rightarrow> string \<Rightarrow> string \<Rightarrow> string \<Rightarrow> string option \<Rightarrow> bool \<Rightarrow> http_call" where
  "update_provider_call env i name ptype base_url api_key enabled =
     api_put_call env (''api/providers/'' @ i) (Object
       [(''api_key'', jopt String api_key), (''base_url'', String base_url), (''enabled'', Bool enabled),
        (''name'', String name), (''type'', String ptype)])"

definition delete_provider_call :: "api_env \<Rightarrow> string \<Rightarrow> http_call" where
  "delete_provider_call env i = api_delete_call env (''api/providers/'' @ i)"

definition fetch_providers_call :: "api_env \<Rightarrow> http_call" where
  "fetch_providers_call env = api_get_call env ''api/providers''"

definition fetch_provider_types_call :: "api_env \<Rightarrow> http_call" where
  "fetch_provider_types_call env = api_get_call env ''api/provider-types''"

definition fetch_models_call :: "api_env \<Rightarrow> http_call" where
  "fetch_models_call env = api_get_call env ''api/models''"

definition create_model_call :: "api_env \<Rightarrow> string \<Rightarrow> string \<Rightarrow> string \<Rightarrow> bool \<Rightarrow> http_call" where
  "create_model_call env name provider upstream_name enabled =
     api_post_call env ''api/models'' (Object
       [(''enabled'', Bool enabled), (''name'', String name), (''provider_id'', String provider),
        (''upstream_model'', String upstream_name)])"

definition update_model_call :: "api_env \<Rightarrow> string \<Rightarrow> string \<Rightarrow> string \<Rightarrow> bool \<Rightarrow> http_call" where
  "update_model_call env name provider upstream_name enabled =
     api_put_call env (''api/models/'' @ name) (Object
       [(''enabled'', Bool enabled), (''provider_id'', String provider), (''upstream_model'', String upstream_name)])"

definition delete_model_call :: "api_env \<Rightarrow> string \<Rightarrow> http_call" where
  "delete_model_call env name = api_delete_call env (''api/models/'' @ name)"

definition fetch_api_keys_call :: "api_env \<Rightarrow> http_call" where
  "fetch_api_keys_call env = api_get_call env ''api/api-keys''"

definition create_api_key_call :: "api_env \<Rightarrow> string \<Rightarrow> int option \<Rightarrow> http_call" where
  "create_api_key_call env name expires_at =
     api_post_call env ''api/api-keys'' (Object [(''expires_at'', jopt jint expires_at), (''name'', String name)])"

text \<open>\<open>body[k] = v\<close> for a given value, on a body that is an object.\<close>

definition put_some :: "string \<Rightarrow> ('a \<Rightarrow> json) \<Rightarrow> 'a option \<Rightarrow> json \<Rightarrow> json" where
  "put_some k enc x body = (case x of None \<Rightarrow> body
     | Some a \<Rightarrow> (case index_assign k (enc a) body of Some b \<Rightarrow> b | None \<Rightarrow> body))"

definition update_api_key_body :: "string option \<Rightarrow> int option \<Rightarrow> bool option \<Rightarrow> json" where
  "update_api_key_body name expires_at enabled =
     put_some ''enabled'' Bool enabled (put_some ''expires_at'' jint expires_at (put_some ''name'' String name (Object [])))"

definition update_api_key_call ::
    "api_env \<Rightarrow> string \<Rightarrow> string option \<Rightarrow> int option \<Rightarrow> bool option \<Rightarrow> http_call" where
  "update_api_key_call env kid name expires_at enabled =
     api_put_call env (''api/api-keys/'' @ kid) (update_api_key_body name expires_at enabled)"

definition delete_api_key_call :: "api_env \<Rightarrow> string \<Rightarrow> http_call" where
  "delete_api_key_call env kid = api_delete_call env (''api/api-keys/'' @ kid)"

definition overview_stats_path :: "int \<Rightarrow> int \<Rightarrow> string" where
  "overview_stats_path start_ts end_ts =
     ''api/stats?start_ts='' @ show_int start_ts @ ''&end_ts='' @ show_int end_ts"

definition push_qs :: "api_env \<Rightarrow> string \<Rightarrow> string option \<Rightarrow> string list \<Rightarrow> string list" where
  "push_qs env key value parts = (case value of
     None \<Rightarrow> parts
   | Some s \<Rightarrow> parts @ [key @ ''='' @ (case ap_encode_uri env s of Some e \<Rightarrow> e | None \<Rightarrow> s)])"

record log_filter =
  lf_start_ts :: "int option"
  lf_end_ts :: "int option"
  lf_provider_name :: "string option"
  lf_model_name :: "string option"
  lf_api_key_name :: "string option"
  lf_client_ip :: "string option"
  lf_status :: "string option"
  lf_endpoint :: "string option"
  lf_is_streaming :: "bool option"

definition show_bool :: "bool \<Rightarrow> string" where
  "show_bool b = (if b then ''true'' else ''false'')"

definition proxy_logs_query :: "api_env \<Rightarrow> nat \<Rightarrow> nat \<Rightarrow> log_filter \<Rightarrow> string" where
  "proxy_logs_query env page per_page f =
     join_with ''&''
       (push_qs env ''is_streaming'' (map_option show_bool (lf_is_streaming f))
       (push_qs env ''endpoint'' (lf_endpoint f)
       (push_qs env ''status'' (lf_status f)
       (push_qs env ''client_ip'' (lf_client_ip f)
       (push_qs env ''api_key_name'' (lf_api_key_name f)
       (push_qs env ''model_name'' (lf_model_name f)
       (push_qs env ''provider_name'' (lf_provider_name f)
       (push_qs env ''end_ts'' (map_option show_int (lf_end_ts f))
       (push_qs env ''start_ts'' (map_option show_int (lf_start_ts f))
          [''page='' @ show_nat page, ''per_page='' @ show_nat per_page])))))))))"

definition fetch_proxy_logs_call :: "api_env \<Rightarrow> nat \<Rightarrow> nat \<Rightarrow> log_filter \<Rightarrow> http_call" where
  "fetch_proxy_logs_call env page per_page f =
     api_get_call env (''api/data/proxy-log?'' @ proxy_logs_query env page per_page f)"

end
