(* ===== verification/Client_Cache.thy ===== *)
theory Client_Cache
  imports Client_Api
begin

text \<open>
  The console's response cache over time: reads and writes of the console, answers of the server
  and changes made elsewhere, interleaved as a step relation. A read is cut where the code awaits:
  when its request is sent, when the server answers it, and when the answer is handled. The
  server's content is a function of a version that every change increases.
\<close>

section \<open>The cache\<close>

lemma cache_response_get:
  assumes "dm_get (cache_response path entry m) k = Some v"
  shows "(k = path \<and> v = entry) \<or> dm_get m k = Some v"
  using assms by (auto simp: cache_response_def Let_def dash_simps split: if_splits option.splits)

lemma cache_response_wf: "dm_wf m \<Longrightarrow> dm_wf (cache_response path entry m)"
  by (auto simp: cache_response_def Let_def split: option.split)

lemma cache_response_bound:
  assumes "dm_wf m" "length m \<le> max_cache_entries"
  shows "length (cache_response path entry m) \<le> max_cache_entries"
proof -
  let ?m = "dm_insert path entry m"
  have len: "length ?m \<le> Suc max_cache_entries" using assms(2) by (simp add: length_dm_insert)
  have drop_one: "length (dm_remove (fst kv) ?m) < length ?m" if kv: "kv \<in> set ?m" for kv
  proof -
    have "fst kv \<in> set (dm_keys ?m)" using kv by simp
    then have "Suc (length (dm_remove (fst kv) ?m)) = length ?m"
      by (rule length_dm_remove [OF dm_wf_ops(2) [OF assms(1)]])
    then show ?thesis by simp
  qed
  show ?thesis
  proof (cases "min_by_key (\<lambda>(k, v). cr_cached_at v) ?m")
    case None
    then have "?m = []" by (simp only: min_by_key_None)
    then show ?thesis unfolding cache_response_def Let_def by (simp only: list.size) simp
  next
    case (Some kv)
    then have "kv \<in> set ?m" by (rule min_by_key_Some [THEN conjunct1])
    then have "length (dm_remove (fst kv) ?m) < length ?m" by (rule drop_one)
    with len Some show ?thesis unfolding cache_response_def Let_def by (cases kv) simp
  qed
qed

interpretation fetch_cache: bounded_cache cache_response max_cache_entries
  by unfold_locales (auto intro: cache_response_wf cache_response_bound dest: cache_response_get)

text \<open>What the calls do to the cache: the steps of the runs below are these.\<close>

lemma api_cache_effects:
  "cl_cache (snd (api_post env dec (Inr (status, body)) s)) = (if resp_ok status \<or> status = 401 then [] else cl_cache s)"
  "cl_cache (snd (api_put env dec (Inr (status, body)) s)) = (if resp_ok status \<or> status = 401 then [] else cl_cache s)"
  "cl_cache (snd (api_delete env (Inr (status, body)) s)) = (if resp_ok status \<or> status = 401 then [] else cl_cache s)"
  "resp_ok status \<Longrightarrow> decode_text env dec text = Inr x \<Longrightarrow>
     cl_cache (snd (api_get_cached_done env dec path (Inr (status, Inr text)) s))
       = cache_response path \<lparr>cr_json = text, cr_cached_at = ap_now env\<rparr> (cl_cache s)"
  by (auto simp: api_post_def api_put_def api_delete_def api_get_cached_done_def handle_401_def clear_cache_def
      resp_ok_def Let_def)

section \<open>Runs\<close>

text \<open>A read in flight: its path, and the text and version of its answer once there is one.\<close>

record flight =
  fl_path :: string
  fl_answer :: "(string \<times> nat) option"

record console_run =
  cr_cache :: response_cache
  cr_now :: nat
  cr_version :: nat
  cr_acked :: nat
  cr_writes :: "nat option list"
  cr_flights :: "flight list"

text \<open>
  The steps: time passes; another client changes the server; a read misses the cache and is sent,
  is answered, fails, or completes; an answer of 401 clears the cache; a write is sent (\<open>None\<close>), is applied (the version it made), and
  its success is seen. \<open>quiet\<close> restricts the last step to times at which no answered read is
  waiting to be handled. \<open>cr_acked\<close> is the newest version whose success the console has seen.
\<close>

inductive console_step :: "bool \<Rightarrow> (nat \<Rightarrow> string \<Rightarrow> string) \<Rightarrow> console_run \<Rightarrow> console_run \<Rightarrow> bool"
  for quiet content where
  c_pass: "now \<ge> cr_now s \<Longrightarrow> console_step quiet content s (s\<lparr>cr_now := now\<rparr>)"
| c_other: "console_step quiet content s (s\<lparr>cr_version := cr_version s + 1\<rparr>)"
| c_send: "console_step quiet content s (s\<lparr>cr_flights := cr_flights s @ [\<lparr>fl_path = p, fl_answer = None\<rparr>]\<rparr>)"
| c_answer: "i < length (cr_flights s) \<Longrightarrow> fl_answer (cr_flights s ! i) = None \<Longrightarrow>
    console_step quiet content s
      (s\<lparr>cr_flights := (cr_flights s)[i := (cr_flights s ! i)
          \<lparr>fl_answer := Some (content (cr_version s) (fl_path (cr_flights s ! i)), cr_version s)\<rparr>]\<rparr>)"
| c_lose: "console_step quiet content s (s\<lparr>cr_flights := take i (cr_flights s) @ drop (Suc i) (cr_flights s)\<rparr>)"
| c_complete: "i < length (cr_flights s) \<Longrightarrow> fl_answer (cr_flights s ! i) = Some (text, v) \<Longrightarrow>
    console_step quiet content s
      (s\<lparr>cr_cache := cache_response (fl_path (cr_flights s ! i)) \<lparr>cr_json = text, cr_cached_at = cr_now s\<rparr> (cr_cache s),
         cr_flights := take i (cr_flights s) @ drop (Suc i) (cr_flights s)\<rparr>)"
| c_clear: "console_step quiet content s (s\<lparr>cr_cache := []\<rparr>)"
| c_write: "console_step quiet content s (s\<lparr>cr_writes := cr_writes s @ [None]\<rparr>)"
| c_apply_write: "i < length (cr_writes s) \<Longrightarrow> cr_writes s ! i = None \<Longrightarrow>
    console_step quiet content s
      (s\<lparr>cr_version := cr_version s + 1, cr_writes := (cr_writes s)[i := Some (cr_version s + 1)]\<rparr>)"
| c_acknowledge: "i < length (cr_writes s) \<Longrightarrow> cr_writes s ! i = Some v \<Longrightarrow>
    (quiet \<Longrightarrow> \<forall>f \<in> set (cr_flights s). fl_answer f = None) \<Longrightarrow>
    console_step quiet content s
      (s\<lparr>cr_cache := [], cr_acked := max (cr_acked s) v,
         cr_writes := take i (cr_writes s) @ drop (Suc i) (cr_writes s)\<rparr>)"

definition run_start :: "nat \<Rightarrow> console_run" where
  "run_start now = \<lparr>cr_cache = [], cr_now = now, cr_version = 0, cr_acked = 0, cr_writes = [], cr_flights = []\<rparr>"

definition console_reach :: "bool \<Rightarrow> (nat \<Rightarrow> string \<Rightarrow> string) \<Rightarrow> console_run \<Rightarrow> bool" where
  "console_reach quiet content s \<longleftrightarrow> (\<exists>now. (console_step quiet content)\<^sup>*\<^sup>* (run_start now) s)"

definition current_text :: "(nat \<Rightarrow> string \<Rightarrow> string) \<Rightarrow> console_run \<Rightarrow> string \<Rightarrow> string \<Rightarrow> bool" where
  "current_text content s path text \<longleftrightarrow> (\<exists>v. cr_acked s \<le> v \<and> v \<le> cr_version s \<and> text = content v path)"

definition flight_ok :: "(nat \<Rightarrow> string \<Rightarrow> string) \<Rightarrow> console_run \<Rightarrow> flight \<Rightarrow> bool" where
  "flight_ok content s f \<longleftrightarrow> (case fl_answer f of None \<Rightarrow> True
     | Some (text, v) \<Rightarrow> cr_acked s \<le> v \<and> v \<le> cr_version s \<and> text = content v (fl_path f))"

definition run_ok :: "(nat \<Rightarrow> string \<Rightarrow> string) \<Rightarrow> console_run \<Rightarrow> bool" where
  "run_ok content s \<longleftrightarrow> dm_wf (cr_cache s) \<and> length (cr_cache s) \<le> max_cache_entries
     \<and> cr_acked s \<le> cr_version s
     \<and> (\<forall>v. Some v \<in> set (cr_writes s) \<longrightarrow> v \<le> cr_version s)
     \<and> (\<forall>k e. dm_get (cr_cache s) k = Some e \<longrightarrow> cr_cached_at e \<le> cr_now s \<and> current_text content s k (cr_json e))
     \<and> (\<forall>f \<in> set (cr_flights s). flight_ok content s f)"

lemma set_take_drop: "x \<in> set (take i xs @ drop j xs) \<Longrightarrow> x \<in> set xs"
  by (auto dest: in_set_takeD in_set_dropD)

lemma flight_ok_later:
  "flight_ok content s f \<Longrightarrow> cr_acked s' = cr_acked s \<Longrightarrow> cr_version s \<le> cr_version s' \<Longrightarrow> flight_ok content s' f"
  by (auto simp: flight_ok_def split: option.splits)

lemma current_later:
  "current_text content s k j \<Longrightarrow> cr_acked s' = cr_acked s \<Longrightarrow> cr_version s \<le> cr_version s' \<Longrightarrow> current_text content s' k j"
  unfolding current_text_def using le_trans by metis

text \<open>Every step that acknowledges nothing and leaves the cache alone.\<close>

lemma run_ok_frame:
  assumes "run_ok content s" "cr_cache s' = cr_cache s" "cr_acked s' = cr_acked s"
    and "cr_version s \<le> cr_version s'" "cr_now s \<le> cr_now s'"
    and "\<And>v. Some v \<in> set (cr_writes s') \<Longrightarrow> Some v \<in> set (cr_writes s) \<or> v \<le> cr_version s'"
    and "\<And>f. f \<in> set (cr_flights s') \<Longrightarrow> f \<in> set (cr_flights s) \<or> flight_ok content s' f"
  shows "run_ok content s'"
  unfolding run_ok_def
proof (intro conjI allI impI ballI)
  show "dm_wf (cr_cache s')" "length (cr_cache s') \<le> max_cache_entries" "cr_acked s' \<le> cr_version s'"
    using assms(1-4) by (auto simp: run_ok_def)
  show "v \<le> cr_version s'" if "Some v \<in> set (cr_writes s')" for v
    using assms(6) [OF that] assms(1,4) by (auto simp: run_ok_def)
  show "cr_cached_at e \<le> cr_now s'" "current_text content s' k (cr_json e)" if e: "dm_get (cr_cache s') k = Some e" for k e
  proof -
    have "cr_cached_at e \<le> cr_now s" "current_text content s k (cr_json e)"
      using e assms(1) unfolding assms(2) run_ok_def by auto
    then show "cr_cached_at e \<le> cr_now s'" "current_text content s' k (cr_json e)"
      using assms(5) current_later [OF _ assms(3,4)] by auto
  qed
  show "flight_ok content s' f" if "f \<in> set (cr_flights s')" for f
    using assms(7) [OF that] assms(1) flight_ok_later [OF _ assms(3,4)] by (auto simp: run_ok_def)
qed

lemma run_ok_step:
  assumes "console_step True content s s'" "run_ok content s"
  shows "run_ok content s'"
  using assms(1)
proof (cases rule: console_step.cases)
  case (c_answer i)
  then show ?thesis
    by (intro run_ok_frame [OF assms(2)]) (auto simp: set_update_distinct flight_ok_def assms(2) [unfolded run_ok_def]
        dest: set_update_subset_insert [THEN subsetD])
next
  case (c_lose i)
  then show ?thesis by (intro run_ok_frame [OF assms(2)]) (auto dest: in_set_takeD in_set_dropD)
next
  case (c_complete i j v)
  let ?f = "cr_flights s ! i"
  have f: "flight_ok content s ?f" using assms(2) c_complete(2) by (simp add: run_ok_def)
  have wf: "dm_wf (cr_cache s)" "length (cr_cache s) \<le> max_cache_entries" using assms(2) by (auto simp: run_ok_def)
  have new: "cr_cached_at \<lparr>cr_json = j, cr_cached_at = cr_now s\<rparr> \<le> cr_now s
      \<and> current_text content s (fl_path ?f) (cr_json \<lparr>cr_json = j, cr_cached_at = cr_now s\<rparr>)"
    using f c_complete(3) by (auto simp: flight_ok_def current_text_def)
  have entries: "cr_cached_at e \<le> cr_now s \<and> current_text content s k (cr_json e)"
    if "dm_get (cache_response (fl_path ?f) \<lparr>cr_json = j, cr_cached_at = cr_now s\<rparr> (cr_cache s)) k = Some e" for k e
    using fetch_cache.put_coherent [OF wf(1), where P = "\<lambda>k e. cr_cached_at e \<le> cr_now s \<and> current_text content s k (cr_json e)",
        OF _ new that] assms(2) by (auto simp: run_ok_def)
  have same: "current_text content s' k x \<longleftrightarrow> current_text content s k x" "flight_ok content s' f \<longleftrightarrow> flight_ok content s f"
    for k x f unfolding c_complete by (simp_all add: current_text_def flight_ok_def split: option.split)
  show ?thesis
    unfolding run_ok_def same
    using entries assms(2) fetch_cache.put_wf [OF wf(1)] fetch_cache.put_bound [OF wf]
    unfolding c_complete by (auto simp: run_ok_def dest: in_set_takeD in_set_dropD)
next
  case c_clear
  then show ?thesis
    using assms(2) by (auto simp: run_ok_def dash_simps flight_ok_def split: option.splits)
next
  case (c_acknowledge i v)
  have "v \<le> cr_version s" using assms(2) nth_mem [OF c_acknowledge(2)] c_acknowledge(3) by (simp add: run_ok_def)
  then show ?thesis
    using assms(2) c_acknowledge(4) unfolding c_acknowledge(1)
    by (auto simp: run_ok_def dash_simps flight_ok_def dest: in_set_takeD in_set_dropD)
qed (intro run_ok_frame [OF assms(2)]; auto simp: flight_ok_def set_update_subset_insert
      dest: set_update_subset_insert [THEN subsetD])+


lemma run_ok_reach:
  assumes "console_reach True content s"
  shows "run_ok content s"
proof -
  have start: "run_ok content (run_start now)" for now
    by (simp add: run_ok_def run_start_def dash_simps)
  have "(console_step True content)\<^sup>*\<^sup>* s0 s \<Longrightarrow> run_ok content s0 \<Longrightarrow> run_ok content s" for s0
    by (induction rule: rtranclp_induct) (auto intro: run_ok_step)
  with assms start show ?thesis by (auto simp: console_reach_def)
qed

section \<open>Properties\<close>

text \<open>
  C20: What the console shows from its cache is current, as long as no write succeeds while a read
  that is already answered waits to be handled. However reads, writes, failures, changes made
  elsewhere and the clock interleave, the cache then holds at most five answers, and an answer it
  gives is less than two minutes old, was asked for without force, and is what the server held at
  some version no older than the newest write whose success the console has seen.
\<close>

theorem cached_answer_current:
  assumes "console_reach True content s" and "cl_cache c = cr_cache s"
    and "cached_json (cr_now s) path force c = Some text"
  shows "\<not> force \<and> length (cl_cache c) \<le> 5
    \<and> (\<exists>v. cr_acked s \<le> v \<and> v \<le> cr_version s \<and> text = content v path)
    \<and> (\<exists>e. dm_get (cl_cache c) path = Some e \<and> cr_json e = text \<and> cr_cached_at e \<le> cr_now s
         \<and> cr_now s - cr_cached_at e < 120000)"
proof -
  have ok: "run_ok content s" by (rule run_ok_reach [OF assms(1)])
  obtain e where e: "\<not> force" "dm_get (cr_cache s) path = Some e" "cr_json e = text"
      "int (cr_now s) - int (cr_cached_at e) < 120000"
    using assms(2,3) by (auto simp: cached_json_def cache_ttl_ms_def bind_eq_Some_conv split: if_splits)
  moreover from this ok have "cr_cached_at e \<le> cr_now s" "current_text content s path text"
    by (auto simp: run_ok_def)
  ultimately show ?thesis
    using ok unfolding assms(2) by (auto simp: run_ok_def max_cache_entries_def current_text_def)
qed

text \<open>
  A read that overtakes a write leaves the cache stale. Whatever the server's content, there is
  a run in which a read is answered, a write is then applied and its success seen, which clears the
  cache, and only then the old answer is handled and cached: the console, which has seen the write
  succeed and has nothing in flight, goes on showing what the server held before it.
\<close>

theorem stale_read_race:
  "\<exists>s. console_reach False content s \<and> cr_acked s = 1 \<and> cr_version s = 1 \<and> cr_writes s = [] \<and> cr_flights s = []
     \<and> cached_json (cr_now s) path False \<lparr>cl_cache = cr_cache s, cl_toasts = t, cl_i18n = l\<rparr> = Some (content 0 path)"
proof -
  let ?S = "\<lambda>cache ver acked writes flights. \<lparr>cr_cache = cache, cr_now = 0, cr_version = ver, cr_acked = acked,
      cr_writes = writes, cr_flights = flights\<rparr>"
  let ?f = "\<lparr>fl_path = path, fl_answer = Some (content 0 path, 0)\<rparr>"
  let ?e = "\<lparr>cr_json = content 0 path, cr_cached_at = 0\<rparr>"
  let ?step = "console_step False content"
  have s1: "?step (run_start 0) (?S [] 0 0 [] [\<lparr>fl_path = path, fl_answer = None\<rparr>])"
    using c_send [of False content "run_start 0" path] by (simp add: run_start_def)
  have s2: "?step (?S [] 0 0 [] [\<lparr>fl_path = path, fl_answer = None\<rparr>]) (?S [] 0 0 [] [?f])"
    using c_answer [of 0 "?S [] 0 0 [] [\<lparr>fl_path = path, fl_answer = None\<rparr>]" False content] by simp
  have s3: "?step (?S [] 0 0 [] [?f]) (?S [] 0 0 [None] [?f])"
    using c_write [of False content "?S [] 0 0 [] [?f]"] by simp
  have s4: "?step (?S [] 0 0 [None] [?f]) (?S [] 1 0 [Some 1] [?f])"
    using c_apply_write [of 0 "?S [] 0 0 [None] [?f]" False content] by simp
  have s5: "?step (?S [] 1 0 [Some 1] [?f]) (?S [] 1 1 [] [?f])"
    using c_acknowledge [of 0 "?S [] 1 0 [Some 1] [?f]" 1 False content] by simp
  have s6: "?step (?S [] 1 1 [] [?f]) (?S (cache_response path ?e []) 1 1 [] [])"
    using c_complete [of 0 "?S [] 1 1 [] [?f]" "content 0 path" 0 False content] by simp
  have "?step\<^sup>*\<^sup>* (run_start 0) (?S (cache_response path ?e []) 1 1 [] [])"
    by (rule converse_rtranclp_into_rtranclp [OF s1 converse_rtranclp_into_rtranclp [OF s2
        converse_rtranclp_into_rtranclp [OF s3 converse_rtranclp_into_rtranclp [OF s4
        converse_rtranclp_into_rtranclp [OF s5 r_into_rtranclp [of ?step, OF s6]]]]]])
  then show ?thesis
    by (intro exI [of _ "?S (cache_response path ?e []) 1 1 [] []"])
      (auto simp: console_reach_def cached_json_def cache_response_def max_cache_entries_def cache_ttl_ms_def
        dash_simps length_dm_insert)
qed

section \<open>Witness\<close>

theorem cached_answer_current_witness:
  "cached_json 0 ''p'' False \<lparr>cl_cache = cache_response ''p'' \<lparr>cr_json = ''0'', cr_cached_at = 0\<rparr> [],
     cl_toasts = \<lparr>next_toast_id = 0, toasts = [], toast_tasks = []\<rparr>, cl_i18n = i18n_new (\<lambda>_. []) ''en''\<rparr> = Some ''0''
   \<and> (\<exists>v \<le> 0. ''0'' = show_nat v)"
proof -
  let ?content = "\<lambda>v (p :: string). show_nat v"
  let ?S = "\<lambda>cache flights. \<lparr>cr_cache = cache, cr_now = 0, cr_version = 0, cr_acked = 0,
      cr_writes = [], cr_flights = flights\<rparr>"
  let ?f = "\<lparr>fl_path = ''p'', fl_answer = Some (''0'', 0)\<rparr>" and ?step = "console_step True ?content"
  let ?m = "cache_response ''p'' \<lparr>cr_json = ''0'', cr_cached_at = 0\<rparr> []"
  let ?c = "\<lparr>cl_cache = ?m, cl_toasts = \<lparr>next_toast_id = 0, toasts = [], toast_tasks = []\<rparr>,
      cl_i18n = i18n_new (\<lambda>_. []) ''en''\<rparr>"
  have zero: "show_nat 0 = ''0''" by code_simp
  have s1: "?step (run_start 0) (?S [] [\<lparr>fl_path = ''p'', fl_answer = None\<rparr>])"
    using c_send [of True ?content "run_start 0" "''p''"] by (simp add: run_start_def)
  have s2: "?step (?S [] [\<lparr>fl_path = ''p'', fl_answer = None\<rparr>]) (?S [] [?f])"
    using c_answer [of 0 "?S [] [\<lparr>fl_path = ''p'', fl_answer = None\<rparr>]" True ?content] by (simp add: zero)
  have s3: "?step (?S [] [?f]) (?S ?m [])"
    using c_complete [of 0 "?S [] [?f]" "''0''" 0 True ?content] by simp
  have "?step\<^sup>*\<^sup>* (run_start 0) (?S ?m [])"
    by (rule converse_rtranclp_into_rtranclp [OF s1 converse_rtranclp_into_rtranclp [OF s2
        r_into_rtranclp [of ?step, OF s3]]])
  then have reach: "console_reach True ?content (?S ?m [])" by (auto simp: console_reach_def)
  have hit: "cached_json 0 ''p'' False ?c = Some ''0''" by code_simp
  show ?thesis
    using cached_answer_current [OF reach, of ?c "''p''" False "''0''"] hit by simp
qed

end
