(* ===== verification/Client_Time.thy ===== *)
theory Client_Time
  imports Console "HOL-Library.Signed_Division"
begin

text \<open>
  The dates of the web console (\<open>src/frontend/src/time_utils.rs\<close>) and its daily charts
  (\<open>pages/overview.rs\<close>). What \<open>js_sys::Date\<close> does depends on the browser's time zone, so it is
  the argument \<open>js_env\<close>: the local calendar fields of an instant and the instant of a local
  calendar date, both in milliseconds, and the seconds its clock shows. A \<open>Date\<close> is its time value, \<open>None\<close> for \<open>NaN\<close>. The fields
  pass through the integer types of the bindings as they do in the source.
\<close>

section \<open>The Date object\<close>

record date_fields =
  df_year :: int
  df_month :: int
  df_date :: int
  df_hours :: int
  df_minutes :: int

record js_env =
  js_local :: "int \<Rightarrow> date_fields"
  js_make :: "int \<Rightarrow> int \<Rightarrow> int \<Rightarrow> int \<Rightarrow> int \<Rightarrow> int option"
  js_seconds :: "int \<Rightarrow> int"

type_synonym date = "int option"

definition as_u32 :: "int \<Rightarrow> int" where
  "as_u32 x = x mod 2 ^ 32"

definition as_i32 :: "int \<Rightarrow> int" where
  "as_i32 x = (let u = x mod 2 ^ 32 in if u < 2 ^ 31 then u else u - 2 ^ 32)"

text \<open>\<open>Date::new\<close> of a number of seconds: \<open>NaN\<close> beyond 8.64e15 milliseconds.\<close>

definition date_of_secs :: "int \<Rightarrow> date" where
  "date_of_secs t = (if \<bar>t * 1000\<bar> \<le> 8640000000000000 then Some (t * 1000) else None)"

text \<open>\<open>(get_time() / 1000.0) as i64\<close>: rounded towards zero, 0 for \<open>NaN\<close>.\<close>

definition secs_of :: "date \<Rightarrow> int" where
  "secs_of dt = (case dt of None \<Rightarrow> 0 | Some ms \<Rightarrow> ms sdiv 1000)"

text \<open>A getter of the binding: a \<open>u32\<close>, 0 for \<open>NaN\<close>.\<close>

definition date_get :: "js_env \<Rightarrow> (date_fields \<Rightarrow> int) \<Rightarrow> date \<Rightarrow> int" where
  "date_get J field dt = (case dt of None \<Rightarrow> 0 | Some ms \<Rightarrow> as_u32 (field (js_local J ms)))"

text \<open>\<open>new_with_year_month_day\<close> of the day of \<open>dt\<close>, \<open>k\<close> days on.\<close>

definition local_day :: "js_env \<Rightarrow> int \<Rightarrow> date \<Rightarrow> date" where
  "local_day J k dt =
     js_make J (date_get J df_year dt) (as_i32 (date_get J df_month dt)) (as_i32 (date_get J df_date dt) + k) 0 0"

section \<open>Timestamps and dates as text\<close>

definition now_timestamp :: "int \<Rightarrow> int" where
  "now_timestamp now_ms = secs_of (Some now_ms)"

definition midnight_ts :: "js_env \<Rightarrow> int \<Rightarrow> int" where
  "midnight_ts J t = secs_of (local_day J 0 (date_of_secs t))"

definition clamp_range :: "int \<Rightarrow> int \<Rightarrow> int \<Rightarrow> int \<times> int" where
  "clamp_range start end0 now =
     (let end1 = (if end0 > now + 3600 then now + 3600 else end0)
      in if start \<ge> end1 then (end1 - 86400, end1) else (start, end1))"

text \<open>\<open>str::parse::<i32>\<close>\<close>

definition parse_i32 :: "string \<Rightarrow> int option" where
  "parse_i32 s =
     (case s of
        c # r \<Rightarrow>
          (if c = CHR ''-'' then
             (if r = [] \<or> \<not> list_all is_digit r \<or> 2 ^ 31 < digits_val 10 0 r then None
              else Some (- int (digits_val 10 0 r)))
           else map_option int (parse_uint (2 ^ 31 - 1) s))
      | [] \<Rightarrow> None)"

definition nth_i32_or_0 :: "string list \<Rightarrow> nat \<Rightarrow> int" where
  "nth_i32_or_0 parts i =
     (if i < length parts then (case parse_i32 (parts ! i) of Some v \<Rightarrow> v | None \<Rightarrow> 0) else 0)"

definition date_str_to_ts :: "js_env \<Rightarrow> string \<Rightarrow> int option" where
  "date_str_to_ts J s =
     (let (date_part, time_part) =
        (case split_once (CHR ''T'') s of Some (a, b) \<Rightarrow> (a, Some b) | None \<Rightarrow> (s, None));
          parts = split_on (CHR ''-'') date_part
      in if length parts \<noteq> 3 then None
         else Option.bind (parse_i32 (parts ! 0)) (\<lambda>y.
              Option.bind (parse_i32 (parts ! 1)) (\<lambda>m.
              Option.bind (parse_i32 (parts ! 2)) (\<lambda>d.
                (let month = m - 1;
                     (h, min) = (case time_part of
                        Some t \<Rightarrow> (let hm = split_on (CHR '':'') t in (nth_i32_or_0 hm 0, nth_i32_or_0 hm 1))
                      | None \<Rightarrow> (0, 0));
                     date = js_make J (as_u32 y) month d h min
                 in if as_i32 (date_get J df_year date) \<noteq> y \<or> as_i32 (date_get J df_month date) \<noteq> month
                       \<or> as_i32 (date_get J df_date date) \<noteq> d
                       \<or> (time_part \<noteq> None \<and> (as_i32 (date_get J df_hours date) \<noteq> h
                            \<or> as_i32 (date_get J df_minutes date) \<noteq> min)) then None
                    else if date = None then None else Some (secs_of date))))))"

text \<open>\<open>{:0k}\<close> of a non-negative number.\<close>

definition zero_pad :: "nat \<Rightarrow> int \<Rightarrow> string" where
  "zero_pad k n = (let s = show_nat (nat n) in replicate (k - length s) (CHR ''0'') @ s)"

definition ts_to_date_str :: "js_env \<Rightarrow> int \<Rightarrow> string" where
  "ts_to_date_str J t =
     (let date = date_of_secs t
      in zero_pad 4 (date_get J df_year date) @ ''-'' @ zero_pad 2 (date_get J df_month date + 1) @ ''-''
         @ zero_pad 2 (date_get J df_date date))"

definition ts_to_datetime_str :: "js_env \<Rightarrow> int \<Rightarrow> string" where
  "ts_to_datetime_str J t =
     (let d = date_of_secs t
      in zero_pad 4 (date_get J df_year d) @ ''-'' @ zero_pad 2 (date_get J df_month d + 1) @ ''-''
         @ zero_pad 2 (date_get J df_date d) @ ''T'' @ zero_pad 2 (date_get J df_hours d) @ '':''
         @ zero_pad 2 (date_get J df_minutes d))"

section \<open>Daily charts\<close>

text \<open>A step of the loop of \<open>aggregate_daily\<close>; counts are \<open>u64\<close>, whose addition wraps.\<close>

definition aggregate_step :: "js_env \<Rightarrow> bucket_entry list \<Rightarrow> bucket_entry \<Rightarrow> bucket_entry list" where
  "aggregate_step J daily b =
     (let day_ts = secs_of (local_day J 0 (date_of_secs (be_timestamp b)))
      in if daily \<noteq> [] \<and> \<bar>be_timestamp (last daily) - day_ts\<bar> < 1
         then butlast daily @ [(last daily)\<lparr>be_count := as_u64 (be_count (last daily) + be_count b)\<rparr>]
         else daily @ [\<lparr>be_timestamp = day_ts, be_count = be_count b\<rparr>])"

definition aggregate_daily :: "js_env \<Rightarrow> bucket_entry list \<Rightarrow> bucket_entry list" where
  "aggregate_daily J buckets = foldl (aggregate_step J) [] buckets"

definition next_local_midnight :: "js_env \<Rightarrow> int \<Rightarrow> int" where
  "next_local_midnight J cur = secs_of (local_day J 1 (date_of_secs cur))"

definition max_filled_days :: nat where
  "max_filled_days = 1000"

text \<open>The loop of \<open>fill_daily_range\<close>; \<open>None\<close> when it never ends.\<close>

partial_function (option) fill_loop ::
    "js_env \<Rightarrow> bucket_entry list \<Rightarrow> int \<Rightarrow> nat \<Rightarrow> int \<Rightarrow> bucket_entry list \<Rightarrow> bucket_entry list option" where
  "fill_loop J daily end_day_ts i cur res =
     (if cur \<le> end_day_ts then
        (if i < length daily \<and> \<bar>be_timestamp (daily ! i) - cur\<bar> < 1
         then fill_loop J daily end_day_ts (i + 1) (next_local_midnight J cur) (res @ [daily ! i])
         else fill_loop J daily end_day_ts i (next_local_midnight J cur)
                (res @ [\<lparr>be_timestamp = cur, be_count = 0\<rparr>]))
      else Some res)"

definition fill_daily_range ::
    "js_env \<Rightarrow> bucket_entry list \<Rightarrow> int \<Rightarrow> int \<Rightarrow> bucket_entry list option" where
  "fill_daily_range J daily start_ts end_ts =
     (let start_day_ts = secs_of (local_day J 0 (date_of_secs start_ts));
          end_day_ts = secs_of (local_day J 0 (date_of_secs end_ts));
          span_days = nat (max ((end_day_ts - start_day_ts) sdiv 86400) 0) + 1
      in if span_days > max_filled_days then Some daily
         else fill_loop J daily end_day_ts 0 start_day_ts [])"

text \<open>The memos \<open>daily_requests\<close> and \<open>daily_tokens\<close>: a chart of the buckets of an answer.\<close>

definition daily_chart :: "js_env \<Rightarrow> bucket_entry list \<Rightarrow> int \<Rightarrow> int \<Rightarrow> bucket_entry list option" where
  "daily_chart J buckets range_start range_end =
     fill_daily_range J (aggregate_daily J buckets) range_start range_end"


section \<open>Facts\<close>

text \<open>
  What the charts and the date fields rely on between two instants (in seconds): each local day
  is an interval of whole seconds, the constructor gives its first instant for its date and for
  the date before plus one, and the local time an instant shows is the time of some instant. It
  holds in every zone whose clock changes do not step back across a midnight.
\<close>

definition day_bounds :: "js_env \<Rightarrow> int \<Rightarrow> int \<Rightarrow> int \<Rightarrow> bool" where
  "day_bounds J t a b \<longleftrightarrow>
     (let f = js_local J (t * 1000)
      in js_make J (df_year f) (df_month f) (df_date f) 0 0 = Some (a * 1000)
         \<and> js_make J (df_year f) (df_month f) (df_date f + 1) 0 0 = Some (b * 1000)
         \<and> a \<le> t \<and> t < b \<and> \<bar>a * 1000\<bar> \<le> 8640000000000000 \<and> \<bar>b * 1000\<bar> \<le> 8640000000000000
         \<and> (\<forall>u. a \<le> u \<and> u < b \<longrightarrow>
              (let g = js_local J (u * 1000)
               in df_year g = df_year f \<and> df_month g = df_month f \<and> df_date g = df_date f)))"

definition fields_ok :: "js_env \<Rightarrow> int \<Rightarrow> bool" where
  "fields_ok J t \<longleftrightarrow>
     (let f = js_local J (t * 1000)
      in 100 \<le> df_year f \<and> df_year f < 2 ^ 31 \<and> 0 \<le> df_month f \<and> df_month f < 12
         \<and> 1 \<le> df_date f \<and> df_date f \<le> 31 \<and> 0 \<le> df_hours f \<and> df_hours f < 24
         \<and> 0 \<le> df_minutes f \<and> df_minutes f < 60
         \<and> (\<exists>w. js_make J (df_year f) (df_month f) (df_date f) (df_hours f) (df_minutes f) = Some (w * 1000)
              \<and> \<bar>w * 1000\<bar> \<le> 8640000000000000 \<and> js_local J (w * 1000) = f))"

definition calendar_law :: "js_env \<Rightarrow> int \<Rightarrow> int \<Rightarrow> bool" where
  "calendar_law J lo hi \<longleftrightarrow> (\<forall>t. lo \<le> t \<and> t \<le> hi \<longrightarrow> fields_ok J t \<and> (\<exists>a b. day_bounds J t a b))"

lemma as_u32_id: "0 \<le> x \<Longrightarrow> x < 2 ^ 32 \<Longrightarrow> as_u32 x = x"
  by (simp add: as_u32_def)

lemma as_i32_id: "0 \<le> x \<Longrightarrow> x < 2 ^ 31 \<Longrightarrow> as_i32 x = x"
  by (simp add: as_i32_def Let_def)

lemma secs_of_whole [simp]: "secs_of (Some (a * 1000)) = a"
  by (simp add: secs_of_def signed_divide_int_def sgn_if abs_mult)

lemma date_get_secs:
  assumes "\<bar>t * 1000\<bar> \<le> 8640000000000000" "0 \<le> field (js_local J (t * 1000))"
    "field (js_local J (t * 1000)) < 2 ^ 31"
  shows "date_get J field (date_of_secs t) = field (js_local J (t * 1000))"
  using assms by (simp add: date_get_def date_of_secs_def as_u32_id)

lemma local_day_secs:
  assumes "fields_ok J t" "day_bounds J t a b" "a \<le> u" "u < b"
  shows "secs_of (local_day J 0 (date_of_secs u)) = a" "secs_of (local_day J 1 (date_of_secs u)) = b"
proof -
  have "\<bar>a * 1000\<bar> \<le> 8640000000000000" "\<bar>b * 1000\<bar> \<le> 8640000000000000"
    using assms(2) unfolding day_bounds_def Let_def by blast+
  then have u: "\<bar>u * 1000\<bar> \<le> 8640000000000000" using assms(3,4) by linarith
  have f: "df_year (js_local J (u * 1000)) = df_year (js_local J (t * 1000))"
      "df_month (js_local J (u * 1000)) = df_month (js_local J (t * 1000))"
      "df_date (js_local J (u * 1000)) = df_date (js_local J (t * 1000))"
    using assms(2-4) unfolding day_bounds_def Let_def by blast+
  have r: "100 \<le> df_year (js_local J (t * 1000))" "df_year (js_local J (t * 1000)) < 2 ^ 31"
      "0 \<le> df_month (js_local J (t * 1000))" "df_month (js_local J (t * 1000)) < 2 ^ 31"
      "0 \<le> df_date (js_local J (t * 1000))" "df_date (js_local J (t * 1000)) < 2 ^ 31"
    using assms(1) by (auto simp: fields_ok_def Let_def)
  have mk: "js_make J (df_year (js_local J (t * 1000))) (df_month (js_local J (t * 1000)))
        (df_date (js_local J (t * 1000))) 0 0 = Some (a * 1000)"
      "js_make J (df_year (js_local J (t * 1000))) (df_month (js_local J (t * 1000)))
        (df_date (js_local J (t * 1000)) + 1) 0 0 = Some (b * 1000)"
    using assms(2) unfolding day_bounds_def Let_def by blast+
  have g: "date_get J df_year (date_of_secs u) = df_year (js_local J (t * 1000))"
      "date_get J df_month (date_of_secs u) = df_month (js_local J (t * 1000))"
      "date_get J df_date (date_of_secs u) = df_date (js_local J (t * 1000))"
    using r by (simp_all add: date_get_secs [OF u] f)
  show "secs_of (local_day J 0 (date_of_secs u)) = a" "secs_of (local_day J 1 (date_of_secs u)) = b"
    using r mk by (simp_all add: local_day_def g as_i32_id)
qed

lemma day_facts:
  assumes "calendar_law J lo hi" "lo \<le> t" "t \<le> hi"
  shows "midnight_ts J t \<le> t" "t < next_local_midnight J t"
    "midnight_ts J t \<le> u \<Longrightarrow> u < next_local_midnight J t \<Longrightarrow> midnight_ts J u = midnight_ts J t"
    "midnight_ts J t \<le> u \<Longrightarrow> u < next_local_midnight J t \<Longrightarrow> next_local_midnight J u = next_local_midnight J t"
proof -
  obtain a b where ab: "fields_ok J t" "day_bounds J t a b"
    using assms by (auto simp: calendar_law_def)
  then have in_day: "a \<le> t" "t < b" by (auto simp: day_bounds_def Let_def)
  have m: "midnight_ts J u = a" "next_local_midnight J u = b" if "a \<le> u" "u < b" for u
    using local_day_secs [OF ab that] by (simp_all add: midnight_ts_def next_local_midnight_def)
  from in_day show "midnight_ts J t \<le> t" "t < next_local_midnight J t"
    by (simp_all add: m)
  show "midnight_ts J u = midnight_ts J t" "next_local_midnight J u = next_local_midnight J t"
    if "midnight_ts J t \<le> u" "u < next_local_midnight J t"
    using that in_day by (simp_all add: m)
qed

lemma midnight_idem:
  assumes "calendar_law J lo hi" "lo \<le> t" "t \<le> hi"
  shows "midnight_ts J (midnight_ts J t) = midnight_ts J t"
  using day_facts [OF assms] by (meson le_less_trans order_refl)

lemma midnight_mono:
  assumes "calendar_law J lo hi" "lo \<le> t" "t \<le> u" "u \<le> hi"
  shows "midnight_ts J t \<le> midnight_ts J u"
proof (cases "midnight_ts J u \<le> t")
  case True
  have "t < next_local_midnight J u" using day_facts(2) [OF assms(1), where t = u] assms(2-4) by simp
  then have "midnight_ts J t = midnight_ts J u" using day_facts(3) [OF assms(1), where t = u and u = t] True assms(2-4) by simp
  then show ?thesis by simp
next
  case False
  then show ?thesis using day_facts(1) [OF assms(1,2)] assms(3,4) by simp
qed

text \<open>No day begins strictly between the beginning of a day and the next midnight.\<close>

lemma no_midnight_between:
  assumes "calendar_law J lo hi" "lo \<le> t" "t \<le> hi" "midnight_ts J t = t"
  shows "t < d \<and> midnight_ts J d = d \<longleftrightarrow> next_local_midnight J t \<le> d \<and> midnight_ts J d = d"
proof -
  have "midnight_ts J d = t" if "t < d" "d < next_local_midnight J t"
    using day_facts(3) [OF assms(1-3), of d] that assms(4) by simp
  then show ?thesis using day_facts(2) [OF assms(1-3)] by fastforce
qed

lemma next_is_midnight:
  assumes "calendar_law J lo hi" "lo \<le> t" "t \<le> hi" "next_local_midnight J t \<le> hi"
  shows "midnight_ts J (next_local_midnight J t) = next_local_midnight J t"
proof (rule ccontr)
  let ?n = "next_local_midnight J t"
  assume ne: "midnight_ts J ?n \<noteq> ?n"
  have tn: "lo \<le> ?n" using day_facts(2) [OF assms(1-3)] assms(2) by simp
  note N = day_facts [OF assms(1) tn assms(4)] and T = day_facts [OF assms(1-3)]
  define w where "w = max (midnight_ts J ?n) (midnight_ts J t)"
  have w: "midnight_ts J t \<le> w" "w < ?n" "midnight_ts J ?n \<le> w" "w < next_local_midnight J ?n"
    using N(1,2) T(1,2) ne by (auto simp: w_def)
  have "next_local_midnight J ?n = ?n"
    using T(4) [OF w(1,2)] N(4) [OF w(3,4)] by simp
  then show False using N(2) by simp
qed


section \<open>Charts\<close>

definition day_count :: "bucket_entry list \<Rightarrow> int \<Rightarrow> int" where
  "day_count bs d = (\<Sum>b\<leftarrow>filter (\<lambda>b. be_timestamp b = d) bs. be_count b)"

definition day_total :: "js_env \<Rightarrow> bucket_entry list \<Rightarrow> int \<Rightarrow> int" where
  "day_total J bs d = (\<Sum>b\<leftarrow>filter (\<lambda>b. midnight_ts J (be_timestamp b) = d) bs. be_count b)"

definition chart_of :: "(int \<Rightarrow> int) \<Rightarrow> int list \<Rightarrow> bucket_entry list" where
  "chart_of f ds = map (\<lambda>d. \<lparr>be_timestamp = d, be_count = f d\<rparr>) ds"

definition midnights :: "js_env \<Rightarrow> int \<Rightarrow> int \<Rightarrow> int set" where
  "midnights J a b = {d. a \<le> d \<and> d \<le> b \<and> midnight_ts J d = d}"

lemma day_count_simps [simp]:
  "day_count [] d = 0"
  "day_count (b # bs) d = (if be_timestamp b = d then be_count b else 0) + day_count bs d"
  by (simp_all add: day_count_def)

lemma day_count_append [simp]: "day_count (xs @ ys) d = day_count xs d + day_count ys d"
  by (simp add: day_count_def)

lemma day_count_none: "d \<notin> be_timestamp ` set bs \<Longrightarrow> day_count bs d = 0"
  by (induction bs) auto

lemma chart_of_Cons: "chart_of f (d # ds) = \<lparr>be_timestamp = d, be_count = f d\<rparr> # chart_of f ds"
  by (simp add: chart_of_def)

lemma chart_of_cong: "(\<And>d. d \<in> set ds \<Longrightarrow> f d = g d) \<Longrightarrow> chart_of f ds = chart_of g ds"
  by (simp add: chart_of_def)

lemma midnights_step:
  assumes "calendar_law J lo hi" "lo \<le> t" "t \<le> e" "e \<le> hi" "midnight_ts J t = t"
  shows "midnights J t e = insert t (midnights J (next_local_midnight J t) e)"
proof -
  have "t \<le> hi" using assms by simp
  then show ?thesis
    using no_midnight_between [OF assms(1,2) _ assms(5)] day_facts(2) [OF assms(1,2)] assms(3,5)
    by (auto simp: midnights_def le_less)
qed

lemma fill_loop_step:
  assumes "cur \<le> e"
  shows "fill_loop J daily e i cur res =
    (if drop i daily \<noteq> [] \<and> be_timestamp (hd (drop i daily)) = cur
     then fill_loop J daily e (i + 1) (next_local_midnight J cur) (res @ [hd (drop i daily)])
     else fill_loop J daily e i (next_local_midnight J cur) (res @ [\<lparr>be_timestamp = cur, be_count = 0\<rparr>]))"
  using assms by (subst fill_loop.simps) (auto simp: hd_drop_conv_nth)

lemma fill_loop_ok:
  assumes "calendar_law J lo hi" "e \<le> hi" "lo \<le> cur" "cur \<le> e \<Longrightarrow> midnight_ts J cur = cur"
    and "sorted_wrt (<) (map be_timestamp (drop i daily))"
    and "be_timestamp ` set (drop i daily) \<subseteq> midnights J cur e"
  shows "\<exists>ds. fill_loop J daily e i cur res = Some (res @ chart_of (day_count (drop i daily)) ds)
    \<and> sorted_wrt (<) ds \<and> set ds = midnights J cur e"
  using assms(3-)
proof (induction "nat (e + 1 - cur)" arbitrary: i cur res rule: less_induct)
  case less
  show ?case
  proof (cases "cur \<le> e")
    case False
    then have "midnights J cur e = {}" by (auto simp: midnights_def)
    with False show ?thesis
      by (intro exI [of _ "[]"]) (simp add: fill_loop.simps chart_of_def)
  next
    case True
    let ?n = "next_local_midnight J cur" and ?bs = "drop i daily"
    have cur: "lo \<le> cur" "cur \<le> hi" "midnight_ts J cur = cur" using less.prems(1,2) True assms(2) by auto
    have n: "cur < ?n" using day_facts(2) [OF assms(1) cur(1,2)] .
    have mids: "midnights J cur e = insert cur (midnights J ?n e)"
      by (rule midnights_step [OF assms(1) cur(1) True assms(2) cur(3)])
    have nm: "?n \<le> e \<Longrightarrow> midnight_ts J ?n = ?n"
      using next_is_midnight [OF assms(1) cur(1,2)] assms(2) by simp
    note IH = less.hyps [of ?n, OF _ _ nm]
    have later: "\<And>d. d \<in> midnights J ?n e \<Longrightarrow> cur < d" using n by (auto simp: midnights_def)
    show ?thesis
    proof (cases "?bs \<noteq> [] \<and> be_timestamp (hd ?bs) = cur")
      case hit: True
      then obtain b where b: "?bs = b # drop (i + 1) daily" "be_timestamp b = cur"
        by (metis Cons_nth_drop_Suc Suc_eq_plus1 drop_eq_Nil hd_drop_conv_nth not_less)
      let ?r = "drop (i + 1) daily"
      have rest: "be_timestamp ` set ?r \<subseteq> midnights J ?n e"
      proof (rule image_subsetI)
        fix x
        assume x: "x \<in> set ?r"
        then have "cur < be_timestamp x" using less.prems(3) b by simp
        moreover have "be_timestamp x \<in> midnights J cur e" using less.prems(4) x unfolding b(1) by auto
        ultimately show "be_timestamp x \<in> midnights J ?n e" unfolding mids by auto
      qed
      obtain ds where ds: "fill_loop J daily e (i + 1) ?n (res @ [b]) = Some ((res @ [b]) @ chart_of (day_count ?r) ds)"
          "sorted_wrt (<) ds" "set ds = midnights J ?n e"
        using IH [of "i + 1" "res @ [b]"] n True cur(1) less.prems(3) rest unfolding b(1) by auto
      have "cur \<notin> be_timestamp ` set ?r" using rest later by blast
      then have "b = \<lparr>be_timestamp = cur, be_count = day_count ?bs cur\<rparr>"
        unfolding b(1) using b(2) by (cases b) (simp add: day_count_none)
      moreover have "chart_of (day_count ?r) ds = chart_of (day_count ?bs) ds"
        unfolding b(1) by (rule chart_of_cong) (use ds(3) later b(2) in auto)
      ultimately show ?thesis
        using ds later hit b(1) unfolding fill_loop_step [OF True] mids
        by (intro exI [of _ "cur # ds"]) (simp add: chart_of_Cons)
    next
      case miss: False
      have "cur \<notin> be_timestamp ` set ?bs"
      proof
        assume c: "cur \<in> be_timestamp ` set ?bs"
        then obtain b bs' where bs: "?bs = b # bs'" by (cases ?bs) auto
        then have "cur < be_timestamp b" using miss less.prems(4) n unfolding bs mids by (auto dest: later)
        then show False using c less.prems(3) unfolding bs by auto
      qed
      moreover from this have "be_timestamp ` set ?bs \<subseteq> midnights J ?n e"
        using less.prems(4) unfolding mids by auto
      then obtain ds where ds: "fill_loop J daily e i ?n (res @ [\<lparr>be_timestamp = cur, be_count = 0\<rparr>])
            = Some ((res @ [\<lparr>be_timestamp = cur, be_count = 0\<rparr>]) @ chart_of (day_count ?bs) ds)"
          "sorted_wrt (<) ds" "set ds = midnights J ?n e"
        using IH [of i "res @ [\<lparr>be_timestamp = cur, be_count = 0\<rparr>]"] n True cur(1) less.prems(3) by auto
      ultimately show ?thesis
        using later miss unfolding fill_loop_step [OF True] mids
        by (intro exI [of _ "cur # ds"]) (auto simp: chart_of_Cons day_count_none)
    qed
  qed
qed

lemma as_u64_add: "as_u64 (as_u64 x + y) = as_u64 (x + y)"
  by (simp add: as_u64_def mod_simps)

lemma as_u64_id: "0 \<le> x \<Longrightarrow> x < 2 ^ 64 \<Longrightarrow> as_u64 x = x"
  by (simp add: as_u64_def)

lemma day_total_snoc:
  "day_total J (bs @ [b]) d =
     day_total J bs d + (if midnight_ts J (be_timestamp b) = d then be_count b else 0)"
  by (simp add: day_total_def)

lemma day_total_none: "d \<notin> (\<lambda>b. midnight_ts J (be_timestamp b)) ` set bs \<Longrightarrow> day_total J bs d = 0"
  by (induction bs) (auto simp: day_total_def)

lemma aggregate_daily_snoc: "aggregate_daily J (bs @ [b]) = aggregate_step J (aggregate_daily J bs) b"
  by (simp add: aggregate_daily_def)

text \<open>The aggregation of buckets in time order: one entry for each local day, in order.\<close>

lemma aggregate_daily_ok:
  assumes "sorted (map (\<lambda>b. midnight_ts J (be_timestamp b)) bs)"
    and "list_all (\<lambda>b. 0 \<le> be_count b \<and> be_count b < 2 ^ 64) bs"
  shows "sorted_wrt (<) (map be_timestamp (aggregate_daily J bs))
    \<and> be_timestamp ` set (aggregate_daily J bs) = (\<lambda>b. midnight_ts J (be_timestamp b)) ` set bs
    \<and> (bs \<noteq> [] \<longrightarrow> aggregate_daily J bs \<noteq> []
         \<and> be_timestamp (last (aggregate_daily J bs)) = midnight_ts J (be_timestamp (last bs)))
    \<and> (\<forall>d. day_count (aggregate_daily J bs) d = as_u64 (day_total J bs d))"
  using assms
proof (induction bs rule: rev_induct)
  case Nil
  then show ?case by (simp add: aggregate_daily_def day_total_def as_u64_def)
next
  case (snoc b bs)
  let ?D = "aggregate_daily J bs" and ?m = "midnight_ts J (be_timestamp b)"
  have IH: "sorted_wrt (<) (map be_timestamp ?D)"
      "be_timestamp ` set ?D = (\<lambda>b. midnight_ts J (be_timestamp b)) ` set bs"
      "bs \<noteq> [] \<Longrightarrow> ?D \<noteq> [] \<and> be_timestamp (last ?D) = midnight_ts J (be_timestamp (last bs))"
      "\<And>d. day_count ?D d = as_u64 (day_total J bs d)"
    using snoc by (auto simp: sorted_append)
  have below: "\<And>x. x \<in> be_timestamp ` set ?D \<Longrightarrow> x \<le> ?m"
    using snoc.prems(1) unfolding IH(2) by (auto simp: sorted_append)
  have c: "as_u64 (be_count b) = be_count b" using snoc.prems(2) by (simp add: as_u64_id)
  have step: "aggregate_step J ?D b = (if ?D \<noteq> [] \<and> be_timestamp (last ?D) = ?m
      then butlast ?D @ [(last ?D)\<lparr>be_count := as_u64 (be_count (last ?D) + be_count b)\<rparr>]
      else ?D @ [\<lparr>be_timestamp = ?m, be_count = be_count b\<rparr>])"
    by (simp add: aggregate_step_def midnight_ts_def Let_def)
  show ?case
  proof (cases "?D \<noteq> [] \<and> be_timestamp (last ?D) = ?m")
    case True
    then obtain E l where E: "?D = E @ [l]" "be_timestamp l = ?m" by (metis append_butlast_last_id)
    have "?m \<notin> be_timestamp ` set E" using IH(1) unfolding E by (auto simp: sorted_wrt_append E(2))
    then have l: "as_u64 (day_total J bs ?m) = be_count l"
      using IH(4) [of ?m] unfolding E by (simp add: E(2) day_count_none)
    have other: "day_count E d = as_u64 (day_total J bs d)" if "d \<noteq> ?m" for d
      using IH(4) [of d] that unfolding E by (simp add: E(2))
    have "day_count (E @ [l\<lparr>be_count := as_u64 (be_count l + be_count b)\<rparr>]) d = as_u64 (day_total J (bs @ [b]) d)" for d
      using \<open>?m \<notin> _\<close> other [of d] l [symmetric]
      by (cases "d = ?m") (simp_all add: day_total_snoc E(2) day_count_none as_u64_add)
    moreover have "be_timestamp ` set ?D = insert ?m (be_timestamp ` set E)" unfolding E by (simp add: E(2))
    moreover have D: "aggregate_daily J (bs @ [b]) = E @ [l\<lparr>be_count := as_u64 (be_count l + be_count b)\<rparr>]"
      unfolding aggregate_daily_snoc step using True E by simp
    ultimately show ?thesis
      using IH(1,2) unfolding D by (simp add: E(1) E(2) sorted_wrt_append) blast
  next
    case False
    then have D: "aggregate_daily J (bs @ [b]) = ?D @ [\<lparr>be_timestamp = ?m, be_count = be_count b\<rparr>]"
      unfolding aggregate_daily_snoc step by auto
    have less: "x < ?m" if "x \<in> be_timestamp ` set ?D" for x
    proof -
      obtain E l where E: "?D = E @ [l]" using \<open>x \<in> _\<close> by (cases ?D rule: rev_cases) auto
      then have "be_timestamp l < ?m" using False below [of "be_timestamp l"] by auto
      moreover have "x \<le> be_timestamp l" using that IH(1) unfolding E by (auto simp: sorted_wrt_append)
      ultimately show ?thesis by simp
    qed
    then have "?m \<notin> be_timestamp ` set ?D" by blast
    then have "day_total J bs ?m = 0"
      unfolding IH(2) by (rule day_total_none)
    then show ?thesis
      using IH less unfolding D
      by (auto simp: sorted_wrt_append day_total_snoc c as_u64_id [of 0])
  qed
qed


lemma sum_day_totals:
  assumes "distinct ds" "(\<lambda>b. midnight_ts J (be_timestamp b)) ` set bs \<subseteq> set ds"
  shows "(\<Sum>d\<leftarrow>ds. day_total J bs d) = (\<Sum>b\<leftarrow>bs. be_count b)"
  using assms(2)
proof (induction bs)
  case Nil
  then show ?case by (simp add: day_total_def comp_def)
next
  case (Cons b bs)
  have "(\<Sum>d\<leftarrow>ds. if midnight_ts J (be_timestamp b) = d then be_count b else 0) = be_count b"
    using assms(1) Cons.prems by (simp add: sum_list_distinct_conv_sum_set)
  moreover have "day_total J (b # bs) d = (if midnight_ts J (be_timestamp b) = d then be_count b else 0) + day_total J bs d" for d
    by (simp add: day_total_def)
  ultimately show ?case using Cons by (simp add: sum_list_addf)
qed

lemma buckets_sorted:
  assumes "calendar_law J lo hi" "sorted (map be_timestamp bs)"
    and "list_all (\<lambda>b. lo \<le> be_timestamp b \<and> be_timestamp b \<le> hi) bs"
  shows "sorted (map (\<lambda>b. midnight_ts J (be_timestamp b)) bs)"
  using assms(2,3)
  by (induction bs) (auto simp: list_all_iff intro: midnight_mono [OF assms(1)])

lemma fill_daily_range_eq:
  assumes "(midnight_ts J e - midnight_ts J s) div 86400 < 1000" "midnight_ts J s \<le> midnight_ts J e"
  shows "fill_daily_range J daily s e = fill_loop J daily (midnight_ts J e) 0 (midnight_ts J s) []"
proof -
  have "(midnight_ts J e - midnight_ts J s) sdiv 86400 = (midnight_ts J e - midnight_ts J s) div 86400"
    using assms(2) by (simp add: signed_divide_int_def sgn_if)
  moreover have "\<not> 1000 < nat (max ((midnight_ts J e - midnight_ts J s) div 86400) 0) + 1"
    using assms(1) by linarith
  ultimately show ?thesis
    unfolding fill_daily_range_def max_filled_days_def midnight_ts_def Let_def by (simp only: if_False)
qed

text \<open>
  A daily chart, when the calendar behaves, the range spans at most 1000 days and every bucket is
  within the range's days: the loop ends, and the chart has one entry for every local day of the
  range, in order, with the counts of the buckets of that day.
\<close>

lemma daily_chart_ok:
  assumes law: "calendar_law J lo hi" and s: "lo \<le> midnight_ts J s" "lo \<le> s" "s \<le> e" "e \<le> hi"
    and days: "(midnight_ts J e - midnight_ts J s) div 86400 < 1000"
    and bs: "sorted (map be_timestamp bs)"
      "list_all (\<lambda>b. midnight_ts J s \<le> be_timestamp b \<and> be_timestamp b \<le> e) bs"
      "list_all (\<lambda>b. 0 \<le> be_count b \<and> be_count b < 2 ^ 64) bs"
  shows "\<exists>ds. daily_chart J bs s e = Some (chart_of (\<lambda>d. as_u64 (day_total J bs d)) ds)
    \<and> sorted_wrt (<) ds \<and> set ds = midnights J (midnight_ts J s) (midnight_ts J e)
    \<and> (\<lambda>b. midnight_ts J (be_timestamp b)) ` set bs \<subseteq> set ds"
proof -
  let ?s = "midnight_ts J s" and ?e = "midnight_ts J e" and ?D = "aggregate_daily J bs"
  have se: "?s \<le> ?e" using midnight_mono [OF law s(2-4)] .
  have ms: "midnight_ts J ?s = ?s" using midnight_idem [OF law s(2)] s(3,4) by simp
  have e: "?e \<le> hi" using day_facts(1) [OF law, of e] s by simp
  have rng: "list_all (\<lambda>b. lo \<le> be_timestamp b \<and> be_timestamp b \<le> hi) bs"
    using bs(2) s by (auto simp: list_all_iff)
  note agg = aggregate_daily_ok [OF buckets_sorted [OF law bs(1) rng] bs(3)]
  have sub: "(\<lambda>b. midnight_ts J (be_timestamp b)) ` set bs \<subseteq> midnights J ?s ?e"
  proof (rule image_subsetI)
    fix b
    assume "b \<in> set bs"
    then have b: "?s \<le> be_timestamp b" "be_timestamp b \<le> e" using bs(2) by (auto simp: list_all_iff)
    then have l: "lo \<le> be_timestamp b" "be_timestamp b \<le> hi" using s by auto
    have "?s \<le> midnight_ts J (be_timestamp b)"
      using midnight_mono [OF law s(1) b(1) l(2)] ms by simp
    moreover have "midnight_ts J (be_timestamp b) \<le> ?e" using midnight_mono [OF law l(1) b(2) s(4)] .
    ultimately show "midnight_ts J (be_timestamp b) \<in> midnights J ?s ?e"
      using midnight_idem [OF law l] by (simp add: midnights_def)
  qed
  obtain ds where ds: "fill_loop J ?D ?e 0 ?s [] = Some (chart_of (day_count ?D) ds)"
      "sorted_wrt (<) ds" "set ds = midnights J ?s ?e"
    using fill_loop_ok [OF law e s(1), of 0 ?D "[]"] ms agg sub by auto
  have "chart_of (day_count ?D) ds = chart_of (\<lambda>d. as_u64 (day_total J bs d)) ds"
    by (rule chart_of_cong) (use agg in blast)
  then show ?thesis
    using ds sub unfolding daily_chart_def fill_daily_range_eq [OF days se] by auto
qed


text \<open>An entry before the first day is never passed: the loop then fills in zeros only.\<close>

lemma fill_loop_stuck:
  assumes "calendar_law J lo hi" "e \<le> hi" "lo \<le> cur" "cur \<le> e \<Longrightarrow> midnight_ts J cur = cur"
    and "i < length daily" "be_timestamp (daily ! i) < cur"
  shows "\<exists>ds. fill_loop J daily e i cur res = Some (res @ chart_of (\<lambda>_. 0) ds)
    \<and> sorted_wrt (<) ds \<and> set ds = midnights J cur e"
  using assms(3,4,6)
proof (induction "nat (e + 1 - cur)" arbitrary: cur res rule: less_induct)
  case less
  show ?case
  proof (cases "cur \<le> e")
    case False
    then have "midnights J cur e = {}" by (auto simp: midnights_def)
    with False show ?thesis by (intro exI [of _ "[]"]) (simp add: fill_loop.simps chart_of_def)
  next
    case True
    let ?n = "next_local_midnight J cur"
    have cur: "lo \<le> cur" "cur \<le> hi" "midnight_ts J cur = cur" using less.prems(1,2) True assms(2) by auto
    have n: "cur < ?n" using day_facts(2) [OF assms(1) cur(1,2)] .
    have mids: "midnights J cur e = insert cur (midnights J ?n e)"
      by (rule midnights_step [OF assms(1) cur(1) True assms(2) cur(3)])
    have nm: "?n \<le> e \<Longrightarrow> midnight_ts J ?n = ?n"
      using next_is_midnight [OF assms(1) cur(1,2)] assms(2) by simp
    obtain ds where ds: "fill_loop J daily e i ?n (res @ [\<lparr>be_timestamp = cur, be_count = 0\<rparr>])
          = Some ((res @ [\<lparr>be_timestamp = cur, be_count = 0\<rparr>]) @ chart_of (\<lambda>_. 0) ds)"
        "sorted_wrt (<) ds" "set ds = midnights J ?n e"
      using less.hyps [of ?n, OF _ _ nm] n True cur(1) less.prems(3) by fastforce
    have "drop i daily \<noteq> []" "be_timestamp (hd (drop i daily)) \<noteq> cur"
      using assms(5) less.prems(3) by (simp_all add: hd_drop_conv_nth)
    then show ?thesis
      using ds n unfolding fill_loop_step [OF True] mids
      by (intro exI [of _ "cur # ds"]) (auto simp: chart_of_Cons midnights_def)
  qed
qed

section \<open>A calendar for the witnesses\<close>

text \<open>Years of twelve months of 31 days, in a zone \<open>off\<close> seconds ahead of UTC.\<close>

definition demo_js :: "int \<Rightarrow> js_env" where
  "demo_js off =
     \<lparr>js_local = (\<lambda>ms. let l = ms div 1000 + off; day = l div 86400; s = l mod 86400
        in \<lparr>df_year = 2000 + day div 372, df_month = day mod 372 div 31, df_date = day mod 31 + 1,
            df_hours = s div 3600, df_minutes = s mod 3600 div 60\<rparr>),
      js_make = (\<lambda>y m d h mi. Some ((((y - 2000) * 372 + m * 31 + d - 1) * 86400 + h * 3600 + mi * 60 - off) * 1000)),
      js_seconds = (\<lambda>ms. ms div 1000 mod 60)\<rparr>"

lemma demo_day_number: "(2000 + day div 372 - 2000) * 372 + day mod 372 div 31 * 31 + (day mod 31 + 1) - 1 = (day :: int)"
proof -
  have "day mod 372 mod 31 = day mod 31" by (simp add: mod_mod_cancel)
  then have "day mod 372 div 31 * 31 + day mod 31 = day mod 372"
    using div_mult_mod_eq [of "day mod 372" 31] by simp
  then show ?thesis by (simp add: add.assoc)
qed

lemma demo_make:
  "js_make (demo_js off) (2000 + day div 372) (day mod 372 div 31) (day mod 31 + 1 + k) h mi
    = Some (((day + k) * 86400 + (h * 3600 + mi * 60) - off) * 1000)"
proof -
  have n: "(2000 + day div 372 - 2000) * 372 + day mod 372 div 31 * 31 + (day mod 31 + 1 + k) - 1 = day + k"
    using demo_day_number [of day] by linarith
  show ?thesis unfolding demo_js_def js_env.simps n by (simp only: add.assoc)
qed

lemma demo_clock:
  fixes s :: int
  shows "s div 60 * 60 div 3600 = s div 3600" "s div 60 * 60 mod 3600 div 60 = s mod 3600 div 60"
    "s div 3600 * 3600 + s mod 3600 div 60 * 60 = s div 60 * 60"
proof -
  have d: "s div 3600 = s div 60 div 60" using zdiv_zmult2_eq [of 60 s 60] by simp
  have m: "s mod 3600 = 60 * (s div 60 mod 60) + s mod 60" using zmod_zmult2_eq [of 60 s 60] by simp
  have m60: "s mod 3600 div 60 = s div 60 mod 60" unfolding m by simp
  show "s div 60 * 60 div 3600 = s div 3600" unfolding d using div_mult_mult2 [of 60 "s div 60" 60] by simp
  show "s div 60 * 60 mod 3600 div 60 = s mod 3600 div 60"
    unfolding m60 using mult_mod_right [of 60 "s div 60" 60] by (simp add: mult.commute)
  have "s div 60 div 60 * 60 + s div 60 mod 60 = s div 60" by simp
  then show "s div 3600 * 3600 + s mod 3600 div 60 * 60 = s div 60 * 60"
    unfolding m60 unfolding d by linarith
qed

lemma demo_calendar_law:
  assumes "- 86400 \<le> off" "off \<le> 86400" "- 1000000 \<le> lo" "hi \<le> 1000000000"
  shows "calendar_law (demo_js off) lo hi"
  unfolding calendar_law_def
proof (intro allI impI conjI)
  fix t
  assume "lo \<le> t \<and> t \<le> hi"
  then have t: "- 1000000 \<le> t" "t \<le> 1000000000" using assms by auto
  define day s where "day = (t + off) div 86400" and "s = (t + off) mod 86400"
  have ds: "t + off = day * 86400 + s" "0 \<le> s" "s < 86400" by (simp_all add: day_def s_def)
  have day: "- 14 \<le> day" "day \<le> 11600" using ds t assms(1,2) by auto
  have loc: "js_local (demo_js off) (u * 1000) = \<lparr>df_year = 2000 + day div 372, df_month = day mod 372 div 31,
      df_date = day mod 31 + 1, df_hours = (u + off - day * 86400) div 3600,
      df_minutes = (u + off - day * 86400) mod 3600 div 60\<rparr>"
    if "day * 86400 - off \<le> u" "u < day * 86400 - off + 86400" for u
  proof -
    define r where "r = u + off - day * 86400"
    have r: "0 \<le> r" "r < 86400" "u + off = r + day * 86400" using that by (simp_all add: r_def)
    then have "(u + off) div 86400 = day" "(u + off) mod 86400 = u + off - day * 86400"
      unfolding r(3) by simp_all
    then show ?thesis by (simp add: demo_js_def Let_def)
  qed
  have s: "t + off - day * 86400 = s" using ds by simp
  have in_day: "day * 86400 - off \<le> t" "t < day * 86400 - off + 86400" using ds by auto
  have year: "100 \<le> 2000 + day div 372" "2000 + day div 372 < 2 ^ 31"
    using day by auto
  show "fields_ok (demo_js off) t"
  proof -
    define w where "w = day * 86400 + s div 60 * 60 - off"
    have w: "day * 86400 - off \<le> w" "w < day * 86400 - off + 86400" "\<bar>w * 1000\<bar> \<le> 8640000000000000"
      using ds day assms(1,2) unfolding w_def by auto
    have wo: "w + off - day * 86400 = s div 60 * 60" by (simp add: w_def)
    have hm: "s div 60 * 60 div 3600 = s div 3600" "s div 60 * 60 mod 3600 div 60 = s mod 3600 div 60"
      "s div 3600 * 3600 + s mod 3600 div 60 * 60 = s div 60 * 60" by (rule demo_clock)+
    have "js_make (demo_js off) (2000 + day div 372) (day mod 372 div 31) (day mod 31 + 1) (s div 3600) (s mod 3600 div 60)
        = Some (w * 1000)"
      using demo_make [of off day 0] hm(3) by (simp add: w_def)
    moreover have "js_local (demo_js off) (w * 1000) = js_local (demo_js off) (t * 1000)"
      unfolding loc [OF w(1,2)] loc [OF in_day] wo s by (simp add: hm)
    ultimately show ?thesis
      using year w(3) ds(2,3) unfolding fields_ok_def Let_def unfolding loc [OF in_day] s date_fields.simps
      by (intro conjI exI [of _ w]) simp_all
  qed
  show "\<exists>a b. day_bounds (demo_js off) t a b"
  proof (intro exI)
    have "js_make (demo_js off) (2000 + day div 372) (day mod 372 div 31) (day mod 31 + 1) 0 0
        = Some ((day * 86400 - off) * 1000)"
        "js_make (demo_js off) (2000 + day div 372) (day mod 372 div 31) (day mod 31 + 1 + 1) 0 0
        = Some ((day * 86400 - off + 86400) * 1000)"
      using demo_make [of off day 0 0 0] demo_make [of off day 1 0 0] by simp_all
    then show "day_bounds (demo_js off) t (day * 86400 - off) (day * 86400 - off + 86400)"
      using in_day loc day assms(1,2) unfolding day_bounds_def Let_def loc [OF in_day] by auto
  qed
qed


section \<open>Properties\<close>

lemma bucket_ts_range:
  assumes "a * 3600 * 1000000 \<le> row_micros r" "row_micros r < e * 1000000"
  shows "a * 3600 \<le> bucket_ts r" "bucket_ts r \<le> e"
proof -
  have "bucket_ts r * 1000000 \<le> row_micros r"
    unfolding bucket_ts_def using div_mult_mod_eq [of "row_micros r" 3600000000]
      pos_mod_sign [of 3600000000 "row_micros r"] by linarith
  then show "bucket_ts r \<le> e" using assms(2) by simp
  have "a * 3600000000 div 3600000000 \<le> row_micros r div 3600000000"
    by (rule zdiv_mono1) (use assms(1) in simp_all)
  then show "a * 3600 \<le> bucket_ts r" by (simp add: bucket_ts_def)
qed

lemma rows_between_range:
  assumes "duck_law env" "dk_from_ts env s \<noteq> None" "dk_from_ts env e \<noteq> None" "r \<in> set (rows_between env s e d)"
  shows "s * 1000000 \<le> row_micros r" "row_micros r < e * 1000000"
proof -
  have "ts_or_epoch env s = s * 1000000000" "ts_or_epoch env e = e * 1000000000"
    using assms(1-3) by (auto simp: duck_law_def from_ts_law_def ts_or_epoch_def)
  moreover have "micros (x * 1000000000) = x * 1000000" for x
    unfolding micros_def using nonzero_mult_div_cancel_right [of 1000 "x * 1000000"] by simp
  ultimately show "s * 1000000 \<le> row_micros r" "row_micros r < e * 1000000"
    using assms(4) by (auto simp: rows_between_def ts_range_def)
qed

lemma hourly_counts_bounded:
  assumes "countable_rows rs"
  shows "list_all (\<lambda>b. 0 \<le> be_count b \<and> be_count b < 2 ^ 64) (fst (hourly_values rs))"
    and "list_all (\<lambda>b. 0 \<le> be_count b \<and> be_count b < 2 ^ 64) (snd (hourly_values rs))"
proof -
  have "int (length (filter P rs)) < 2 ^ 64" for P
    using assms le_less_trans [OF of_nat_mono [OF length_filter_le [of P rs]], of "2 ^ 63 :: int"]
    unfolding countable_rows_def by simp
  moreover have "0 \<le> sum_column pe_total_tokens (filter P rs)" "sum_column pe_total_tokens (filter P rs) < 2 ^ 64" for P
    using assms sum_column_filter [of rs P] unfolding countable_rows_def by auto
  ultimately show "list_all (\<lambda>b. 0 \<le> be_count b \<and> be_count b < 2 ^ 64) (fst (hourly_values rs))"
    "list_all (\<lambda>b. 0 \<le> be_count b \<and> be_count b < 2 ^ 64) (snd (hourly_values rs))"
    by (auto simp: hourly_values_def Let_def list_all_iff)
qed

text \<open>A chart whose counts stay within 64 bits adds up to its buckets.\<close>

lemma chart_sum:
  assumes "sorted_wrt (<) ds" "(\<lambda>b. midnight_ts J (be_timestamp b)) ` set bs \<subseteq> set ds"
    and "list_all (\<lambda>b. 0 \<le> be_count b) bs" "(\<Sum>b\<leftarrow>bs. be_count b) < 2 ^ 64"
  shows "(\<Sum>b\<leftarrow>chart_of (\<lambda>d. as_u64 (day_total J bs d)) ds. be_count b) = (\<Sum>b\<leftarrow>bs. be_count b)"
proof -
  have "0 \<le> day_total J bs d \<and> day_total J bs d \<le> (\<Sum>b\<leftarrow>bs. be_count b)" for d
    using assms(3) by (induction bs) (auto simp: day_total_def)
  then have "as_u64 (day_total J bs d) = day_total J bs d" for d
    using assms(4) by (intro as_u64_id) (auto intro: le_less_trans)
  then have "(\<Sum>b\<leftarrow>chart_of (\<lambda>d. as_u64 (day_total J bs d)) ds. be_count b) = (\<Sum>d\<leftarrow>ds. day_total J bs d)"
    by (simp add: chart_of_def comp_def)
  also have "\<dots> = (\<Sum>b\<leftarrow>bs. be_count b)"
    by (rule sum_day_totals [OF _ assms(2)]) (use assms(1) in \<open>auto simp: strict_sorted_iff\<close>)
  finally show ?thesis .
qed

lemma hourly_timestamps_snd: "be_timestamp ` set (snd (hourly_values rs)) = bucket_ts ` set rs"
  using arg_cong [OF hourly_values_ok(4) [of rs], of set] hourly_values_ok(5) [of rs] unfolding set_map by (rule trans)

text \<open>Either hourly series of rows of the range, as a chart.\<close>

lemma hourly_chart:
  assumes "calendar_law J lo hi" "lo \<le> midnight_ts J s" "lo \<le> s" "s < e" "e \<le> hi"
    and "(midnight_ts J e - midnight_ts J s) div 86400 < 1000" "midnight_ts J s mod 3600 = 0"
    and "countable_rows rs" "list_all (\<lambda>r. s * 1000000 \<le> row_micros r \<and> row_micros r < e * 1000000) rs"
    and bs: "bs = fst (hourly_values rs) \<or> bs = snd (hourly_values rs)"
  shows "\<exists>ds. daily_chart J bs s e = Some (chart_of (\<lambda>d. as_u64 (day_total J bs d)) ds)
    \<and> sorted_wrt (<) ds \<and> set ds = midnights J (midnight_ts J s) (midnight_ts J e)
    \<and> (\<Sum>b\<leftarrow>chart_of (\<lambda>d. as_u64 (day_total J bs d)) ds. be_count b) = (\<Sum>b\<leftarrow>bs. be_count b)"
proof -
  define a where "a = midnight_ts J s div 3600"
  have a: "midnight_ts J s = a * 3600"
    unfolding a_def using div_mult_mod_eq [of "midnight_ts J s" 3600] assms(7) by simp
  have as: "a * 3600 \<le> s" using day_facts(1) [OF assms(1,3)] assms(4,5) a by simp
  have day: "midnight_ts J s \<le> bucket_ts r \<and> bucket_ts r \<le> e" if "r \<in> set rs" for r
  proof -
    have "s * 1000000 \<le> row_micros r" "row_micros r < e * 1000000" using assms(9) that by (auto simp: list_all_iff)
    with as show ?thesis unfolding a using bucket_ts_range [of a r e] by linarith
  qed
  have stamps: "be_timestamp ` set bs = bucket_ts ` set rs"
    using bs hourly_values_ok(5) [of rs] hourly_timestamps_snd [of rs] by metis
  have "midnight_ts J s \<le> be_timestamp b \<and> be_timestamp b \<le> e" if b: "b \<in> set bs" for b
  proof -
    obtain r where "r \<in> set rs" "be_timestamp b = bucket_ts r"
      using imageI [OF b, of be_timestamp] unfolding stamps by (auto elim: imageE)
    with day show ?thesis by simp
  qed
  then have rng: "list_all (\<lambda>b. midnight_ts J s \<le> be_timestamp b \<and> be_timestamp b \<le> e) bs"
    unfolding list_all_iff by simp
  have so: "sorted (map be_timestamp bs)"
    using bs hourly_values_ok(3,4) [of rs] by (auto simp: strict_sorted_iff)
  have c: "list_all (\<lambda>b. 0 \<le> be_count b \<and> be_count b < 2 ^ 64) bs"
    using bs hourly_counts_bounded [OF assms(8)] by auto
  then have nn: "list_all (\<lambda>b. 0 \<le> be_count b) bs" by (auto simp: list_all_iff)
  have sm: "(\<Sum>b\<leftarrow>bs. be_count b) < 2 ^ 64"
    using bs hourly_values_ok(1,2) [of rs] assms(8) by (auto simp: countable_rows_def)
  show ?thesis
    using daily_chart_ok [OF assms(1-3) less_imp_le [OF assms(4)] assms(5,6) so rng c] chart_sum [OF _ _ nn sm]
    by blast
qed

lemma overview_stats_metrics:
  assumes "overview_stats rate env headers peer start_ts end_ts s d = Inr o1"
  obtains m where "overview_impl (cn_duck env) (os_range_start o1) (os_range_end o1) d = Rows m"
    "os_api_request_count o1 = om_total_requests m" "os_token_consumption o1 = om_total_tokens m"
    "os_request_buckets o1 = om_request_buckets m" "os_token_buckets o1 = om_token_buckets m"
    "os_range_start o1 < os_range_end o1"
  using assms
  by (auto simp: overview_stats_def Let_def and_then_Inr map_err_Inr analytics_call_ok
      dest!: validate_ts_range_ok [unfolded range_ok_def])

text \<open>
  C19: The daily charts of the console show what the server counted. When \<open>/api/stats\<close> answers for
  rows that can be counted, the browser's local days are intervals, the first local midnight falls
  on a whole hour of UTC and the range spans at most 1000 days, the loop that fills the chart ends;
  both charts have one point for every local day of the answer's range, in order and without gaps;
  and the points of the request chart add up to the number of requests the answer names, those of
  the token chart to its number of tokens.
\<close>

theorem overview_chart_complete:
  assumes "overview_stats rate env headers peer start_ts end_ts s d = Inr o1"
    and "duck_law (cn_duck env)"
    and "dk_from_ts (cn_duck env) (os_range_start o1) \<noteq> None" "dk_from_ts (cn_duck env) (os_range_end o1) \<noteq> None"
    and "countable_rows (rows_between (cn_duck env) (os_range_start o1) (os_range_end o1) d)"
    and "calendar_law J lo hi" "lo \<le> midnight_ts J (os_range_start o1)" "lo \<le> os_range_start o1" "os_range_end o1 \<le> hi"
    and "(midnight_ts J (os_range_end o1) - midnight_ts J (os_range_start o1)) div 86400 < 1000"
    and "midnight_ts J (os_range_start o1) mod 3600 = 0"
  shows "\<exists>reqs toks. daily_chart J (os_request_buckets o1) (os_range_start o1) (os_range_end o1) = Some reqs
    \<and> daily_chart J (os_token_buckets o1) (os_range_start o1) (os_range_end o1) = Some toks
    \<and> sorted_wrt (<) (map be_timestamp reqs)
    \<and> set (map be_timestamp reqs) = midnights J (midnight_ts J (os_range_start o1)) (midnight_ts J (os_range_end o1))
    \<and> map be_timestamp toks = map be_timestamp reqs
    \<and> sum_list (map be_count reqs) = os_api_request_count o1
    \<and> sum_list (map be_count toks) = os_token_consumption o1"
proof -
  let ?s = "os_range_start o1" and ?e = "os_range_end o1"
  let ?rs = "rows_between (cn_duck env) ?s ?e d"
  obtain m where m: "overview_impl (cn_duck env) ?s ?e d = Rows m"
      "os_api_request_count o1 = om_total_requests m" "os_token_consumption o1 = om_total_tokens m"
      "os_request_buckets o1 = om_request_buckets m" "os_token_buckets o1 = om_token_buckets m" "?s < ?e"
    by (rule overview_stats_metrics [OF assms(1)])
  have v: "om_total_requests m = int (length ?rs)" "om_total_tokens m = sum_column pe_total_tokens ?rs"
      "om_request_buckets m = fst (hourly_values ?rs)" "om_token_buckets m = snd (hourly_values ?rs)"
    by (rule overview_values [OF m(1) assms(2,5)], assumption)+
  have rows: "list_all (\<lambda>r. ?s * 1000000 \<le> row_micros r \<and> row_micros r < ?e * 1000000) ?rs"
    using rows_between_range [OF assms(2-4)] by (simp add: list_all_iff)
  note chart = hourly_chart [OF assms(6-8) m(6) assms(9-11,5) rows]
  have same: "ds = ds'" if "sorted_wrt (<) ds" "sorted_wrt (<) ds'" "set ds = set ds'" for ds ds' :: "int list"
    using that by (simp add: strict_sorted_equal)
  obtain ds ds' where ds: "daily_chart J (fst (hourly_values ?rs)) ?s ?e
        = Some (chart_of (\<lambda>d. as_u64 (day_total J (fst (hourly_values ?rs)) d)) ds)"
      "sorted_wrt (<) ds" "set ds = midnights J (midnight_ts J ?s) (midnight_ts J ?e)"
      "(\<Sum>b\<leftarrow>chart_of (\<lambda>d. as_u64 (day_total J (fst (hourly_values ?rs)) d)) ds. be_count b) = int (length ?rs)"
    and ds': "daily_chart J (snd (hourly_values ?rs)) ?s ?e
        = Some (chart_of (\<lambda>d. as_u64 (day_total J (snd (hourly_values ?rs)) d)) ds')"
      "sorted_wrt (<) ds'" "set ds' = midnights J (midnight_ts J ?s) (midnight_ts J ?e)"
      "(\<Sum>b\<leftarrow>chart_of (\<lambda>d. as_u64 (day_total J (snd (hourly_values ?rs)) d)) ds'. be_count b)
        = sum_column pe_total_tokens ?rs"
    using chart [OF disjI1 [OF refl]] chart [OF disjI2 [OF refl]] hourly_values_ok(1,2) [of ?rs]
    by auto
  have t: "map be_timestamp (chart_of f xs) = xs" for f xs by (simp add: chart_of_def comp_def)
  show ?thesis
    unfolding m(2-5) v ds(1) ds'(1) option.inject ex_simps simp_thms
    using ds(2-4) ds'(2-4) same [OF ds(2) ds'(2)] by (auto simp: t)
qed


text \<open>
  A chart loses everything when one bucket lies before its first day. When the aggregated
  buckets begin on a local day before the day the range starts, as they do in a zone that is a
  fraction of an hour from UTC, where the server's whole-hour bucket of the first half hour of the
  range carries a time of the day before, the loop that fills the chart still ends with a point for
  every day of the range, but every point is 0, whatever the buckets count.
\<close>

theorem chart_lost_before_start:
  assumes "calendar_law J lo hi" "lo \<le> midnight_ts J s" "lo \<le> s" "s \<le> e" "e \<le> hi"
    and "(midnight_ts J e - midnight_ts J s) div 86400 < 1000"
    and "sorted (map be_timestamp (b # bs))"
    and "list_all (\<lambda>b. lo \<le> be_timestamp b \<and> be_timestamp b \<le> hi \<and> 0 \<le> be_count b \<and> be_count b < 2 ^ 64) (b # bs)"
    and "be_timestamp b < midnight_ts J s"
  shows "\<exists>ds. daily_chart J (b # bs) s e = Some (map (\<lambda>d. \<lparr>be_timestamp = d, be_count = 0\<rparr>) ds)
    \<and> sorted_wrt (<) ds \<and> set ds = midnights J (midnight_ts J s) (midnight_ts J e)"
proof -
  let ?D = "aggregate_daily J (b # bs)" and ?s = "midnight_ts J s" and ?e = "midnight_ts J e"
  have rng: "list_all (\<lambda>b. lo \<le> be_timestamp b \<and> be_timestamp b \<le> hi) (b # bs)"
    and cnt: "list_all (\<lambda>b. 0 \<le> be_count b \<and> be_count b < 2 ^ 64) (b # bs)"
    using assms(8) by (auto simp: list_all_iff)
  note agg = aggregate_daily_ok [OF buckets_sorted [OF assms(1,7) rng] cnt]
  have "midnight_ts J (be_timestamp b) \<in> be_timestamp ` set ?D" using agg by simp
  then obtain x where x: "x \<in> set ?D" "be_timestamp x = midnight_ts J (be_timestamp b)" by auto
  have ne: "0 < length ?D" using x(1) by (auto intro: length_pos_if_in_set)
  have "be_timestamp (?D ! 0) \<le> be_timestamp x"
    using agg x(1) ne by (cases ?D) (auto simp: less_imp_le)
  also have "\<dots> < ?s" using day_facts(1) [OF assms(1), of "be_timestamp b"] rng x(2) assms(9) by simp
  finally have first: "be_timestamp (?D ! 0) < ?s" .
  have se: "?s \<le> ?e" using midnight_mono [OF assms(1,3-5)] .
  have e: "?e \<le> hi" using day_facts(1) [OF assms(1), of e] assms(3-5) by simp
  have "midnight_ts J ?s = ?s" using midnight_idem [OF assms(1,3)] assms(4,5) by simp
  then show ?thesis
    using fill_loop_stuck [OF assms(1) e assms(2) _ ne first, of "[]"]
    unfolding daily_chart_def fill_daily_range_eq [OF assms(6) se] by (simp add: chart_of_def)
qed

lemma digits_val_zeros: "digits_val 10 0 (replicate k (CHR ''0'') @ s) = digits_val 10 0 s"
  by (induction k) (simp_all add: digit_val_def is_digit_def byte_def)

lemma show_nat_digits: "c \<in> set (show_nat n) \<Longrightarrow> is_digit c"
  using digits_are_digits [of 10 c n] by (auto simp: show_nat_def digit_val_def Let_def split: if_splits)

lemma zero_pad_digits:
  "zero_pad k n \<noteq> []" "list_all is_digit (zero_pad k n)" "c \<in> set (zero_pad k n) \<Longrightarrow> is_digit c"
proof -
  have "is_digit (CHR ''0'')" by (simp add: is_digit_def byte_def)
  then show "list_all is_digit (zero_pad k n)" "c \<in> set (zero_pad k n) \<Longrightarrow> is_digit c"
    using show_nat_digits by (auto simp: zero_pad_def Let_def list_all_iff)
  show "zero_pad k n \<noteq> []" by (simp add: zero_pad_def Let_def show_nat_def)
qed

lemma parse_zero_pad:
  assumes "0 \<le> n" "n < 2 ^ 31"
  shows "parse_i32 (zero_pad k n) = Some n"
proof -
  obtain c r where z: "zero_pad k n = c # r" using zero_pad_digits(1) by (metis list.exhaust)
  have "is_digit c" using zero_pad_digits(3) [of c k n] z by simp
  then have c: "c \<noteq> CHR ''-''" "c \<noteq> CHR ''+''" by (auto simp: is_digit_def byte_def)
  have "digits_val 10 0 (zero_pad k n) = nat n"
    by (simp add: zero_pad_def Let_def digits_val_zeros show_nat_def digits_val_digits)
  then have "parse_uint (2 ^ 31 - 1) (zero_pad k n) = Some (nat n)"
    using assms zero_pad_digits(1,2) [of k n] c z by (simp add: parse_uint_def Let_def)
  then show ?thesis using assms c z by (simp add: parse_i32_def)
qed


lemma split_zero_pads:
  assumes "\<not> is_digit c"
  shows "split_on c (zero_pad k n) = [zero_pad k n]"
    "split_on c (zero_pad k n @ c # s) = zero_pad k n # split_on c s"
proof -
  have "c \<notin> set (zero_pad k n)" using assms zero_pad_digits(3) by blast
  then show "split_on c (zero_pad k n) = [zero_pad k n]"
    "split_on c (zero_pad k n @ c # s) = zero_pad k n # split_on c s"
    by (simp_all add: split_on_no_sep split_on_append)
qed

lemma separators: "\<not> is_digit (CHR ''-'')" "\<not> is_digit (CHR ''T'')" "\<not> is_digit (CHR '':'')"
  by (simp_all add: is_digit_def byte_def)

text \<open>The fields of an instant, as the getters give them.\<close>

lemma fields_get:
  assumes "fields_ok J t" "\<bar>t * 1000\<bar> \<le> 8640000000000000"
  defines "f \<equiv> js_local J (t * 1000)"
  shows "date_get J df_year (date_of_secs t) = df_year f" "date_get J df_month (date_of_secs t) = df_month f"
    "date_get J df_date (date_of_secs t) = df_date f" "date_get J df_hours (date_of_secs t) = df_hours f"
    "date_get J df_minutes (date_of_secs t) = df_minutes f"
  using assms(1) unfolding f_def fields_ok_def Let_def
  by (intro date_get_secs [OF assms(2)]; simp)+

lemma day_boundsD:
  assumes "day_bounds J t a b" "a \<le> u" "u < b"
  shows "df_year (js_local J (u * 1000)) = df_year (js_local J (t * 1000))"
    "df_month (js_local J (u * 1000)) = df_month (js_local J (t * 1000))"
    "df_date (js_local J (u * 1000)) = df_date (js_local J (t * 1000))"
  using assms unfolding day_bounds_def Let_def by blast+

lemma day_first:
  assumes "day_bounds J t a b"
  defines "f \<equiv> js_local J (t * 1000)" and "g \<equiv> js_local J (a * 1000)"
  shows "date_of_secs a = Some (a * 1000)" "df_year g = df_year f" "df_month g = df_month f" "df_date g = df_date f"
proof -
  have a: "\<bar>a * 1000\<bar> \<le> 8640000000000000" "a < b"
    using assms(1) unfolding day_bounds_def Let_def by linarith+
  from a(1) show "date_of_secs a = Some (a * 1000)" by (simp add: date_of_secs_def)
  show "df_year g = df_year f" "df_month g = df_month f" "df_date g = df_date f"
    unfolding f_def g_def using day_boundsD [OF assms(1) order_refl a(2)] .
qed

lemma law_clip:
  assumes "calendar_law J lo hi" "lo \<le> t" "t \<le> hi"
  shows "\<bar>t * 1000\<bar> \<le> 8640000000000000"
proof -
  obtain a b where "day_bounds J t a b" using assms by (auto simp: calendar_law_def)
  then have "\<bar>a * 1000\<bar> \<le> 8640000000000000" "\<bar>b * 1000\<bar> \<le> 8640000000000000" "a \<le> t" "t < b"
    unfolding day_bounds_def Let_def by blast+
  then show ?thesis by linarith
qed

text \<open>The fields of an instant, as the texts the parser meets.\<close>

lemma padded_fields:
  assumes "fields_ok J t"
  defines "f \<equiv> js_local J (t * 1000)"
  shows "0 \<le> df_year f" "0 \<le> df_month f" "df_month f < 12" "0 \<le> df_date f" "df_date f \<le> 31" "0 \<le> df_hours f" "df_hours f < 24"
    "0 \<le> df_minutes f" "df_minutes f < 60" "as_u32 (df_year f) = df_year f" "as_i32 (df_year f) = df_year f"
    "parse_i32 (zero_pad 4 (df_year f)) = Some (df_year f)" "parse_i32 (zero_pad 2 (df_month f + 1)) = Some (df_month f + 1)"
    "parse_i32 (zero_pad 2 (df_date f)) = Some (df_date f)" "parse_i32 (zero_pad 2 (df_hours f)) = Some (df_hours f)"
    "parse_i32 (zero_pad 2 (df_minutes f)) = Some (df_minutes f)"
    "CHR ''T'' \<notin> set (zero_pad 4 (df_year f) @ ''-'' @ zero_pad 2 (df_month f + 1) @ ''-'' @ zero_pad 2 (df_date f))"
proof -
  have r: "100 \<le> df_year f" "df_year f < 2 ^ 31" "0 \<le> df_month f" "df_month f < 12" "1 \<le> df_date f"
      "df_date f \<le> 31" "0 \<le> df_hours f" "df_hours f < 24" "0 \<le> df_minutes f" "df_minutes f < 60"
    using assms(1) unfolding fields_ok_def Let_def f_def by simp_all
  have small: "df_month f + 1 < 2 ^ 31" "df_date f < 2 ^ 31" "df_hours f < 2 ^ 31" "df_minutes f < 2 ^ 31"
    using r by simp_all
  show "0 \<le> df_year f" "0 \<le> df_month f" "df_month f < 12" "0 \<le> df_date f" "df_date f \<le> 31" "0 \<le> df_hours f" "df_hours f < 24"
    "0 \<le> df_minutes f" "df_minutes f < 60" using r by simp_all
  show "as_u32 (df_year f) = df_year f" "as_i32 (df_year f) = df_year f" using r by (simp_all add: as_u32_id as_i32_id)
  show "parse_i32 (zero_pad 4 (df_year f)) = Some (df_year f)" "parse_i32 (zero_pad 2 (df_month f + 1)) = Some (df_month f + 1)"
    "parse_i32 (zero_pad 2 (df_date f)) = Some (df_date f)" "parse_i32 (zero_pad 2 (df_hours f)) = Some (df_hours f)"
    "parse_i32 (zero_pad 2 (df_minutes f)) = Some (df_minutes f)"
    using r small by (auto intro!: parse_zero_pad)
  show "CHR ''T'' \<notin> set (zero_pad 4 (df_year f) @ ''-'' @ zero_pad 2 (df_month f + 1) @ ''-'' @ zero_pad 2 (df_date f))"
    using zero_pad_digits(3) separators(2) by auto
qed

lemma date_text_read:
  assumes "calendar_law J lo hi" "lo \<le> t" "t \<le> hi"
  shows "date_str_to_ts J (ts_to_date_str J t) = Some (midnight_ts J t)"
proof -
  define f where "f = js_local J (t * 1000)"
  obtain a b where ok: "fields_ok J t" and ab: "day_bounds J t a b" using assms by (auto simp: calendar_law_def)
  note g = fields_get [OF ok law_clip [OF assms], folded f_def] and r = padded_fields [OF ok, folded f_def]
  have mk: "js_make J (df_year f) (df_month f) (df_date f) 0 0 = Some (a * 1000)"
    using ab unfolding day_bounds_def Let_def f_def by blast
  have a: "date_of_secs a = Some (a * 1000)" "df_year (js_local J (a * 1000)) = df_year f"
      "df_month (js_local J (a * 1000)) = df_month f" "df_date (js_local J (a * 1000)) = df_date f"
    using day_first [OF ab] unfolding f_def by simp_all
  have "midnight_ts J t = a"
    using local_day_secs(1) [OF ok ab] ab by (simp add: midnight_ts_def day_bounds_def Let_def)
  then show ?thesis
    unfolding ts_to_date_str_def date_str_to_ts_def Let_def g split_once_none [OF r(17)] option.case prod.case
    using mk r by (simp add: split_zero_pads separators as_u32_id as_i32_id date_get_def a)
qed

lemma datetime_text_read:
  assumes "calendar_law J lo hi" "lo \<le> t" "t \<le> hi"
  shows "\<exists>u. date_str_to_ts J (ts_to_datetime_str J t) = Some u
    \<and> ts_to_datetime_str J u = ts_to_datetime_str J t \<and> js_local J (u * 1000) = js_local J (t * 1000)
    \<and> js_make J (df_year (js_local J (t * 1000))) (df_month (js_local J (t * 1000))) (df_date (js_local J (t * 1000)))
        (df_hours (js_local J (t * 1000))) (df_minutes (js_local J (t * 1000))) = Some (u * 1000)"
proof -
  define f where "f = js_local J (t * 1000)"
  have ok: "fields_ok J t" using assms by (auto simp: calendar_law_def)
  note g = fields_get [OF ok law_clip [OF assms], folded f_def] and r = padded_fields [OF ok, folded f_def]
  obtain w where w: "js_make J (df_year f) (df_month f) (df_date f) (df_hours f) (df_minutes f) = Some (w * 1000)"
      "\<bar>w * 1000\<bar> \<le> 8640000000000000" "js_local J (w * 1000) = f"
    using ok unfolding fields_ok_def Let_def f_def by blast
  have text_t: "ts_to_datetime_str J t = (zero_pad 4 (df_year f) @ ''-'' @ zero_pad 2 (df_month f + 1) @ ''-'' @ zero_pad 2 (df_date f))
      @ CHR ''T'' # (zero_pad 2 (df_hours f) @ '':'' @ zero_pad 2 (df_minutes f))"
    unfolding ts_to_datetime_str_def Let_def g by simp
  have "date_str_to_ts J (ts_to_datetime_str J t) = Some w"
    unfolding text_t date_str_to_ts_def Let_def split_once_first [OF r(17)] option.case prod.case
    using w r by (simp add: split_zero_pads separators as_u32_id as_i32_id date_get_def nth_i32_or_0_def)
  moreover have "ts_to_datetime_str J w = ts_to_datetime_str J t"
  proof -
    have "fields_ok J w" using ok w unfolding fields_ok_def Let_def f_def by simp
    then show ?thesis unfolding ts_to_datetime_str_def Let_def g using fields_get [OF _ w(2)] w(3) by simp
  qed
  ultimately show ?thesis using w(1,3) unfolding f_def by blast
qed

text \<open>
  C26: A date the console prints is a date it reads back. For an instant at which the local calendar
  behaves, the text of its local date is read as the first instant of that local day, and the text
  of its local date and time is read as an instant that prints the same.
\<close>

theorem date_str_roundtrip:
  assumes "calendar_law J lo hi" "lo \<le> t" "t \<le> hi"
  shows "date_str_to_ts J (ts_to_date_str J t) = Some (midnight_ts J t)
    \<and> (\<exists>u. date_str_to_ts J (ts_to_datetime_str J t) = Some u
         \<and> ts_to_datetime_str J u = ts_to_datetime_str J t)"
  using date_text_read [OF assms] datetime_text_read [OF assms] by blast


section \<open>Witnesses\<close>

definition demo_cn :: console_env where
  "demo_cn = \<lparr>cn_now = 100000, cn_duck = demo_duck, cn_call = \<lparr>co_sent = True, co_in_time = True\<rparr>,
     cn_run = demo_run\<rparr>"

definition demo_stats :: "int \<Rightarrow> int \<Rightarrow> log_db \<Rightarrow> int overview_stats" where
  "demo_stats s e d =
     (let m = (case overview_impl demo_duck s e d of Rows m \<Rightarrow> m)
      in \<lparr>os_range_start = s, os_range_end = e, os_provider_count = length (providers demo_db),
          os_model_count = length (models demo_db),
          os_api_request_count = om_total_requests m, os_token_consumption = om_total_tokens m,
          os_rpm = om_total_requests m, os_tpm = om_total_tokens m, os_username = None,
          os_request_buckets = om_request_buckets m, os_token_buckets = om_token_buckets m,
          os_model_dist = om_model_dist m, os_token_dist = om_token_dist m\<rparr>)"

text \<open>Two rows in the first hour of a local day that starts on a half hour.\<close>

definition half_hour_log :: log_db where
  "half_hour_log = \<lparr>access_log = [], proxy_log = [demo_row 66700, demo_row 70000], audit_log_rows = []\<rparr>"

lemma demo_stats_of:
  assumes "case overview_impl demo_duck s e d of Rows m \<Rightarrow> True | _ \<Rightarrow> False"
    and "validate_ts_range demo_cn (Some s) (Some e) (retention_days (log_cfg (config demo_state)))
      = Inr \<lparr>vr_start = s, vr_end = e\<rparr>"
  shows "overview_stats (\<lambda>n len. n) demo_cn [] (V4 1) (Some s) (Some e) demo_state d = Inr (demo_stats s e d)"
proof -
  obtain m where m: "overview_impl demo_duck s e d = Rows m" using assms(1) by (auto split: sql_result.splits)
  have user: "remote_user_from_headers [] (V4 1) (trusted_proxies (server (config demo_state))) = None" by code_simp
  have counts: "db_or_http demo_run (run_db_read demo_run (count_both (re_db demo_run)) demo_state)
      = Inr (length (providers demo_db), length (models demo_db))" by code_simp
  have call: "analytics_call (cn_call demo_cn) (Rows m) = Inr m" by (simp add: demo_cn_def analytics_call_ok)
  have env: "cn_run demo_cn = demo_run" "cn_duck demo_cn = demo_duck" by (simp_all add: demo_cn_def)
  show ?thesis
    unfolding overview_stats_def Let_def assms(2) user env counts
    by (simp add: call m demo_stats_def)
qed

lemma demo_stats_answer:
  "overview_stats (\<lambda>n len. n) demo_cn [] (V4 1) (Some 0) (Some 5000) demo_state demo_log = Inr (demo_stats 0 5000 demo_log)"
  "overview_stats (\<lambda>n len. n) demo_cn [] (V4 1) (Some 66600) (Some 80000) demo_state half_hour_log
     = Inr (demo_stats 66600 80000 half_hour_log)"
  by (rule demo_stats_of; code_simp)+

theorem overview_chart_complete_witness:
  "\<exists>reqs toks. daily_chart (demo_js 0) (os_request_buckets (demo_stats 0 5000 demo_log)) 0 5000 = Some reqs
    \<and> daily_chart (demo_js 0) (os_token_buckets (demo_stats 0 5000 demo_log)) 0 5000 = Some toks
    \<and> sum_list (map be_count reqs) = 3 \<and> sum_list (map be_count toks) = 15"
proof -
  have o1: "os_range_start (demo_stats 0 5000 demo_log) = 0" "os_range_end (demo_stats 0 5000 demo_log) = 5000"
      "os_api_request_count (demo_stats 0 5000 demo_log) = 3" "os_token_consumption (demo_stats 0 5000 demo_log) = 15"
    by code_simp+
  have duck: "duck_law (cn_duck demo_cn)" "cn_duck demo_cn = demo_duck" by (simp_all add: demo_cn_def demo_duck_law)
  have c: "countable_rows (rows_between demo_duck 0 5000 demo_log)"
      "dk_from_ts demo_duck 0 \<noteq> None" "dk_from_ts demo_duck 5000 \<noteq> None"
      "midnight_ts (demo_js 0) 0 = 0" "midnight_ts (demo_js 0) 5000 = 0" by code_simp+
  have law: "calendar_law (demo_js 0) 0 10000" by (rule demo_calendar_law) simp_all
  show ?thesis
    using overview_chart_complete [OF demo_stats_answer(1) duck(1), where J = "demo_js 0" and lo = 0 and hi = 10000,
        unfolded o1 duck(2) c(4,5), OF c(2,3,1) law] by auto
qed

theorem chart_lost_before_start_witness:
  "os_api_request_count (demo_stats 66600 80000 half_hour_log) = 2
    \<and> (\<exists>ds. daily_chart (demo_js 19800) (os_request_buckets (demo_stats 66600 80000 half_hour_log)) 66600 80000
          = Some (map (\<lambda>d. \<lparr>be_timestamp = d, be_count = 0\<rparr>) ds) \<and> set ds = midnights (demo_js 19800) 66600 66600)"
proof -
  have b: "os_request_buckets (demo_stats 66600 80000 half_hour_log)
      = [\<lparr>be_timestamp = 64800, be_count = 1\<rparr>, \<lparr>be_timestamp = 68400, be_count = 1\<rparr>]"
      "os_api_request_count (demo_stats 66600 80000 half_hour_log) = 2"
      "midnight_ts (demo_js 19800) 66600 = 66600" "midnight_ts (demo_js 19800) 80000 = 66600" by code_simp+
  have law: "calendar_law (demo_js 19800) 0 100000" by (rule demo_calendar_law) simp_all
  show ?thesis
    using chart_lost_before_start [OF law, where s = 66600 and e = 80000 and b = "\<lparr>be_timestamp = 64800, be_count = 1\<rparr>"
        and bs = "[\<lparr>be_timestamp = 68400, be_count = 1\<rparr>]"] by (auto simp: b)
qed

theorem date_str_roundtrip_witness:
  "date_str_to_ts (demo_js 19800) (ts_to_date_str (demo_js 19800) 80000) = Some 66600"
proof -
  have m: "midnight_ts (demo_js 19800) 80000 = 66600" by code_simp
  have law: "calendar_law (demo_js 19800) 0 100000" by (rule demo_calendar_law) simp_all
  show ?thesis using date_str_roundtrip [OF law, of 80000] m by simp
qed

end
