(* ===== verification/Client_Calls.thy ===== *)
theory Client_Calls
  imports Client_Cache Client_Time Guard
begin

text \<open>
  The console and the server together: what a call of \<open>src/frontend/src/api.rs\<close> yields when it
  reaches the handler of \<open>src/src/handlers\<close> it is meant for, over bodies of JSON, and the query
  string of the log page.
\<close>

section \<open>An exchange\<close>

definition exchange_post ::
    "api_env \<Rightarrow> string \<Rightarrow> (json \<Rightarrow> 'q option) \<Rightarrow> ('r \<Rightarrow> json)
      \<Rightarrow> ('q \<Rightarrow> app_state \<Rightarrow> (http_error + nat \<times> 'r) \<times> app_state) \<Rightarrow> (json \<Rightarrow> 'a option)
      \<Rightarrow> http_call \<Rightarrow> client \<Rightarrow> app_state \<Rightarrow> (api_error + 'a) \<times> app_state" where
  "exchange_post env refused dec enc handler dec' call c s =
     (let body = (case hc_body call of Some b \<Rightarrow> b | None \<Rightarrow> [])
      in case json_endpoint (ap_from_slice env) (ap_to_vec env) refused dec enc handler body s of
           ((st, text), s') \<Rightarrow> (fst (api_post env dec' (Inr (st, Inr text)) c), s'))"

definition exchange_put ::
    "api_env \<Rightarrow> string \<Rightarrow> (json \<Rightarrow> 'q option) \<Rightarrow> ('r \<Rightarrow> json)
      \<Rightarrow> ('q \<Rightarrow> app_state \<Rightarrow> (http_error + nat \<times> 'r) \<times> app_state) \<Rightarrow> (json \<Rightarrow> 'a option)
      \<Rightarrow> http_call \<Rightarrow> client \<Rightarrow> app_state \<Rightarrow> (api_error + 'a) \<times> app_state" where
  "exchange_put env refused dec enc handler dec' call c s =
     (let body = (case hc_body call of Some b \<Rightarrow> b | None \<Rightarrow> [])
      in case json_endpoint (ap_from_slice env) (ap_to_vec env) refused dec enc handler body s of
           ((st, text), s') \<Rightarrow> (fst (api_put env dec' (Inr (st, Inr text)) c), s'))"

text \<open>What the console should see of a handler's answer.\<close>

definition sees :: "('r \<Rightarrow> 'a) \<Rightarrow> http_error + nat \<times> 'r \<Rightarrow> api_error + 'a" where
  "sees f r = (case r of
     Inl (st, e) \<Rightarrow> Inl \<lparr>apie_message = err_message e, apie_request_id = err_request_id e\<rparr>
   | Inr (st, x) \<Rightarrow> Inr (f x))"

definition statuses_ok :: "http_error + nat \<times> 'r \<Rightarrow> bool" where
  "statuses_ok r = (case r of Inl (st, e) \<Rightarrow> \<not> resp_ok st | Inr (st, x) \<Rightarrow> resp_ok st)"

definition readable :: "('r \<Rightarrow> json) \<Rightarrow> (json \<Rightarrow> 'a option) \<Rightarrow> ('r \<Rightarrow> 'a) \<Rightarrow> http_error + nat \<times> 'r \<Rightarrow> bool" where
  "readable enc dec' f r = (case r of Inl _ \<Rightarrow> True | Inr (st, x) \<Rightarrow> dec' (enc x) = Some (f x))"

lemma error_json_fields:
  "jget ''message'' (json_of_error e) = Some (String (err_message e))"
  "jget ''request_id'' (json_of_error e) = map_option String (err_request_id e)"
  by (auto simp: json_of_error_def split: option.split)

lemma response_to_error_of_error:
  assumes "from_slice text = Some (json_of_error e)"
  shows "response_to_error from_slice st (Inr text)
    = \<lparr>apie_message = err_message e, apie_request_id = err_request_id e\<rparr>"
  using assms by (cases "err_request_id e") (simp_all add: response_to_error_def Let_def error_json_fields)

lemma exchange_ok:
  assumes "codec_law (ap_from_slice env) (ap_to_vec env)" and "hc_body call = Some (json_text env v)"
    and "dec v = Some q" and "statuses_ok (fst (handler q s))" and "readable enc dec' f (fst (handler q s))"
  shows "exchange_post env refused dec enc handler dec' call c s = (sees f (fst (handler q s)), snd (handler q s))"
    and "exchange_put env refused dec enc handler dec' call c s = (sees f (fst (handler q s)), snd (handler q s))"
proof -
  obtain b where b: "ap_to_vec env v = Inr b" "ap_from_slice env b = Some v"
    using assms(1) by (auto simp: codec_law_def)
  have wire: "\<exists>t. ap_to_vec env w = Inr t \<and> ap_from_slice env t = Some w" for w
    using assms(1) by (auto simp: codec_law_def)
  obtain r s' where h: "handler q s = (r, s')" by fastforce
  have reply: "\<exists>st t. reply_of (ap_to_vec env) enc r = (st, t)
      \<and> fst (api_post env dec' (Inr (st, Inr t)) c) = sees f r \<and> fst (api_put env dec' (Inr (st, Inr t)) c) = sees f r"
  proof (cases r)
    case (Inl err)
    obtain st e where e: "err = (st, e)" by (cases err)
    obtain t where t: "ap_to_vec env (json_of_error e) = Inr t" "ap_from_slice env t = Some (json_of_error e)"
      using wire by blast
    show ?thesis
      using assms(4) response_to_error_of_error [of "ap_from_slice env" t e st] t(2)
      by (simp add: h Inl e reply_of_def json_reply_def t(1) api_post_def api_put_def sees_def statuses_ok_def)
  next
    case (Inr ok)
    obtain st x where x: "ok = (st, x)" by (cases ok)
    obtain t where t: "ap_to_vec env (enc x) = Inr t" "ap_from_slice env t = Some (enc x)"
      using wire by blast
    show ?thesis
      using assms(4,5) by (simp add: h Inr x reply_of_def json_reply_def t api_post_def api_put_def sees_def
          statuses_ok_def readable_def decode_body_def decode_text_def)
  qed
  then show "exchange_post env refused dec enc handler dec' call c s = (sees f (fst (handler q s)), snd (handler q s))"
    "exchange_put env refused dec enc handler dec' call c s = (sees f (fst (handler q s)), snd (handler q s))"
    by (auto simp: exchange_post_def exchange_put_def assms(2,3) json_text_def b json_endpoint_def h)
qed

section \<open>Statuses of the handlers\<close>

text \<open>Every error of a result meets \<open>P\<close>, with the rules that walk through a handler.\<close>

definition errs :: "('e \<Rightarrow> bool) \<Rightarrow> 'e + 'a \<Rightarrow> bool" where
  "errs P r \<longleftrightarrow> (\<forall>e. r = Inl e \<longrightarrow> P e)"

definition failing :: "http_error \<Rightarrow> bool" where
  "failing e \<longleftrightarrow> fst e \<in> {400, 404, 409, 500}"

definition refusing :: "ait_error \<Rightarrow> bool" where
  "refusing e \<longleftrightarrow> err_code e \<in> {400, 404, 409, 500}"

lemma refusing_simps [simp]: "refusing (bad_request m)" "refusing (from_db_error d)"
  by (auto simp: refusing_def error_defs from_db_error_def split: db_error.split)

lemma failing_simps [simp]:
  "refusing e \<Longrightarrow> failing (into_response rid e)" "failing (internal_error rid)" "failing (not_found rid m)"
  by (auto simp: failing_def refusing_def error_defs Let_def)

named_theorems errs_intros \<open>errors of results and of handlers\<close>

lemma errs_results [errs_intros]:
  "errs P (Inr x)" "P e \<Longrightarrow> errs P (Inl e)"
  "errs P r \<Longrightarrow> (\<And>a. errs P (f a)) \<Longrightarrow> errs P (and_then r f)"
  "errs P h1 \<Longrightarrow> errs P (fst (h1, s1))"
  "(\<And>a. errs P (g a)) \<Longrightarrow> errs P (map_transpose g x)"
  "P e \<Longrightarrow> errs P (ok_or e y)"
  "errs refusing q \<Longrightarrow> errs failing (http_err env q)"
  by (auto simp: errs_def and_then_Inl map_transpose_def ok_or_Inl http_err_def map_err_Inl split: option.splits sum.splits)

lemma errs_Inr [simp]: "errs P (Inr x)"
  by (simp add: errs_def)

lemma errs_splits [errs_intros]:
  "errs P r \<Longrightarrow> (\<And>x. errs P (fst (g x))) \<Longrightarrow> errs P (fst (case r of Inl e \<Rightarrow> (Inl e, s) | Inr x \<Rightarrow> g x))"
  "(\<And>a b. errs P (fst (k a b))) \<Longrightarrow> errs P (fst (case p of (a, b) \<Rightarrow> k a b))"
  by (auto simp: errs_def split: sum.split prod.split)

lemma errs_if [errs_intros]:
  "errs P r \<Longrightarrow> errs P r' \<Longrightarrow> errs P (if b then r else r')"
  "errs P (fst r1) \<Longrightarrow> errs P (fst r2) \<Longrightarrow> errs P (fst (if b then r1 else r2))"
  by auto

lemma errs_option [errs_intros]:
  "errs P r \<Longrightarrow> (\<And>x. errs P (g x)) \<Longrightarrow> errs P (case y of None \<Rightarrow> r | Some x \<Rightarrow> g x)"
  by (cases y) auto

lemma errs_steps [errs_intros]:
  "errs refusing (validate_string v f mx ok)" "errs failing (db_or_http env r)" "errs failing (db_or_internal env r)"
  by (auto simp: errs_def validate_string_def db_or_http_def db_or_internal_def Let_def
      simp del: split_paired_All split: if_splits sum.splits)

lemma errs_fields [errs_intros]:
  "errs failing (update_name_field env n)" "errs failing (update_expiry_field env x)"
  "errs refusing (checked_base_url alnum parse u)" "errs refusing (update_api_key_field k)"
  by (auto simp: errs_def update_name_field_def update_expiry_field_def checked_base_url_def validate_base_url_def
      update_api_key_field_def invalid_expiry_def res_simps http_err_def map_transpose_def validate_string_def Let_def
      simp del: split_paired_All split: option.splits if_splits sum.splits)

lemma check_ssrf_refuses: "check_ssrf_config env dns u cidrs s = (Inl e, s') \<Longrightarrow> refusing e"
  by (auto simp: check_ssrf_config_def split: prod.splits sum.splits ssrf_deny.splits)

lemma statuses_okI:
  assumes "errs failing r" "\<And>st x. r = Inr (st, x) \<Longrightarrow> resp_ok st"
  shows "statuses_ok r"
  using assms by (cases r) (force simp: statuses_ok_def errs_def failing_def resp_ok_def)+

lemma ok_200_statuses: "errs failing (fst r) \<Longrightarrow> statuses_ok (fst (ok_200 r))"
  by (rule statuses_okI) (auto simp: ok_200_def errs_def resp_ok_def split: prod.splits sum.splits)

lemma create_model_statuses: "statuses_ok (fst (handle_create_model renv rid q s))"
proof (rule statuses_okI)
  show "errs failing (fst (handle_create_model renv rid q s))"
    unfolding handle_create_model_def by (intro errs_intros) simp_all
  show "resp_ok st" if "fst (handle_create_model renv rid q s) = Inr (st, x)" for st x
    using that by (auto simp: handle_create_model_def resp_ok_def split: sum.splits prod.splits)
qed

lemma update_model_statuses: "statuses_ok (fst (ok_200 (handle_update_model renv rid n q s)))"
  unfolding handle_update_model_def by (intro ok_200_statuses errs_intros) simp_all

lemma create_key_statuses: "statuses_ok (fst (handle_create_api_key renv rid n x s))"
proof (rule statuses_okI)
  show "errs failing (fst (handle_create_api_key renv rid n x s))"
    unfolding handle_create_api_key_def invalid_expiry_def by (intro errs_intros) simp_all
  show "resp_ok st" if "fst (handle_create_api_key renv rid n x s) = Inr (st, y)" for st y
    using that by (auto simp: handle_create_api_key_def resp_ok_def split: sum.splits prod.splits)
qed

lemma update_key_statuses: "statuses_ok (fst (ok_200 (handle_update_api_key renv rid k n x e s)))"
  unfolding handle_update_api_key_def by (intro ok_200_statuses errs_intros) simp_all


lemma errs_checked [errs_intros]:
  assumes "\<And>e s1. r = (Inl e, s1) \<Longrightarrow> refusing e" "\<And>u s1. errs failing (fst (g u s1))"
  shows "errs failing (fst (case r of (Inl e, s1) \<Rightarrow> (Inl (into_response rid e), s1) | (Inr u, s1) \<Rightarrow> g u s1))"
proof (cases r)
  case (Pair x s1)
  then show ?thesis using assms by (cases x) (simp_all add: errs_def)
qed

lemma create_provider_statuses: "statuses_ok (fst (handle_create_provider renv dns alnum parse rid q s))"
proof (rule statuses_okI)
  show "errs failing (fst (handle_create_provider renv dns alnum parse rid q s))"
    unfolding handle_create_provider_def Let_def
    by (intro errs_intros) (auto simp: check_ssrf_refuses)
  show "resp_ok st" if "fst (handle_create_provider renv dns alnum parse rid q s) = Inr (st, x)" for st x
    using that by (auto simp: handle_create_provider_def resp_ok_def Let_def split: sum.splits prod.splits if_splits)
qed

lemma update_provider_statuses: "statuses_ok (fst (ok_200 (handle_update_provider renv dns alnum parse rid i q s)))"
  unfolding handle_update_provider_def
  by (intro ok_200_statuses errs_intros) (auto simp: check_ssrf_refuses split: option.splits)


section \<open>What the console shows of an answer\<close>

definition ui_model :: "model_response \<Rightarrow> ui_model" where
  "ui_model m = \<lparr>uim_id = mresp_id m, uim_name = mresp_name m, uim_provider_id = mresp_provider_id m,
     uim_upstream_model = mresp_upstream_model m, uim_enabled = mresp_enabled m,
     uim_created_at = mresp_created_at m, uim_updated_at = mresp_updated_at m\<rparr>"

definition ui_provider :: "provider_response \<Rightarrow> ui_provider" where
  "ui_provider p = \<lparr>uip_id = presp_id p, uip_name = presp_name p, uip_type = to_db (presp_type p),
     uip_base_url = presp_base_url p, uip_api_key = presp_api_key p, uip_enabled = presp_enabled p,
     uip_created_at = presp_created_at p, uip_updated_at = presp_updated_at p\<rparr>"

definition ui_api_key :: "api_key_response \<Rightarrow> ui_api_key" where
  "ui_api_key k = \<lparr>uik_id = kresp_id k, uik_display = kresp_key k, uik_name = kresp_name k,
     uik_created_at = kresp_created_at k, uik_updated_at = kresp_updated_at k,
     uik_enabled = kresp_enabled k, uik_expires_at = kresp_expires_at k\<rparr>"

text \<open>The times of an answer are \<open>i64\<close>s.\<close>

definition model_times :: "http_error + nat \<times> model_response \<Rightarrow> bool" where
  "model_times r = (case r of Inl _ \<Rightarrow> True
     | Inr (st, m) \<Rightarrow> in_i64 (Some (mresp_created_at m)) \<and> in_i64 (Some (mresp_updated_at m)))"

definition provider_times :: "http_error + nat \<times> provider_response \<Rightarrow> bool" where
  "provider_times r = (case r of Inl _ \<Rightarrow> True
     | Inr (st, p) \<Rightarrow> in_i64 (Some (presp_created_at p)) \<and> in_i64 (Some (presp_updated_at p)))"

definition api_key_times :: "http_error + nat \<times> api_key_response \<Rightarrow> bool" where
  "api_key_times r = (case r of Inl _ \<Rightarrow> True
     | Inr (st, k) \<Rightarrow> in_i64 (Some (kresp_created_at k)) \<and> in_i64 (Some (kresp_updated_at k)) \<and> in_i64 (kresp_expires_at k))"

lemmas field_simps_json = req_field_def opt_field_def default_field_def as_i64_jint in_i64_def

lemma model_readable: "model_times r \<Longrightarrow> readable json_of_model ui_model_of ui_model r"
  by (auto simp: readable_def model_times_def json_of_model_def ui_model_of_def ui_model_def field_simps_json
      split: sum.splits)

lemma provider_readable: "provider_times r \<Longrightarrow> readable json_of_provider ui_provider_of ui_provider r"
  by (auto simp: readable_def provider_times_def json_of_provider_def ui_provider_of_def ui_provider_def field_simps_json
      jopt_def split: sum.splits option.splits)

lemma api_key_readable: "api_key_times r \<Longrightarrow> readable json_of_api_key ui_api_key_of ui_api_key r"
  by (auto simp: readable_def api_key_times_def json_of_api_key_def ui_api_key_of_def ui_api_key_def field_simps_json
      jopt_def jint_def split: sum.splits option.splits)

lemma create_api_key_read:
  "in_i64 x \<Longrightarrow> create_api_key_of (Object [(''expires_at'', jopt jint x), (''name'', String n)]) = Some (n, x)"
  by (cases x) (auto simp: create_api_key_of_def req_field_def opt_field_def in_i64_def jint_def)

lemma update_api_key_read:
  "in_i64 x \<Longrightarrow> update_api_key_of (update_api_key_body on x oe) = Some (on, x, oe)"
  by (cases on; cases x; cases oe)
    (simp_all add: update_api_key_of_def update_api_key_body_def put_some_def opt_field_def in_i64_def jint_def)

lemma create_key_faithful:
  assumes "codec_law (ap_from_slice env) (ap_to_vec env)" and "in_i64 x"
    and "api_key_times (fst (handle_create_api_key renv rid n x s))"
  shows "exchange_post env refused create_api_key_of json_of_api_key (\<lambda>(n, x). handle_create_api_key renv rid n x)
      ui_api_key_of (create_api_key_call env n x) c s
    = (sees ui_api_key (fst (handle_create_api_key renv rid n x s)), snd (handle_create_api_key renv rid n x s))"
  using exchange_ok(1) [OF assms(1), where q = "(n, x)" and handler = "\<lambda>(n, x). handle_create_api_key renv rid n x" and s = s
      and dec = create_api_key_of, unfolded prod.case,
      OF _ create_api_key_read [OF assms(2)] create_key_statuses api_key_readable [OF assms(3)]]
  by (simp add: create_api_key_call_def api_post_call_def)

lemma update_key_faithful:
  assumes "codec_law (ap_from_slice env) (ap_to_vec env)" and "in_i64 x"
    and "api_key_times (fst (ok_200 (handle_update_api_key renv rid i on x oe s)))"
  shows "exchange_put env refused update_api_key_of json_of_api_key
      (\<lambda>(n, x, e) s. ok_200 (handle_update_api_key renv rid i n x e s)) ui_api_key_of
      (update_api_key_call env i on x oe) c s
    = (sees ui_api_key (fst (ok_200 (handle_update_api_key renv rid i on x oe s))),
       snd (ok_200 (handle_update_api_key renv rid i on x oe s)))"
  using exchange_ok(2) [OF assms(1), where q = "(on, x, oe)" and handler = "\<lambda>(n, x, e) s. ok_200 (handle_update_api_key renv rid i n x e s)"
      and s = s and dec = update_api_key_of, unfolded prod.case,
      OF _ update_api_key_read [OF assms(2)] update_key_statuses api_key_readable [OF assms(3)]]
  by (simp add: update_api_key_call_def api_put_call_def)

section \<open>Properties\<close>



text \<open>
  \<open>encodeURIComponent\<close> leaves only letters, digits and \<open>- _ . ! ~ * ' ( ) %\<close>; it fails on no text that
  is valid Unicode.
\<close>

definition encode_uri_law :: "api_env \<Rightarrow> bool" where
  "encode_uri_law env \<longleftrightarrow> (\<forall>s. \<exists>e. ap_encode_uri env s = Some e \<and> CHR ''&'' \<notin> set e \<and> CHR ''='' \<notin> set e \<and> CHR ''#'' \<notin> set e)"

definition log_fields :: "log_filter \<Rightarrow> (string \<times> string option) list" where
  "log_fields f =
     [(''start_ts'', map_option show_int (lf_start_ts f)), (''end_ts'', map_option show_int (lf_end_ts f)),
      (''provider_name'', lf_provider_name f), (''model_name'', lf_model_name f),
      (''api_key_name'', lf_api_key_name f), (''client_ip'', lf_client_ip f), (''status'', lf_status f),
      (''endpoint'', lf_endpoint f), (''is_streaming'', map_option show_bool (lf_is_streaming f))]"

definition encoded :: "api_env \<Rightarrow> string \<Rightarrow> string" where
  "encoded env s = (case ap_encode_uri env s of Some e \<Rightarrow> e | None \<Rightarrow> s)"

definition present :: "api_env \<Rightarrow> (string \<times> string option) list \<Rightarrow> (string \<times> string) list" where
  "present env fs = List.map_filter (\<lambda>(k, v). map_option (\<lambda>s. (k, encoded env s)) v) fs"

lemma present_simps [simp]:
  "present env [] = []" "present env ((k, None) # fs) = present env fs"
  "present env ((k, Some s) # fs) = (k, encoded env s) # present env fs"
  by (simp_all add: present_def map_filter_simps)

lemma push_qs_present: "push_qs env k v parts = parts @ map (\<lambda>(k, e). k @ ''='' @ e) (present env [(k, v)])"
  by (cases v) (simp_all add: push_qs_def encoded_def)

lemma present_append: "present env (fs @ gs) = present env fs @ present env gs"
  by (simp add: present_def map_filter_def)

lemma proxy_logs_query_parts:
  "proxy_logs_query env page per_page f = join_with ''&'' (map (\<lambda>(k, e). k @ ''='' @ e)
     ([(''page'', show_nat page), (''per_page'', show_nat per_page)] @ present env (log_fields f)))"
proof -
  have "present env [a, b, c, d, e, g, h, i, j] = present env [a] @ present env [b] @ present env [c] @ present env [d]
      @ present env [e] @ present env [g] @ present env [h] @ present env [i] @ present env [j]" for a b c d e g h i j
    by (simp only: present_append [symmetric] append.simps)
  then show ?thesis
    unfolding proxy_logs_query_def push_qs_present log_fields_def by simp
qed

lemma present_in: "(k, e) \<in> set (present env fs) \<Longrightarrow> \<exists>s. (k, Some s) \<in> set fs \<and> e = encoded env s"
proof (induction fs)
  case (Cons f fs)
  then show ?case by (cases f; cases "snd f") auto
qed simp

text \<open>
  The log page's filters reach the server as they are, whatever text the user types. Splitting
  the query string at each ampersand, and each part at its first equals sign, gives the page, the
  page size and exactly the filters that are set, each under its own name with its value
  encoded: no value can add a field, change another one, or end the query.
\<close>

theorem log_query_fields:
  assumes "encode_uri_law env"
  shows "map (split_once (CHR ''='')) (split_on (CHR ''&'') (proxy_logs_query env page per_page f))
      = map Some ((''page'', show_nat page) # (''per_page'', show_nat per_page) # present env (log_fields f))
    \<and> CHR ''#'' \<notin> set (proxy_logs_query env page per_page f)"
proof -
  let ?fs = "(''page'', show_nat page) # (''per_page'', show_nat per_page) # present env (log_fields f)"
  have digit: "c \<in> set (show_nat n) \<Longrightarrow> c \<noteq> CHR ''&'' \<and> c \<noteq> CHR ''#''" for c n
  proof -
    assume "c \<in> set (show_nat n)"
    then have "digit_val 10 c \<noteq> None" unfolding show_nat_def by (rule digits_are_digits [rotated 2]) simp_all
    then show "c \<noteq> CHR ''&'' \<and> c \<noteq> CHR ''#''" by (auto simp: digit_val_def is_digit_def byte_def)
  qed
  have enc: "CHR ''&'' \<notin> set (encoded env s)" "CHR ''#'' \<notin> set (encoded env s)" for s
    using assms by (auto simp: encode_uri_law_def encoded_def split: option.split dest: spec [of _ s])
  have keys: "(k, e) \<in> set (present env (log_fields f)) \<Longrightarrow>
      CHR ''&'' \<notin> set k \<and> CHR ''#'' \<notin> set k \<and> CHR ''='' \<notin> set k \<and> CHR ''&'' \<notin> set e \<and> CHR ''#'' \<notin> set e" for k e
    using enc by (auto simp: log_fields_def dest!: present_in)
  have fields: "CHR ''&'' \<notin> set k \<and> CHR ''#'' \<notin> set k \<and> CHR ''='' \<notin> set k \<and> CHR ''&'' \<notin> set e \<and> CHR ''#'' \<notin> set e"
    if "(k, e) \<in> set ?fs" for k e
    using that keys digit by auto
  have parts: "split_on (CHR ''&'') (proxy_logs_query env page per_page f) = map (\<lambda>(k, e). k @ ''='' @ e) ?fs"
    unfolding proxy_logs_query_parts
    by (subst split_on_join) (use fields in auto)
  have "map (split_once (CHR ''='')) (map (\<lambda>(k, e). k @ ''='' @ e) ?fs) = map Some ?fs"
    unfolding map_map
  proof (rule map_cong [OF refl])
    fix x
    assume x: "x \<in> set ?fs"
    obtain k e where ke: "x = (k, e)" by (cases x)
    have "CHR ''='' \<notin> set k" using fields [of k e] x ke by blast
    then show "(split_once (CHR ''='') \<circ> (\<lambda>(k, e). k @ ''='' @ e)) x = Some x"
      using split_once_first [of "CHR ''=''" k e] by (simp add: ke)
  qed
  moreover have "CHR ''#'' \<notin> set (proxy_logs_query env page per_page f)"
  proof
    assume "CHR ''#'' \<in> set (proxy_logs_query env page per_page f)"
    then have "CHR ''#'' \<in> (\<Union>x \<in> set (map (\<lambda>(k, e). k @ ''='' @ e) ?fs). set x)"
      using set_join_with [of "''&''" "map (\<lambda>(k, e). k @ ''='' @ e) ?fs"]
      unfolding proxy_logs_query_parts by auto
    then show False using fields by auto
  qed
  ultimately show ?thesis unfolding parts by simp
qed


section \<open>Witnesses\<close>

text \<open>Percent-encoding of everything that is not a letter or a digit, by its number in decimal.\<close>

definition demo_encode :: "string \<Rightarrow> string option" where
  "demo_encode s = Some (concat (map (\<lambda>c. if is_ascii_alphanumeric c then [c] else CHR ''%'' # show_nat (byte c)) s))"

definition demo_api :: api_env where
  "demo_api = \<lparr>ap_now = 0, ap_has_context = True, ap_from_slice = tagged_decode, ap_to_vec = tagged_encode,
     ap_decode_error = (\<lambda>_. ''error''), ap_encode_uri = demo_encode, ap_origin = ''http://c'', ap_signal = True\<rparr>"

definition demo_client :: client where
  "demo_client = \<lparr>cl_cache = [], cl_toasts = \<lparr>next_toast_id = 0, toasts = [], toast_tasks = []\<rparr>,
     cl_i18n = i18n_new (\<lambda>_. []) ''en''\<rparr>"

lemma demo_encode_law: "encode_uri_law demo_api"
proof -
  have digit: "c \<noteq> CHR ''&'' \<and> c \<noteq> CHR ''='' \<and> c \<noteq> CHR ''#''" if "c \<in> set (show_nat n)" for c n
    using show_nat_digits [OF that] by (auto simp: is_digit_def byte_def)
  have "c \<noteq> CHR ''&'' \<and> c \<noteq> CHR ''='' \<and> c \<noteq> CHR ''#''"
    if "c \<in> set (concat (map (\<lambda>c. if is_ascii_alphanumeric c then [c] else CHR ''%'' # show_nat (byte c)) s))" for c s
    using that digit
    by (auto simp: is_ascii_alphanumeric_def is_digit_def is_upper_def is_lower_def byte_def split: if_splits)
  then have "CHR ''&'' \<notin> set (the (demo_encode s)) \<and> CHR ''='' \<notin> set (the (demo_encode s)) \<and> CHR ''#'' \<notin> set (the (demo_encode s))" for s
    unfolding demo_encode_def option.sel by blast
  then show ?thesis by (simp add: encode_uri_law_def demo_api_def demo_encode_def)
qed


theorem log_query_fields_witness:
  "map (split_once (CHR ''='')) (split_on (CHR ''&'') (proxy_logs_query demo_api 2 10
      \<lparr>lf_start_ts = Some (- 5), lf_end_ts = None, lf_provider_name = None, lf_model_name = Some ''a&b=c'',
       lf_api_key_name = None, lf_client_ip = None, lf_status = None, lf_endpoint = None, lf_is_streaming = Some True\<rparr>))
    = map Some [(''page'', ''2''), (''per_page'', ''10''), (''start_ts'', ''%455''), (''model_name'', ''a%38b%61c''),
        (''is_streaming'', ''true'')]"
proof -
  let ?f = "\<lparr>lf_start_ts = Some (- 5), lf_end_ts = None, lf_provider_name = None, lf_model_name = Some ''a&b=c'',
       lf_api_key_name = None, lf_client_ip = None, lf_status = None, lf_endpoint = None, lf_is_streaming = Some True\<rparr>"
  have v: "demo_encode (show_int (- 5)) = Some ''%455''" "demo_encode ''a&b=c'' = Some ''a%38b%61c''"
      "demo_encode (show_bool True) = Some ''true''" "show_nat 2 = ''2''" "show_nat 10 = ''10''" by code_simp+
  then have "present demo_api (log_fields ?f) = [(''start_ts'', ''%455''), (''model_name'', ''a%38b%61c''), (''is_streaming'', ''true'')]"
    by (simp add: log_fields_def encoded_def demo_api_def)
  then show ?thesis using log_query_fields [OF demo_encode_law, of 2 10 ?f] v(4,5) by simp
qed

end
