(* ===== verification/Client_Forms.thy ===== *)
theory Client_Forms
  imports Client_Calls
begin

text \<open>
  The dialogs of the web console (\<open>src/frontend/src/pages/providers.rs\<close>, \<open>models.rs\<close>,
  \<open>apikeys.rs\<close>, \<open>components/table.rs\<close>, \<open>components/modal.rs\<close>): what a form holds when it is
  opened, what it checks, the call it makes, and what the effect behind it does with the answer.
  A message of a form is the key of its translation.
\<close>

section \<open>Texts\<close>

definition timestamp_str :: "js_env \<Rightarrow> int \<Rightarrow> string" where
  "timestamp_str J t =
     (let d = date_of_secs t
      in if t = 0 then []
         else zero_pad 4 (date_get J df_year d) @ ''-'' @ zero_pad 2 (date_get J df_month d + 1) @ ''-''
           @ zero_pad 2 (date_get J df_date d) @ '' '' @ zero_pad 2 (date_get J df_hours d) @ '':''
           @ zero_pad 2 (date_get J df_minutes d) @ '':''
           @ zero_pad 2 (case d of None \<Rightarrow> 0 | Some ms \<Rightarrow> as_u32 (js_seconds J ms)))"

definition expires_at_display :: "js_env \<Rightarrow> int option \<Rightarrow> string" where
  "expires_at_display J x = (case x of
     Some t \<Rightarrow> if t > 0 then timestamp_str J t else ''-'' | None \<Rightarrow> ''-'')"

text \<open>
  \<open>set_date\<close> keeps the local time of day; only the day of the result is read, so the seconds
  are left out.
\<close>

definition default_expiry_str :: "js_env \<Rightarrow> int \<Rightarrow> string" where
  "default_expiry_str J now_ms =
     (let d0 = Some now_ms;
          d = js_make J (date_get J df_year d0) (as_i32 (date_get J df_month d0)) (date_get J df_date d0 + 30)
            (date_get J df_hours d0) (date_get J df_minutes d0)
      in zero_pad 4 (date_get J df_year d) @ ''-'' @ zero_pad 2 (date_get J df_month d + 1) @ ''-''
         @ zero_pad 2 (date_get J df_date d) @ ''T00:00'')"

definition provider_display_name :: "string \<Rightarrow> (string \<times> string) list \<Rightarrow> string" where
  "provider_display_name i pairs = (case map_of pairs i of Some n \<Rightarrow> n | None \<Rightarrow> i)"

section \<open>The provider form\<close>

record provider_form =
  pf_name :: string
  pf_type :: string
  pf_base_url :: string
  pf_api_key :: string
  pf_enabled :: bool
  pf_clear_key :: bool

record provider_form_data =
  pfd_name :: string
  pfd_type :: string
  pfd_base_url :: string
  pfd_api_key :: "string option"
  pfd_enabled :: bool

definition provider_form_new :: "(string \<times> string) list option \<Rightarrow> ui_provider option \<Rightarrow> provider_form" where
  "provider_form_new types edit =
     \<lparr>pf_name = (case edit of Some p \<Rightarrow> uip_name p | None \<Rightarrow> []),
      pf_type = (case edit of Some p \<Rightarrow> uip_type p
         | None \<Rightarrow> (case types of Some ((i, _) # _) \<Rightarrow> i | _ \<Rightarrow> ''openai_compat'')),
      pf_base_url = (case edit of Some p \<Rightarrow> uip_base_url p | None \<Rightarrow> ''https://''),
      pf_api_key = [],
      pf_enabled = (case edit of Some p \<Rightarrow> uip_enabled p | None \<Rightarrow> True),
      pf_clear_key = False\<rparr>"

fun form_url_char :: "(string \<Rightarrow> bool) \<Rightarrow> string \<Rightarrow> bool" where
  "form_url_char alphanumeric [c] = (is_ascii_alphanumeric c \<or> c \<in> set ''.-_~:/'')"
| "form_url_char alphanumeric s = alphanumeric s"

definition form_api_key :: "bool \<Rightarrow> provider_form \<Rightarrow> string option" where
  "form_api_key is_edit f =
     (let raw = pf_api_key f
      in if is_edit then (if raw \<noteq> [] then Some raw else if pf_clear_key f then Some [] else None)
         else if raw = [] then None else Some raw)"

definition provider_submit :: "(string \<Rightarrow> bool) \<Rightarrow> bool \<Rightarrow> provider_form \<Rightarrow> string + provider_form_data" where
  "provider_submit alphanumeric is_edit f =
     (if pf_name f = [] \<or> pf_base_url f = [] then Inl ''name_and_base_url_required''
      else if \<not> starts_with (pf_base_url f) ''http://'' \<and> \<not> starts_with (pf_base_url f) ''https://'' then
        Inl ''base_url_invalid''
      else if \<not> list_all (form_url_char alphanumeric) (utf8_chars (pf_base_url f)) then Inl ''base_url_invalid''
      else Inr \<lparr>pfd_name = pf_name f, pfd_type = pf_type f, pfd_base_url = pf_base_url f,
                pfd_api_key = form_api_key is_edit f, pfd_enabled = pf_enabled f\<rparr>)"

definition provider_save_call :: "api_env \<Rightarrow> string option \<Rightarrow> provider_form_data \<Rightarrow> http_call" where
  "provider_save_call env edit_id d = (case edit_id of
     Some i \<Rightarrow> update_provider_call env i (pfd_name d) (pfd_type d) (pfd_base_url d) (pfd_api_key d) (pfd_enabled d)
   | None \<Rightarrow> create_provider_call env (pfd_name d) (pfd_type d) (pfd_base_url d) (pfd_api_key d) (pfd_enabled d))"

section \<open>The model form\<close>

record model_form =
  mf_name :: string
  mf_provider_id :: string
  mf_upstream_model :: string
  mf_enabled :: bool

definition model_form_new :: "(string \<times> string) list option \<Rightarrow> ui_model option \<Rightarrow> model_form" where
  "model_form_new provs edit =
     \<lparr>mf_name = (case edit of Some m \<Rightarrow> uim_name m | None \<Rightarrow> []),
      mf_provider_id = (case edit of Some m \<Rightarrow> uim_provider_id m
         | None \<Rightarrow> (case provs of Some ((i, _) # _) \<Rightarrow> i | _ \<Rightarrow> [])),
      mf_upstream_model = (case edit of Some m \<Rightarrow> uim_upstream_model m | None \<Rightarrow> []),
      mf_enabled = (case edit of Some m \<Rightarrow> uim_enabled m | None \<Rightarrow> True)\<rparr>"

definition model_submit :: "model_form \<Rightarrow> string + model_form" where
  "model_submit f =
     (if mf_name f = [] \<or> mf_provider_id f = [] then Inl ''name_and_provider_id_required'' else Inr f)"

definition model_save_call :: "api_env \<Rightarrow> string option \<Rightarrow> model_form \<Rightarrow> http_call" where
  "model_save_call env edit_name d = (case edit_name of
     Some n \<Rightarrow> update_model_call env n (mf_provider_id d) (mf_upstream_model d) (mf_enabled d)
   | None \<Rightarrow> create_model_call env (mf_name d) (mf_provider_id d) (mf_upstream_model d) (mf_enabled d))"

section \<open>The API key form\<close>

record key_form =
  kf_name :: string
  kf_expires_at :: string
  kf_clear_expiry :: bool
  kf_enabled :: bool

definition key_form_new :: "js_env \<Rightarrow> int \<Rightarrow> ui_api_key option \<Rightarrow> key_form" where
  "key_form_new J now_ms edit =
     \<lparr>kf_name = (case edit of Some k \<Rightarrow> uik_name k | None \<Rightarrow> []),
      kf_expires_at = (case Option.bind edit uik_expires_at of
         Some t \<Rightarrow> ts_to_datetime_str J t | None \<Rightarrow> default_expiry_str J now_ms),
      kf_clear_expiry = False,
      kf_enabled = (case edit of Some k \<Rightarrow> uik_enabled k | None \<Rightarrow> True)\<rparr>"

definition key_submit :: "key_form \<Rightarrow> string + key_form" where
  "key_submit f = (if kf_name f = [] then Inl ''name_required'' else Inr f)"

definition key_expires_ts :: "js_env \<Rightarrow> key_form \<Rightarrow> int option" where
  "key_expires_ts J d =
     (if kf_clear_expiry d then Some 0
      else if kf_expires_at d = [] then None
      else date_str_to_ts J (kf_expires_at d))"

definition key_save_call :: "api_env \<Rightarrow> js_env \<Rightarrow> string option \<Rightarrow> key_form \<Rightarrow> http_call" where
  "key_save_call env J edit_id d =
     (let expires_ts = key_expires_ts J d
      in case edit_id of
           Some i \<Rightarrow> update_api_key_call env i (Some (kf_name d)) expires_ts (Some (kf_enabled d))
         | None \<Rightarrow> create_api_key_call env (kf_name d) expires_ts)"

section \<open>What is behind a dialog\<close>

text \<open>
  The action of a form: whether a request is under way, its last answer, and \<open>consumed\<close>. An effect
  runs after each change of the first two. Whether the edited row's field was disposed by a refetch
  is the library's, an argument.
\<close>

datatype 'a entity_modal = Closed | Add | Detail 'a | Edit 'a | Delete 'a

record 'a save_state =
  sv_pending :: bool
  sv_value :: "(string + 'a) option"
  sv_consumed :: bool
  sv_error :: string

definition save_state_new :: "'a save_state" where
  "save_state_new = \<lparr>sv_pending = False, sv_value = None, sv_consumed = False, sv_error = []\<rparr>"

text \<open>Rows are kept by their key; a patched row takes the values of the answer.\<close>

definition patch_row :: "('a \<Rightarrow> string) \<Rightarrow> string \<Rightarrow> 'a \<Rightarrow> 'a list \<Rightarrow> 'a list" where
  "patch_row key k x items = map (\<lambda>r. if key r = k then x else r) items"

text \<open>The result says whether \<open>on_success\<close> is called.\<close>

definition attach_save_effect ::
    "('a \<Rightarrow> string) \<Rightarrow> string option \<Rightarrow> bool \<Rightarrow> 'a save_state \<Rightarrow> 'a list \<Rightarrow> 'a save_state \<times> 'a list \<times> bool" where
  "attach_save_effect key edit disposed s items =
     (if sv_pending s then (s\<lparr>sv_consumed := False\<rparr>, items, False)
      else if sv_consumed s then (s, items, False)
      else (case sv_value s of
        Some (Inr x) \<Rightarrow> (s\<lparr>sv_consumed := True\<rparr>,
          (case edit of Some k \<Rightarrow> if disposed then items else patch_row key k x items | None \<Rightarrow> items @ [x]), True)
      | Some (Inl e) \<Rightarrow> (s\<lparr>sv_consumed := True, sv_error := e\<rparr>, items, False)
      | None \<Rightarrow> (s, items, False)))"

text \<open>
  The effect of the key form: the raw key to show with its name, and whether the list is fetched
  again.
\<close>

definition key_save_effect ::
    "string option \<Rightarrow> bool \<Rightarrow> ui_api_key save_state \<Rightarrow> ui_api_key list \<Rightarrow> (string \<times> string) option
      \<Rightarrow> ui_api_key save_state \<times> ui_api_key list \<times> (string \<times> string) option \<times> bool \<times> bool" where
  "key_save_effect edit disposed s items raw =
     (if sv_pending s then (s\<lparr>sv_consumed := False\<rparr>, items, raw, False, False)
      else if sv_consumed s then (s, items, raw, False, False)
      else (case sv_value s of
        Some (Inr k) \<Rightarrow>
          (let s1 = s\<lparr>sv_consumed := True\<rparr>
           in case edit of
                Some i \<Rightarrow> if disposed then (s1, items, raw, True, True)
                  else (s1, patch_row uik_id i k items, raw, False, True)
              | None \<Rightarrow> (s1, items, Some (uik_display k, uik_name k), True, True))
      | Some (Inl e) \<Rightarrow> (s\<lparr>sv_consumed := True, sv_error := e\<rparr>, items, raw, False, False)
      | None \<Rightarrow> (s, items, raw, False, False)))"

text \<open>The effect of the delete dialog; the answer's error goes to a toast.\<close>

definition delete_effect ::
    "('a \<Rightarrow> string) \<Rightarrow> string \<Rightarrow> nat \<Rightarrow> string \<Rightarrow> unit save_state \<Rightarrow> 'a list \<Rightarrow> toast_state
      \<Rightarrow> unit save_state \<times> 'a list \<times> toast_state \<times> bool" where
  "delete_effect key k now deleted s items tst =
     (if sv_pending s then (s\<lparr>sv_consumed := False\<rparr>, items, tst, False)
      else if sv_consumed s then (s, items, tst, False)
      else (case sv_value s of
        Some (Inr _) \<Rightarrow> (s\<lparr>sv_consumed := True\<rparr>, filter (\<lambda>r. key r \<noteq> k) items, toast_success now deleted tst, True)
      | Some (Inl e) \<Rightarrow> (s\<lparr>sv_consumed := True\<rparr>, items, toast_error now e tst, False)
      | None \<Rightarrow> (s, items, tst, False)))"


section \<open>A dialog as a machine\<close>

text \<open>
  An open form with its effect (\<open>FormModalShell\<close>): what was sent, the rows of the page behind it.
  \<open>check\<close> is the form's own, \<open>on_success\<close> closes the dialog, and a closed dialog is gone with its
  effect. It cannot be closed while a request is under way.
\<close>

record ('f, 'd, 'a) dialog =
  dg_open :: bool
  dg_form :: 'f
  dg_save :: "'a save_state"
  dg_items :: "'a list"
  dg_sent :: "'d list"

datatype ('f, 'a) dialog_event =
    EditField "'f \<Rightarrow> 'f"
  | Submit
  | CloseClick
  | Answer bool "string + 'a"

definition dialog_new :: "'f \<Rightarrow> 'a list \<Rightarrow> ('f, 'd, 'a) dialog" where
  "dialog_new f xs = \<lparr>dg_open = True, dg_form = f, dg_save = save_state_new, dg_items = xs, dg_sent = []\<rparr>"

definition run_effect :: "('a \<Rightarrow> string) \<Rightarrow> string option \<Rightarrow> bool \<Rightarrow> ('f, 'd, 'a) dialog \<Rightarrow> ('f, 'd, 'a) dialog" where
  "run_effect key edit disposed g =
     (case attach_save_effect key edit disposed (dg_save g) (dg_items g) of (sv, xs, success) \<Rightarrow>
        g\<lparr>dg_save := sv, dg_items := xs, dg_open := dg_open g \<and> \<not> success\<rparr>)"

definition on_submit ::
    "('f \<Rightarrow> string + 'd) \<Rightarrow> ('a \<Rightarrow> string) \<Rightarrow> string option \<Rightarrow> ('f, 'd, 'a) dialog \<Rightarrow> ('f, 'd, 'a) dialog" where
  "on_submit check key edit g =
     (if sv_pending (dg_save g) then g
      else (case check (dg_form g) of
        Inl e \<Rightarrow> g\<lparr>dg_save := (dg_save g)\<lparr>sv_error := e\<rparr>\<rparr>
      | Inr d \<Rightarrow> run_effect key edit False
          (g\<lparr>dg_save := (dg_save g)\<lparr>sv_error := [], sv_pending := True\<rparr>, dg_sent := dg_sent g @ [d]\<rparr>)))"

definition close_when_idle :: "('f, 'd, 'a) dialog \<Rightarrow> ('f, 'd, 'a) dialog" where
  "close_when_idle g = (if sv_pending (dg_save g) then g else g\<lparr>dg_open := False\<rparr>)"

definition dialog_step ::
    "('f \<Rightarrow> string + 'd) \<Rightarrow> ('a \<Rightarrow> string) \<Rightarrow> string option \<Rightarrow> ('f, 'a) dialog_event
      \<Rightarrow> ('f, 'd, 'a) dialog \<Rightarrow> ('f, 'd, 'a) dialog" where
  "dialog_step check key edit ev g =
     (if \<not> dg_open g then g
      else (case ev of
        EditField f \<Rightarrow> g\<lparr>dg_form := f (dg_form g)\<rparr>
      | Submit \<Rightarrow> on_submit check key edit g
      | CloseClick \<Rightarrow> close_when_idle g
      | Answer disposed r \<Rightarrow>
          if sv_pending (dg_save g)
          then run_effect key edit disposed (g\<lparr>dg_save := (dg_save g)\<lparr>sv_pending := False, sv_value := Some r\<rparr>\<rparr>)
          else g))"

text \<open>What holds of a dialog for a new row at every moment, \<open>done\<close> being the requests answered.\<close>

definition dialog_ok :: "('f \<Rightarrow> string + 'd) \<Rightarrow> 'a list \<Rightarrow> ('f, 'd, 'a) dialog \<Rightarrow> bool" where
  "dialog_ok check xs g \<longleftrightarrow>
     set (dg_sent g) \<subseteq> {d. \<exists>f. check f = Inr d}
     \<and> (sv_pending (dg_save g) \<longrightarrow> dg_open g \<and> \<not> sv_consumed (dg_save g) \<and> dg_sent g \<noteq> [])
     \<and> (\<not> sv_pending (dg_save g) \<longrightarrow> sv_consumed (dg_save g) \<or> sv_value (dg_save g) = None)
     \<and> (if dg_items g = xs then \<not> (\<exists>x. sv_value (dg_save g) = Some (Inr x))
        else \<not> dg_open g \<and> (\<exists>x. sv_value (dg_save g) = Some (Inr x) \<and> dg_items g = xs @ [x] \<and> dg_sent g \<noteq> []))"

lemma dialog_step_ok: "dialog_ok check xs g \<Longrightarrow> dialog_ok check xs (dialog_step check key None ev g)"
  by (cases ev) (auto simp: dialog_ok_def dialog_step_def run_effect_def attach_save_effect_def on_submit_def
      close_when_idle_def split: sum.splits option.splits if_splits)

lemma dialog_run_ok: "dialog_ok check xs g \<Longrightarrow> dialog_ok check xs (fold (dialog_step check key None) evs g)"
  by (induction evs arbitrary: g) (simp_all add: dialog_step_ok)


section \<open>Properties\<close>


lemma form_char_backend: "form_url_char al c \<Longrightarrow> base_url_char al c"
  by (cases "(al, c)" rule: base_url_char.cases) auto

text \<open>
  The provider form is stricter than the server about addresses. Every address it sends passes
  the server's check of characters; but it refuses the brackets of an IPv6 host, which the server
  accepts, so a provider at such an address, once it was made through the API, cannot be edited in
  the console at all: its form is refused as it was opened.
\<close>

theorem form_address_stricter:
  "(\<forall>f d. provider_submit al e f = Inr d \<longrightarrow> list_all (base_url_char al) (utf8_chars (pfd_base_url d)))
   \<and> list_all (base_url_char al) (utf8_chars ''http://[::1]:8080/v1'')
   \<and> (\<forall>types p d. uip_base_url p = ''http://[::1]:8080/v1'' \<longrightarrow>
        provider_submit al True (provider_form_new types (Some p)) \<noteq> Inr d)"
proof (intro conjI allI impI, goal_cases)
  case (1 f d)
  then have "list_all (form_url_char al) (utf8_chars (pfd_base_url d))"
    by (auto simp: provider_submit_def split: if_splits)
  then show ?case by (rule list.pred_mono_strong) (simp add: form_char_backend)
next
  case 2
  have "utf8_chars ''http://[::1]:8080/v1'' = map (\<lambda>c. [c]) ''http://[::1]:8080/v1''" by code_simp
  moreover have "list_all (\<lambda>c. is_ascii_alphanumeric c \<or> c \<in> set ''.-_~:/[]%'') ''http://[::1]:8080/v1''" by code_simp
  ultimately show ?case by (simp only: list.pred_map comp_def base_url_char.simps)
next
  case (3 types p d)
  have "''['' \<in> set (utf8_chars ''http://[::1]:8080/v1'')" by code_simp
  moreover have "\<not> is_ascii_alphanumeric (CHR ''['')" by code_simp
  then have "\<not> form_url_char al ''[''" by simp
  ultimately have "\<not> list_all (form_url_char al) (utf8_chars ''http://[::1]:8080/v1'')" by (auto simp only: list_all_iff)
  then show ?case using 3 by (simp add: provider_submit_def provider_form_new_def)
qed

text \<open>The default expiry is the first instant of the day 30 days on, where that day has a midnight.\<close>

definition default_day :: "js_env \<Rightarrow> int \<Rightarrow> int \<Rightarrow> bool" where
  "default_day J now_ms u \<longleftrightarrow>
     js_make J (date_get J df_year (Some now_ms)) (as_i32 (date_get J df_month (Some now_ms)))
       (date_get J df_date (Some now_ms) + 30) (date_get J df_hours (Some now_ms)) (date_get J df_minutes (Some now_ms))
     = Some (u * 1000)
     \<and> df_hours (js_local J (midnight_ts J u * 1000)) = 0 \<and> df_minutes (js_local J (midnight_ts J u * 1000)) = 0"

lemma default_expiry_read:
  assumes "calendar_law J lo hi" "lo \<le> u" "u \<le> hi" "default_day J now_ms u"
  shows "date_str_to_ts J (default_expiry_str J now_ms) = Some (midnight_ts J u)"
proof -
  define f where "f = js_local J (u * 1000)"
  obtain a b where ok: "fields_ok J u" and ab: "day_bounds J u a b" using assms by (auto simp: calendar_law_def)
  have clip: "\<bar>u * 1000\<bar> \<le> 8640000000000000" by (rule law_clip [OF assms(1-3)])
  note g = fields_get [OF ok clip, folded f_def] and r = padded_fields [OF ok, folded f_def]
  have mk: "js_make J (df_year f) (df_month f) (df_date f) 0 0 = Some (a * 1000)"
    using ab unfolding day_bounds_def Let_def f_def by blast
  have a: "date_of_secs a = Some (a * 1000)" "df_year (js_local J (a * 1000)) = df_year f"
      "df_month (js_local J (a * 1000)) = df_month f" "df_date (js_local J (a * 1000)) = df_date f"
    using day_first [OF ab] unfolding f_def by simp_all
  have m: "midnight_ts J u = a"
    using local_day_secs(1) [OF ok ab] ab by (simp add: midnight_ts_def day_bounds_def Let_def)
  have u: "date_of_secs u = Some (u * 1000)" using clip by (simp add: date_of_secs_def)
  have default_text: "default_expiry_str J now_ms = (zero_pad 4 (df_year f) @ ''-'' @ zero_pad 2 (df_month f + 1) @ ''-''
      @ zero_pad 2 (df_date f)) @ CHR ''T'' # ''00:00''"
    using assms(4) g(1-3) by (simp add: default_expiry_str_def default_day_def u)
  have zero: "nth_i32_or_0 (split_on CHR '':'' ''00:00'') 0 = 0" "nth_i32_or_0 (split_on CHR '':'' ''00:00'') 1 = 0"
    by code_simp+
  have hm: "df_hours (js_local J (a * 1000)) = 0" "df_minutes (js_local J (a * 1000)) = 0"
    using assms(4) by (simp_all add: default_day_def m)
  show ?thesis
    unfolding default_text date_str_to_ts_def Let_def split_once_first [OF r(17)] option.case prod.case zero
    using mk r hm a by (simp add: split_zero_pads separators as_u32_id as_i32_id date_get_def m)
qed

lemma handle_update_api_key_expiry:
  assumes "handle_update_api_key env rid i n (Some t) en s = (Inr resp, s')"
  shows "t = 0 \<or> (\<exists>dt. env_from_ts (re_db env) t = Some dt
    \<and> kresp_expires_at resp = (if timestamp dt = 0 then None else Some (timestamp dt)))"
proof -
  obtain w s1 updated hash where w: "and_then (update_name_field env n) (\<lambda>n. and_then (update_expiry_field env (Some t)) (\<lambda>e.
        Inr \<lparr>ku_id = i, ku_name = n, ku_enabled = en, ku_expires_at = e\<rparr>)) = Inr w"
    and r: "run_db_write env (update_api_key (re_db env) w) s = (Inr (Inr (updated, hash)), s1)"
    and resp: "resp = api_key_response_of (masked updated) updated"
    using assms by (auto simp: handle_update_api_key_def db_or_http_ok split: sum.splits prod.splits)
  obtain row where "updated = patch_api_key w (env_now (re_db env)) row"
    using r by (auto simp: run_db_write_def run_blocking_Inr update_api_key_def transact_def and_then_Inr Let_def
        split: if_splits prod.splits sum.splits)
  then have shown: "kresp_expires_at resp = map_option timestamp (case ku_expires_at w of
      None \<Rightarrow> key_expires_at row | Some dt \<Rightarrow> if timestamp dt = 0 then None else Some dt)"
    by (simp add: resp api_key_response_of_def patch_api_key_def Let_def split: option.splits)
  from w have "update_expiry_field env (Some t) = Inr (ku_expires_at w)" by (auto simp: and_then_Inr)
  then have "t = 0 \<or> (\<exists>dt. env_from_ts (re_db env) t = Some dt \<and> ku_expires_at w = Some dt)"
    by (cases "env_from_ts (re_db env) t") (auto simp: update_expiry_field_def map_transpose_def ok_or_def split: if_splits)
  then show ?thesis by (auto simp: shown)
qed

text \<open>
  Editing an API key changes its expiry. The form of a key that never expires opens with the
  default expiry filled in and \<open>never expires\<close> off, so saving it with only another name makes the
  server give the key an expiry, the midnight 30 days on. The form of a key that expires keeps the
  local date, hour and minute of its expiry, and no more.
\<close>

theorem key_edit_sets_expiry:
  assumes "calendar_law J lo hi" "lo \<le> u" "u \<le> hi" "default_day J now_ms u" "0 < midnight_ts J u"
    and "from_ts_law (env_from_ts (re_db env))" "calendar_law J lo' hi'"
  shows "(\<forall>k name resp s'. uik_expires_at k = None \<longrightarrow>
      handle_update_api_key env rid (uik_id k) (Some name)
        (key_expires_ts J ((key_form_new J now_ms (Some k))\<lparr>kf_name := name\<rparr>)) (Some (uik_enabled k)) s = (Inr resp, s') \<longrightarrow>
      kresp_expires_at resp = Some (midnight_ts J u))
    \<and> (\<forall>k t. uik_expires_at k = Some t \<longrightarrow> lo' \<le> t \<longrightarrow> t \<le> hi' \<longrightarrow>
      (\<exists>w. key_expires_ts J (key_form_new J now_ms (Some k)) = Some w \<and> ts_to_datetime_str J w = ts_to_datetime_str J t))"
proof (intro conjI allI impI, goal_cases)
  case (1 k name resp s')
  have "default_expiry_str J now_ms \<noteq> []" by (simp add: default_expiry_str_def Let_def)
  then have e: "key_expires_ts J ((key_form_new J now_ms (Some k))\<lparr>kf_name := name\<rparr>) = Some (midnight_ts J u)"
    using 1(1) default_expiry_read [OF assms(1-4)] by (simp add: key_expires_ts_def key_form_new_def)
  note answer = handle_update_api_key_expiry [OF 1(2) [unfolded e]]
  obtain dt where dt: "env_from_ts (re_db env) (midnight_ts J u) = Some dt" "kresp_expires_at resp
      = (if timestamp dt = 0 then None else Some (timestamp dt))"
    using answer assms(5) by auto
  then have "dt = midnight_ts J u * 1000000000" using assms(6) by (auto simp: from_ts_law_def)
  then have "timestamp dt = midnight_ts J u" by (simp add: timestamp_def)
  then show ?case using dt(2) assms(5) by simp
next
  case (2 k t)
  have "ts_to_datetime_str J t \<noteq> []" by (simp add: ts_to_datetime_str_def Let_def)
  then show ?case
    using 2(1) datetime_text_read [OF assms(7) 2(2,3)] by (auto simp: key_expires_ts_def key_form_new_def)
qed


section \<open>Witnesses\<close>

definition demo_key_state :: app_state where
  "demo_key_state = demo_state\<lparr>db := demo_db\<lparr>api_keys := [\<lparr>kr_id = ''k1'', kr_key_hash = ''h'',
     kr_display = ''sk-a...b'', kr_name = ''ci'', kr_enabled = 1, kr_created_at = 5, kr_updated_at = 5,
     kr_expires_at = None\<rparr>]\<rparr>\<rparr>"

theorem form_address_stricter_witness:
  "list_all (base_url_char (\<lambda>_. False)) (utf8_chars ''https://api.example.com/v1'')"
proof -
  let ?f = "\<lparr>pf_name = ''p'', pf_type = ''openai_compat'', pf_base_url = ''https://api.example.com/v1'', pf_api_key = [],
    pf_enabled = True, pf_clear_key = False\<rparr>"
  have "case provider_submit (\<lambda>_. False) False ?f of Inr d \<Rightarrow> pfd_base_url d = ''https://api.example.com/v1'' | _ \<Rightarrow> False"
    by code_simp
  then obtain d where "provider_submit (\<lambda>_. False) False ?f = Inr d" "pfd_base_url d = ''https://api.example.com/v1''"
    by (auto split: sum.splits)
  then show ?thesis using form_address_stricter [of "\<lambda>_. False" False] by metis
qed

theorem key_edit_sets_expiry_witness:
  "case handle_update_api_key demo_run ''r'' ''k1'' (Some ''ci2'') (Some 3456000) (Some True) demo_key_state of
     (Inr resp, _) \<Rightarrow> kresp_expires_at resp = Some 3456000 | _ \<Rightarrow> False"
proof -
  let ?k = "\<lparr>uik_id = ''k1'', uik_display = [], uik_name = ''ci'', uik_created_at = 5, uik_updated_at = 5,
    uik_enabled = True, uik_expires_at = None\<rparr>"
  let ?f = "(key_form_new (demo_js 0) 900000000 (Some ?k))\<lparr>kf_name := ''ci2''\<rparr>"
  have law: "calendar_law (demo_js 0) 0 10000000" by (rule demo_calendar_law) simp_all
  have m: "midnight_ts (demo_js 0) 3492000 = 3456000" by code_simp
  have day: "default_day (demo_js 0) 900000000 3492000" unfolding default_day_def m by code_simp
  have ts: "from_ts_law (env_from_ts (re_db demo_run))" by (simp add: from_ts_law_def demo_run_def demo_env_def)
  have "default_expiry_str (demo_js 0) 900000000 \<noteq> []" by (simp add: default_expiry_str_def Let_def)
  then have sent: "key_expires_ts (demo_js 0) ?f = Some 3456000"
    using default_expiry_read [OF law _ _ day, unfolded m] by (simp add: key_expires_ts_def key_form_new_def)
  have "case handle_update_api_key demo_run ''r'' ''k1'' (Some ''ci2'') (Some 3456000) (Some True) demo_key_state of
      (Inr resp, _) \<Rightarrow> True | _ \<Rightarrow> False" by code_simp
  then obtain resp s' where r: "handle_update_api_key demo_run ''r'' ''k1'' (Some ''ci2'') (Some 3456000) (Some True) demo_key_state
      = (Inr resp, s')" by (simp only: split: prod.splits sum.splits)
  have "kresp_expires_at resp = Some 3456000"
    using key_edit_sets_expiry [OF law _ _ day _ ts law, unfolded m, THEN conjunct1, rule_format,
        where k = ?k and name = "''ci2''" and rid = "''r''" and s = demo_key_state and resp = resp and s' = s'] r sent
    by simp
  then show ?thesis by (simp add: r)
qed

end
