(* ===== verification/Client_Lists.thy ===== *)
theory Client_Lists
  imports Client_Forms
begin

text \<open>
  The lists of the console (\<open>src/frontend/src/pages/providers.rs\<close>, \<open>models.rs\<close>, \<open>apikeys.rs\<close>): how a page
  loads its rows, keeps them while a dialog changes one of them, and which dialog it shows; and
  the list of provider types, which is kept in the browser's storage for an hour.
\<close>

section \<open>Reading a list\<close>

text \<open>A read without a body: the handler's answer, as the client gets it.\<close>

definition exchange_get ::
    "api_env \<Rightarrow> ('r \<Rightarrow> json) \<Rightarrow> http_error + 'r \<Rightarrow> (json \<Rightarrow> 'a option) \<Rightarrow> client \<Rightarrow> api_error + 'a" where
  "exchange_get env enc r dec' c =
     (case reply_of (ap_to_vec env) enc (and_then r (\<lambda>x. Inr (200, x))) of
        (st, text) \<Rightarrow> fst (api_get env dec' (Inr (st, Inr text)) c))"

definition exchange_delete :: "api_env \<Rightarrow> http_error + nat \<Rightarrow> client \<Rightarrow> api_error + unit" where
  "exchange_delete env r c =
     (case (case r of Inl (st, e) \<Rightarrow> json_reply (ap_to_vec env) st (json_of_error e) | Inr st \<Rightarrow> (st, [])) of
        (st, text) \<Rightarrow> fst (api_delete env (Inr (st, Inr text)) c))"

definition load_models :: "api_env \<Rightarrow> run_env \<Rightarrow> client \<Rightarrow> app_state \<Rightarrow> api_error + ui_model list" where
  "load_models env renv c s =
     exchange_get env (\<lambda>ms. Array (map json_of_model ms)) (handle_list_models renv s) (decode_vec ui_model_of) c"

definition load_providers :: "api_env \<Rightarrow> run_env \<Rightarrow> client \<Rightarrow> app_state \<Rightarrow> api_error + ui_provider list" where
  "load_providers env renv c s =
     exchange_get env (\<lambda>ps. Array (map json_of_provider ps)) (handle_list_providers renv s) (decode_vec ui_provider_of) c"

definition load_api_keys :: "api_env \<Rightarrow> run_env \<Rightarrow> client \<Rightarrow> app_state \<Rightarrow> api_error + ui_api_key list" where
  "load_api_keys env renv c s =
     exchange_get env (\<lambda>ks. Array (map json_of_api_key ks)) (handle_list_api_keys renv s) (decode_vec ui_api_key_of) c"

section \<open>What reading gives back\<close>

lemma decode_items_map:
  assumes "\<And>m y. dec (enc m) = Some y \<Longrightarrow> y = f m"
  shows "decode_items dec (map enc ms) = Some ys \<Longrightarrow> ys = map f ms"
  by (induction ms arbitrary: ys) (auto simp: bind_eq_Some_conv dest: assms)

lemma decode_vec_map:
  assumes "\<And>m y. dec (enc m) = Some y \<Longrightarrow> y = f m"
  shows "decode_vec dec (Array (map enc ms)) = Some ys \<Longrightarrow> ys = map f ms"
  using decode_items_map [OF assms] by simp

lemma as_i64_jint_Some: "as_i64 (jint i) = Some j \<Longrightarrow> j = i"
  by (simp add: jint_def split: if_splits)

lemma jint_not_null [simp]: "jint i \<noteq> Null"
  by (simp add: jint_def)

lemma ui_read:
  "ui_model_of (json_of_model m) = Some x \<Longrightarrow> x = ui_model m"
  "ui_provider_of (json_of_provider p) = Some y \<Longrightarrow> y = ui_provider p"
  "ui_api_key_of (json_of_api_key k) = Some z \<Longrightarrow> z = ui_api_key k"
  by (auto simp: json_of_model_def ui_model_of_def ui_model_def json_of_provider_def ui_provider_of_def ui_provider_def
      json_of_api_key_def ui_api_key_of_def ui_api_key_def req_field_def opt_field_def default_field_def bind_eq_Some_conv
      jopt_def dest!: as_i64_jint_Some split: option.splits if_splits)

text \<open>An answer that is not an error is the handler's, whatever the call.\<close>

lemma error_status: "statuses_ok (Inl (st, e) :: http_error + nat \<times> 'r) \<Longrightarrow> \<not> resp_ok st"
  by (simp add: statuses_ok_def)

lemma wire_law: "codec_law (ap_from_slice env) (ap_to_vec env) \<Longrightarrow>
    \<exists>t. ap_to_vec env w = Inr t \<and> ap_from_slice env t = Some w"
  by (auto simp: codec_law_def)

definition refused_status :: "http_error \<Rightarrow> bool" where
  "refused_status e \<longleftrightarrow> \<not> resp_ok (fst e)"

lemma failing_refused: "errs failing r \<Longrightarrow> errs refused_status r"
  by (auto simp: errs_def failing_def refused_status_def resp_ok_def)

lemma exchange_get_Inr:
  assumes "codec_law (ap_from_slice env) (ap_to_vec env)" and "errs refused_status r"
    and "exchange_get env enc r dec' c = Inr x"
  shows "\<exists>a. r = Inr a \<and> dec' (enc a) = Some x"
proof (cases r)
  case (Inl err)
  obtain st e where e: "err = (st, e)" by (cases err)
  obtain t where "ap_to_vec env (json_of_error e) = Inr t" using wire_law [OF assms(1)] by blast
  moreover have "\<not> resp_ok st" using assms(2) Inl e by (auto simp: errs_def refused_status_def)
  ultimately show ?thesis
    using assms(3) by (simp add: Inl e exchange_get_def reply_of_def json_reply_def api_get_def)
next
  case (Inr a)
  obtain t where "ap_to_vec env (enc a) = Inr t" "ap_from_slice env t = Some (enc a)"
    using wire_law [OF assms(1)] by blast
  then show ?thesis
    using assms(3) by (auto simp: Inr exchange_get_def reply_of_def json_reply_def api_get_def resp_ok_def
        decode_body_def decode_text_def split: option.splits)
qed

lemma exchange_get_ok:
  assumes "codec_law (ap_from_slice env) (ap_to_vec env)" and "dec' (enc a) = Some x"
  shows "exchange_get env enc (Inr a) dec' c = Inr x"
proof -
  obtain t where "ap_to_vec env (enc a) = Inr t" "ap_from_slice env t = Some (enc a)"
    using wire_law [OF assms(1)] by blast
  then show ?thesis
    by (simp add: exchange_get_def reply_of_def json_reply_def api_get_def resp_ok_def decode_body_def decode_text_def assms(2))
qed

lemma exchange_delete_ok: "resp_ok st \<Longrightarrow> exchange_delete env (Inr st) c = Inr ()"
  by (simp add: exchange_delete_def api_delete_def)

lemma exchange_delete_Inr:
  assumes "codec_law (ap_from_slice env) (ap_to_vec env)" and "errs failing r" and "exchange_delete env r c = Inr u"
  shows "\<exists>st. r = Inr st"
proof (cases r)
  case (Inl err)
  obtain st e where e: "err = (st, e)" by (cases err)
  obtain t where "ap_to_vec env (json_of_error e) = Inr t" using wire_law [OF assms(1)] by blast
  moreover have "\<not> resp_ok st" using assms(2) Inl e by (auto simp: errs_def failing_def resp_ok_def)
  ultimately show ?thesis
    using assms(3) by (simp add: Inl e exchange_delete_def json_reply_def api_delete_def)
qed simp

lemma exchange_write_Inr:
  assumes "codec_law (ap_from_slice env) (ap_to_vec env)" and "\<And>q. statuses_ok (fst (handler q s))"
  shows "exchange_post env refused dec enc handler dec' call c s = (Inr x, s')
      \<Longrightarrow> \<exists>q st a. handler q s = (Inr (st, a), s') \<and> dec' (enc a) = Some x"
    and "exchange_put env refused dec enc handler dec' call c s = (Inr x, s')
      \<Longrightarrow> \<exists>q st a. handler q s = (Inr (st, a), s') \<and> dec' (enc a) = Some x"
proof -
  have reply: "\<exists>st a. r = Inr (st, a) \<and> dec' (enc a) = Some x"
    if "handler q s = (r, s1)" "reply_of (ap_to_vec env) enc r = (st, t)"
      "fst (api_post env dec' (Inr (st, Inr t)) c) = Inr x \<or> fst (api_put env dec' (Inr (st, Inr t)) c) = Inr x"
    for q r s1 st t
  proof (cases r)
    case (Inl err)
    obtain st' e where e: "err = (st', e)" by (cases err)
    obtain t' where "ap_to_vec env (json_of_error e) = Inr t'" using wire_law [OF assms(1)] by blast
    moreover have "\<not> resp_ok st'" using assms(2) [of q] by (simp add: that(1) Inl e statuses_ok_def)
    ultimately show ?thesis
      using that(2,3) by (auto simp: Inl e reply_of_def json_reply_def api_post_def api_put_def)
  next
    case (Inr ok)
    obtain st' a where a: "ok = (st', a)" by (cases ok)
    obtain t' where "ap_to_vec env (enc a) = Inr t'" "ap_from_slice env t' = Some (enc a)"
      using wire_law [OF assms(1)] by blast
    moreover have "resp_ok st'" using assms(2) [of q] by (simp add: that(1) Inr a statuses_ok_def)
    ultimately show ?thesis
      using that(2,3) by (auto simp: Inr a reply_of_def json_reply_def api_post_def api_put_def decode_body_def decode_text_def
          split: option.splits)
  qed
  have refusal: "fst (api_post env dec' (Inr (st, Inr refused)) c) \<noteq> Inr x"
      "fst (api_put env dec' (Inr (st, Inr refused)) c) \<noteq> Inr x" if "st = 400 \<or> st = 422" for st
    using that by (auto simp: api_post_def api_put_def resp_ok_def)
  show "exchange_post env refused dec enc handler dec' call c s = (Inr x, s')
      \<Longrightarrow> \<exists>q st a. handler q s = (Inr (st, a), s') \<and> dec' (enc a) = Some x"
    using reply refusal(1) by (fastforce simp: exchange_post_def json_endpoint_def Let_def split: prod.splits option.splits)
  show "exchange_put env refused dec enc handler dec' call c s = (Inr x, s')
      \<Longrightarrow> \<exists>q st a. handler q s = (Inr (st, a), s') \<and> dec' (enc a) = Some x"
    using reply refusal(2) by (fastforce simp: exchange_put_def json_endpoint_def Let_def split: prod.splits option.splits)
qed

section \<open>A list on the screen\<close>

text \<open>
  A table of rows, kept by a key, that the server lists in the order of a column, and what the
  console shows of a row. The shown list after a change of one row against the list of the
  changed table.
\<close>

locale table_view =
  fixes row_key :: "'r \<Rightarrow> string" and sort_by :: "'r \<Rightarrow> 'o::linorder" and key :: "'a \<Rightarrow> string"
    and view :: "'r \<Rightarrow> 'a"
  assumes key_view: "key (view r) = row_key r"
begin

lemma shown_insert: "mset (map view (sort_key sort_by rs) @ [view r]) = mset (map view (sort_key sort_by (rs @ [r])))"
  by simp

lemma shown_delete:
  "filter (\<lambda>x. key x \<noteq> k) (map view (sort_key sort_by rs)) = map view (sort_key sort_by (tbl_delete row_key k rs))"
  by (simp add: filter_map comp_def key_view tbl_delete_def filter_sort)

lemma shown_patch:
  assumes "distinct (map row_key rs)" and "tbl_find row_key k rs = Some r"
  shows "patch_row key k (view (f r)) (map view (sort_key sort_by rs))
    = map (\<lambda>x. view (if row_key x = k then f x else x)) (sort_key sort_by rs)"
proof -
  have "x = r" if "x \<in> set rs" "row_key x = k" for x
    using that assms tbl_find_SomeD [OF assms(2)] by (metis distinct_map inj_on_def)
  then show ?thesis by (auto simp: patch_row_def key_view)
qed

lemma shown_update:
  assumes "distinct (map row_key rs)" and "tbl_find row_key k rs = Some r"
  shows "mset (patch_row key k (view (f r)) (map view (sort_key sort_by rs)))
    = mset (map view (sort_key sort_by (tbl_update row_key k f rs)))"
proof -
  have "mset (map (\<lambda>x. view (if row_key x = k then f x else x)) (sort_key sort_by rs))
      = image_mset (\<lambda>x. view (if row_key x = k then f x else x)) (mset rs)" by simp
  also have "\<dots> = mset (map view (sort_key sort_by (tbl_update row_key k f rs)))"
    by (simp add: tbl_update_def image_mset.compositionality comp_def)
  finally show ?thesis by (simp add: shown_patch [OF assms])
qed

lemma shown_update_in_place:
  assumes "distinct (map row_key rs)" and "tbl_find row_key k rs = Some r" and "\<And>x. sort_by (f x) = sort_by x"
  shows "patch_row key k (view (f r)) (map view (sort_key sort_by rs))
    = map view (sort_key sort_by (tbl_update row_key k f rs))"
proof -
  define g where "g x = (if row_key x = k then f x else x)" for x
  have same: "sort_by (g x) = sort_by x" for x using assms(3) by (simp add: g_def)
  have insort: "insort_key sort_by (g x) (map g ys) = map g (insort_key sort_by x ys)" for x ys
    by (induction ys) (simp_all add: same)
  have "sort_key sort_by (map g ys) = map g (sort_key sort_by ys)" for ys
    by (induction ys) (simp_all add: insort)
  then have "sort_key sort_by (tbl_update row_key k f rs) = map g (sort_key sort_by rs)"
    by (simp add: tbl_update_def flip: g_def)
  then show ?thesis by (simp add: shown_patch [OF assms(1,2)] g_def)
qed

end

definition shown_model :: "db_env \<Rightarrow> model_row \<Rightarrow> ui_model" where
  "shown_model env r = ui_model (model_response_from (row_to_model env r))"

definition shown_provider :: "db_env \<Rightarrow> provider_row \<Rightarrow> ui_provider" where
  "shown_provider env r = ui_provider (provider_response_from (row_to_provider env r))"

definition shown_key :: "db_env \<Rightarrow> api_key_row \<Rightarrow> ui_api_key" where
  "shown_key env r = (let k = row_to_api_key env r in ui_api_key (api_key_response_of (masked k) k))"

interpretation model_list: table_view mr_name mr_name uim_name "shown_model env" for env
  by unfold_locales (simp add: shown_model_def ui_model_def model_response_from_def row_to_model_def)

interpretation provider_list: table_view pr_id pr_name uip_id "shown_provider env" for env
  by unfold_locales (simp add: shown_provider_def ui_provider_def provider_response_from_def row_to_provider_def)

interpretation key_list: table_view kr_id kr_created_at uik_id "shown_key env" for env
  by unfold_locales (simp add: shown_key_def ui_api_key_def api_key_response_of_def row_to_api_key_def Let_def)

text \<open>What a list shows is decided by the rows and the calendar alone.\<close>

lemma list_errors:
  "errs failing (handle_list_models renv s)" "errs failing (handle_list_providers renv s)"
  "errs failing (handle_list_api_keys renv s)"
  by (auto simp: handle_list_models_def handle_list_providers_def handle_list_api_keys_def intro!: errs_intros)

lemma db_ok:
  "db_or_http e r = Inr x \<longleftrightarrow> r = Inr (Inr x)" "db_or_internal e r = Inr x \<longleftrightarrow> r = Inr (Inr x)"
  by (auto simp: db_or_http_def db_or_internal_def split: sum.splits)

lemma loads:
  assumes "codec_law (ap_from_slice env) (ap_to_vec env)"
  shows "load_models env renv c s = Inr ms \<Longrightarrow>
      ms = map (shown_model (re_db renv)) (sort_key mr_name (models (db s)))"
    and "load_providers env renv c s = Inr ps \<Longrightarrow>
      ps = map (shown_provider (re_db renv)) (sort_key pr_name (providers (db s)))"
    and "load_api_keys env renv c s = Inr ks \<Longrightarrow>
      ks = map (shown_key (re_db renv)) (sort_key kr_created_at (api_keys (db s)))"
proof -
  note inr = exchange_get_Inr [OF assms failing_refused [OF list_errors(1)]] exchange_get_Inr [OF assms failing_refused [OF list_errors(2)]]
    exchange_get_Inr [OF assms failing_refused [OF list_errors(3)]]
  note read = decode_items_map [of ui_model_of json_of_model ui_model, OF ui_read(1)]
    decode_items_map [of ui_provider_of json_of_provider ui_provider, OF ui_read(2)]
    decode_items_map [of ui_api_key_of json_of_api_key ui_api_key, OF ui_read(3)]
  note defs = list_models_def list_providers_def list_api_keys_def run_db_read_def db_ok res_simps
  have listed: "handle_list_models renv s = Inr a \<Longrightarrow>
        map ui_model a = map (shown_model (re_db renv)) (sort_key mr_name (models (db s)))"
      "handle_list_providers renv s = Inr b \<Longrightarrow>
        map ui_provider b = map (shown_provider (re_db renv)) (sort_key pr_name (providers (db s)))"
      "handle_list_api_keys renv s = Inr d \<Longrightarrow>
        map ui_api_key d = map (shown_key (re_db renv)) (sort_key kr_created_at (api_keys (db s)))" for a b d
    by (auto simp: handle_list_models_def handle_list_providers_def handle_list_api_keys_def defs
        shown_model_def shown_provider_def shown_key_def Let_def dest!: sym [of "Inr x" "and_then r f" for x r f])
  show "load_models env renv c s = Inr ms \<Longrightarrow>
      ms = map (shown_model (re_db renv)) (sort_key mr_name (models (db s)))"
    using read(1) listed(1) by (auto simp: load_models_def dest!: inr(1))
  show "load_providers env renv c s = Inr ps \<Longrightarrow>
      ps = map (shown_provider (re_db renv)) (sort_key pr_name (providers (db s)))"
    using read(2) listed(2) by (auto simp: load_providers_def dest!: inr(2))
  show "load_api_keys env renv c s = Inr ks \<Longrightarrow>
      ks = map (shown_key (re_db renv)) (sort_key kr_created_at (api_keys (db s)))"
    using read(3) listed(3) by (auto simp: load_api_keys_def dest!: inr(3))
qed


section \<open>What a change does to the rows\<close>

text \<open>The clock of an operation can be read back from the table.\<close>

definition clock_ok :: "db_env \<Rightarrow> bool" where
  "clock_ok env \<longleftrightarrow> from_ts_law (env_from_ts env) \<and> env_from_ts env (timestamp (env_now env)) \<noteq> None"

lemma law_read: "from_ts_law f \<Longrightarrow> f t = Some d \<Longrightarrow> timestamp d = t"
proof -
  assume "from_ts_law f" "f t = Some d"
  then have "d = t * 1000000000" by (auto simp: from_ts_law_def)
  then show "timestamp d = t" by (simp add: timestamp_def)
qed

lemma ts_read:
  assumes "from_ts_law (env_from_ts env)" "env_from_ts env t = Some d"
  shows "timestamp (ts env (timestamp d)) = timestamp d"
  using law_read [OF assms] assms(2) by (simp add: ts_def)

lemma clock_read: "clock_ok env \<Longrightarrow> timestamp (ts env (timestamp (env_now env))) = timestamp (env_now env)"
  by (auto simp: clock_ok_def ts_def dest: law_read)

lemma ts_read_back:
  assumes "from_ts_law (env_from_ts env)"
  shows "timestamp (ts env (timestamp (ts env t))) = timestamp (ts env t)"
proof (cases "env_from_ts env t")
  case None
  then show ?thesis using assms by (simp add: ts_def unix_epoch_def timestamp_def from_ts_law_def)
next
  case (Some d)
  then show ?thesis using ts_read [OF assms Some] by (simp add: ts_def)
qed

lemma shown_same_calendar:
  assumes "env_from_ts env = env_from_ts env'"
  shows "shown_model env = shown_model env'" "shown_provider env = shown_provider env'" "shown_key env = shown_key env'"
  using assms by (simp_all add: fun_eq_iff shown_model_def shown_provider_def shown_key_def row_to_model_def
      row_to_provider_def row_to_api_key_def ts_def opt_ts_def cong: option.case_cong map_option_cong)

lemma create_model_rows:
  assumes "handle_create_model renv rid q s = (Inr (st, a), s')" and "clock_ok (re_db renv)"
  shows "\<exists>r. models (db s') = models (db s) @ [r] \<and> ui_model a = shown_model (re_db renv) r"
proof -
  obtain m v s1 where w: "run_db_write renv (insert_model (re_db renv) m) s = (Inr (Inr v), s1)"
    and a: "a = model_response_from v" "db s' = db s1"
    using assms(1) by (auto simp: handle_create_model_def db_ok audit_log_def send_log_def split: sum.splits prod.splits)
  then have "models (db s1) = models (db s) @ [model_to_row v]"
    and "timestamp (model_created_at v) = timestamp (env_now (re_db renv))"
    and "timestamp (model_updated_at v) = timestamp (env_now (re_db renv))"
    by (auto simp: run_db_write_def run_blocking_Inr insert_model_def insert_model_row_def transact_def Let_def
        res_simps split: if_splits prod.splits sum.splits)
  moreover have "ui_model a = shown_model (re_db renv) (model_to_row v)"
    using calculation(2,3) clock_read [OF assms(2)]
    by (simp add: a shown_model_def ui_model_def model_response_from_def row_to_model_def model_to_row_def)
  ultimately show ?thesis using a(2) by auto
qed

lemma update_model_rows:
  assumes "handle_update_model renv rid n q s = (Inr a, s')" and "clock_ok (re_db renv)" and "trim n = n"
  shows "\<exists>r f. tbl_find mr_name n (models (db s)) = Some r \<and> models (db s') = tbl_update mr_name n f (models (db s))
    \<and> ui_model a = shown_model (re_db renv) (f r) \<and> (\<forall>x. mr_name (f x) = mr_name x)"
proof -
  obtain u v s1 where w: "run_db_write renv (update_model (re_db renv) u) s = (Inr (Inr v), s1)"
    and a: "a = model_response_from v" "db s' = db s1" and n: "mu_name u = n"
    using assms(1,3) by (auto simp: handle_update_model_def db_ok audit_log_def send_log_def http_err_def res_simps
        split: sum.splits prod.splits)
  let ?f = "\<lambda>r. r\<lparr>mr_provider_id := model_provider_id v, mr_upstream := model_upstream v,
      mr_enabled := of_bool (model_enabled v), mr_updated_at := timestamp (model_updated_at v)\<rparr>"
  obtain r where r: "tbl_find mr_name n (models (db s)) = Some r" "v = patch_model u (env_now (re_db renv)) (row_to_model (re_db renv) r)"
    and "models (db s1) = tbl_update mr_name n ?f (models (db s))"
    using w n by (auto simp: run_db_write_def run_blocking_Inr update_model_def update_model_row_def transact_def Let_def
        res_simps split: if_splits prod.splits sum.splits)
  moreover have "ui_model a = shown_model (re_db renv) (?f r)"
    using clock_read [OF assms(2)] unfolding a r(2)
    by (simp add: shown_model_def ui_model_def model_response_from_def row_to_model_def patch_model_def
        Let_def split: option.split)
  ultimately show ?thesis using a(2) by (intro exI [of _ r] exI [of _ ?f]) simp
qed

lemma delete_model_rows:
  "handle_delete_model renv rid n s = (Inr st, s') \<Longrightarrow> models (db s') = tbl_delete mr_name n (models (db s))"
  by (auto simp: handle_delete_model_def db_ok audit_log_def send_log_def run_db_write_def run_blocking_Inr
      delete_model_def transact_def res_simps split: if_splits prod.splits sum.splits)

lemma create_provider_rows:
  assumes "handle_create_provider renv dns alnum parse rid q s = (Inr (st, a), s')" and "clock_ok (re_db renv)"
  shows "\<exists>r. providers (db s') = providers (db s) @ [r] \<and> ui_provider a = shown_provider (re_db renv) r"
proof -
  obtain p v s0 s1 where w: "run_db_write renv (insert_provider (re_db renv) p) s0 = (Inr (Inr v), s1)"
    and a: "a = provider_response_from v" "db s' = db s1" and "db s0 = db s"
    using assms(1) by (auto simp: handle_create_provider_def db_ok audit_log_def send_log_def Let_def
        split: sum.splits prod.splits if_splits dest!: check_ssrf_config_frame)
  then have "providers (db s1) = providers (db s) @ [provider_to_row v]"
    and "timestamp (prov_created_at v) = timestamp (env_now (re_db renv))"
    and "timestamp (prov_updated_at v) = timestamp (env_now (re_db renv))"
    using w by (auto simp: run_db_write_def run_blocking_Inr insert_provider_def insert_provider_row_def transact_def Let_def
        res_simps split: if_splits prod.splits sum.splits)
  moreover have "ui_provider a = shown_provider (re_db renv) (provider_to_row v)"
    using calculation(2,3) clock_read [OF assms(2)]
    by (simp add: a shown_provider_def ui_provider_def provider_response_from_def row_to_provider_def provider_to_row_def)
  ultimately show ?thesis using a(2) by auto
qed

lemma update_provider_rows:
  assumes "handle_update_provider renv dns alnum parse rid i q s = (Inr a, s')" and "clock_ok (re_db renv)"
  shows "\<exists>r f. tbl_find pr_id i (providers (db s)) = Some r \<and> providers (db s') = tbl_update pr_id i f (providers (db s))
    \<and> ui_provider a = shown_provider (re_db renv) (f r)"
proof -
  obtain u v s0 s1 where w: "run_db_write renv (update_provider (re_db renv) u) s0 = (Inr (Inr v), s1)"
    and a: "a = provider_response_from v" "db s' = db s1" and i: "pu_id u = i"
    and db0: "db s0 = db s"
    using assms(1) by (auto simp: handle_update_provider_def db_ok audit_log_def send_log_def forget_provider_def
        split: sum.splits prod.splits option.splits dest!: check_ssrf_config_frame)
  let ?f = "\<lambda>r. r\<lparr>pr_name := prov_name v, pr_type := to_db (prov_type v), pr_base_url := prov_base_url v,
      pr_api_key := prov_api_key v, pr_enabled := of_bool (prov_enabled v),
      pr_updated_at := timestamp (prov_updated_at v)\<rparr>"
  obtain r where r: "tbl_find pr_id i (providers (db s)) = Some r"
      "v = patch_provider u (env_now (re_db renv)) (row_to_provider (re_db renv) r)"
    and rows: "providers (db s1) = tbl_update pr_id (prov_id v) ?f (providers (db s))"
    using w i db0 by (auto simp: run_db_write_def run_blocking_Inr update_provider_def transact_def Let_def
        res_simps split: if_splits prod.splits sum.splits)
  have "pr_id r = i" using tbl_find_SomeD [OF r(1)] by blast
  then have "prov_id v = i" unfolding r(2) by (simp add: patch_provider_def row_to_provider_def Let_def split: option.split)
  moreover have "ui_provider a = shown_provider (re_db renv) (?f r)"
    using clock_read [OF assms(2)] unfolding a r(2)
    by (simp add: shown_provider_def ui_provider_def provider_response_from_def row_to_provider_def patch_provider_def
        Let_def split: option.split)
  ultimately show ?thesis using a(2) r(1) rows by (intro exI [of _ r] exI [of _ ?f]) simp
qed

lemma delete_provider_rows:
  "handle_delete_provider renv rid i s = (Inr st, s') \<Longrightarrow> providers (db s') = tbl_delete pr_id i (providers (db s))"
  by (auto simp: handle_delete_provider_def db_ok audit_log_def send_log_def forget_provider_def run_db_write_def
      run_blocking_Inr delete_provider_def delete_provider_row_def transact_def res_simps
      split: if_splits prod.splits sum.splits)

lemma update_key_rows:
  assumes "handle_update_api_key renv rid i n x e s = (Inr a, s')" and "clock_ok (re_db renv)"
  shows "\<exists>r f. tbl_find kr_id i (api_keys (db s)) = Some r \<and> api_keys (db s') = tbl_update kr_id i f (api_keys (db s))
    \<and> ui_api_key a = shown_key (re_db renv) (f r) \<and> (\<forall>x. kr_created_at (f x) = kr_created_at x)"
proof -
  obtain u v hash s1 where w: "run_db_write renv (update_api_key (re_db renv) u) s = (Inr (Inr (v, hash)), s1)"
    and a: "a = api_key_response_of (masked v) v" "db s' = db s1" and i: "ku_id u = i"
    and x: "update_expiry_field renv x = Inr (ku_expires_at u)"
    using assms(1) by (auto simp: handle_update_api_key_def db_ok audit_log_def send_log_def res_simps
        split: sum.splits prod.splits)
  let ?f = "\<lambda>r. r\<lparr>kr_name := key_name v, kr_enabled := of_bool (key_enabled v),
      kr_expires_at := map_option timestamp (key_expires_at v), kr_updated_at := timestamp (key_updated_at v)\<rparr>"
  obtain r where r: "tbl_find kr_id i (api_keys (db s)) = Some r"
      "v = patch_api_key u (env_now (re_db renv)) (row_to_api_key (re_db renv) r)"
    and rows: "api_keys (db s1) = tbl_update kr_id (key_id v) ?f (api_keys (db s))"
    using w i by (auto simp: run_db_write_def run_blocking_Inr update_api_key_def transact_def Let_def
        res_simps split: if_splits prod.splits sum.splits)
  have law: "from_ts_law (env_from_ts (re_db renv))" using assms(2) by (simp add: clock_ok_def)
  have "timestamp (ts (re_db renv) (timestamp dt)) = timestamp dt" if "ku_expires_at u = Some dt" for dt
  proof -
    have "dt = unix_epoch \<or> (\<exists>t. env_from_ts (re_db renv) t = Some dt)"
      using x that by (auto simp: update_expiry_field_def map_transpose_def ok_or_def split: option.splits if_splits sum.splits)
    moreover have "env_from_ts (re_db renv) 0 = Some unix_epoch" using law by (simp add: from_ts_law_def unix_epoch_def)
    ultimately show ?thesis using ts_read [OF law] by blast
  qed
  then have expiry: "map_option timestamp (opt_ts (re_db renv) (map_option timestamp (key_expires_at v)))
      = map_option timestamp (key_expires_at v)"
    using ts_read_back [OF law] unfolding r(2)
    by (auto simp: patch_api_key_def row_to_api_key_def opt_ts_def Let_def option.map_comp comp_def split: option.split)
  have "kr_id r = i" using tbl_find_SomeD [OF r(1)] by blast
  then have "key_id v = i" unfolding r(2) by (simp add: patch_api_key_def row_to_api_key_def Let_def split: option.split)
  moreover have fields: "key_created_at v = ts (re_db renv) (kr_created_at r)" "key_updated_at v = env_now (re_db renv)"
      "key_display v = kr_display r" "key_id v = kr_id r"
    unfolding r(2) by (simp_all add: patch_api_key_def row_to_api_key_def Let_def split: option.split)
  have "ui_api_key a = shown_key (re_db renv) (?f r)"
    using clock_read [OF assms(2)] fields expiry
    by (simp add: a shown_key_def ui_api_key_def api_key_response_of_def row_to_api_key_def masked_def Let_def)
  ultimately show ?thesis using a(2) r(1) rows by (intro exI [of _ r] exI [of _ ?f]) simp
qed

lemma delete_key_rows:
  "handle_delete_api_key renv rid i s = (Inr st, s') \<Longrightarrow> api_keys (db s') = tbl_delete kr_id i (api_keys (db s))"
  by (auto simp: handle_delete_api_key_def db_ok audit_log_def send_log_def run_db_write_def run_blocking_Inr
      delete_api_key_def transact_def res_simps split: if_splits prod.splits sum.splits)


section \<open>A change and the list behind it\<close>

text \<open>Saving a form, as far as the server's answer; the change it makes is the handler's.\<close>

definition save_model ::
    "api_env \<Rightarrow> run_env \<Rightarrow> string \<Rightarrow> string \<Rightarrow> client \<Rightarrow> string option \<Rightarrow> model_form \<Rightarrow> app_state
      \<Rightarrow> (api_error + ui_model) \<times> app_state" where
  "save_model env renv refused rid c edit d s = (case edit of
     None \<Rightarrow> exchange_post env refused create_model_of json_of_model (handle_create_model renv rid) ui_model_of
       (model_save_call env edit d) c s
   | Some n \<Rightarrow> exchange_put env refused update_model_of json_of_model
       (\<lambda>q s. ok_200 (handle_update_model renv rid n q s)) ui_model_of (model_save_call env edit d) c s)"

definition save_provider ::
    "api_env \<Rightarrow> run_env \<Rightarrow> resolver \<Rightarrow> (string \<Rightarrow> bool) \<Rightarrow> url_parse \<Rightarrow> string \<Rightarrow> string \<Rightarrow> client \<Rightarrow> string option
      \<Rightarrow> provider_form_data \<Rightarrow> app_state \<Rightarrow> (api_error + ui_provider) \<times> app_state" where
  "save_provider env renv dns alnum parse refused rid c edit d s = (case edit of
     None \<Rightarrow> exchange_post env refused create_provider_of json_of_provider (handle_create_provider renv dns alnum parse rid)
       ui_provider_of (provider_save_call env edit d) c s
   | Some i \<Rightarrow> exchange_put env refused update_provider_of json_of_provider
       (\<lambda>q s. ok_200 (handle_update_provider renv dns alnum parse rid i q s)) ui_provider_of
       (provider_save_call env edit d) c s)"

definition save_key ::
    "api_env \<Rightarrow> js_env \<Rightarrow> run_env \<Rightarrow> string \<Rightarrow> string \<Rightarrow> client \<Rightarrow> string option \<Rightarrow> key_form \<Rightarrow> app_state
      \<Rightarrow> (api_error + ui_api_key) \<times> app_state" where
  "save_key env J renv refused rid c edit d s = (case edit of
     None \<Rightarrow> exchange_post env refused create_api_key_of json_of_api_key (\<lambda>(n, x). handle_create_api_key renv rid n x)
       ui_api_key_of (key_save_call env J edit d) c s
   | Some i \<Rightarrow> exchange_put env refused update_api_key_of json_of_api_key
       (\<lambda>(n, x, e) s. ok_200 (handle_update_api_key renv rid i n x e s)) ui_api_key_of
       (key_save_call env J edit d) c s)"

definition answered :: "'a \<Rightarrow> 'a save_state" where
  "answered x = save_state_new\<lparr>sv_value := Some (Inr x)\<rparr>"

lemma ok_200_Inr: "ok_200 r = (Inr (st, a), s') \<Longrightarrow> r = (Inr a, s')"
  by (auto simp: ok_200_def split: prod.splits sum.splits)

lemma effect_rows:
  "fst (snd (attach_save_effect key None False (answered x) items)) = items @ [x]"
  "fst (snd (attach_save_effect key (Some k) False (answered x) items)) = patch_row key k x items"
  "fst (snd (key_save_effect (Some k) False (answered z) ks raw)) = patch_row uik_id k z ks"
  "fst (snd (delete_effect key k now text (answered ()) items tst)) = filter (\<lambda>r. key r \<noteq> k) items"
  by (simp_all add: answered_def save_state_new_def attach_save_effect_def key_save_effect_def delete_effect_def)

text \<open>The list on the screen, given the rows of a table.\<close>

abbreviation model_rows :: "db_env \<Rightarrow> app_state \<Rightarrow> ui_model list" where
  "model_rows env s \<equiv> map (shown_model env) (sort_key mr_name (models (db s)))"

abbreviation provider_rows :: "db_env \<Rightarrow> app_state \<Rightarrow> ui_provider list" where
  "provider_rows env s \<equiv> map (shown_provider env) (sort_key pr_name (providers (db s)))"

abbreviation key_rows :: "db_env \<Rightarrow> app_state \<Rightarrow> ui_api_key list" where
  "key_rows env s \<equiv> map (shown_key env) (sort_key kr_created_at (api_keys (db s)))"

definition saved_rows :: "('a \<Rightarrow> string) \<Rightarrow> string option \<Rightarrow> 'a \<Rightarrow> 'a list \<Rightarrow> 'a list" where
  "saved_rows key edit x items = fst (snd (attach_save_effect key edit False (answered x) items))"

lemma saved_rows_simps [simp]:
  "saved_rows key None x items = items @ [x]" "saved_rows key (Some k) x items = patch_row key k x items"
  by (simp_all add: saved_rows_def effect_rows)

lemma saved_model:
  assumes "codec_law (ap_from_slice env) (ap_to_vec env)" and "db_wf (db s)" and "clock_ok (re_db renv)"
    and "save_model env renv refused rid c edit d s = (Inr x, s')" and "\<And>n. edit = Some n \<Longrightarrow> trim n = n"
  shows "mset (saved_rows uim_name edit x (model_rows (re_db renv) s)) = mset (model_rows (re_db renv) s')"
    and "edit \<noteq> None \<Longrightarrow> saved_rows uim_name edit x (model_rows (re_db renv) s) = model_rows (re_db renv) s'"
proof -
  have "mset (saved_rows uim_name edit x (model_rows (re_db renv) s)) = mset (model_rows (re_db renv) s')
    \<and> (edit \<noteq> None \<longrightarrow> saved_rows uim_name edit x (model_rows (re_db renv) s) = model_rows (re_db renv) s')"
  proof (cases edit)
    case None
    obtain q st a where a: "handle_create_model renv rid q s = (Inr (st, a), s')"
        "ui_model_of (json_of_model a) = Some x"
      using exchange_write_Inr(1) [OF assms(1) create_model_statuses assms(4) [unfolded save_model_def None option.case]]
      by blast
    then show ?thesis
      using create_model_rows [OF a(1) assms(3)] model_list.shown_insert by (auto simp: None dest!: ui_read(1))
  next
    case (Some n)
    obtain q a where a: "handle_update_model renv rid n q s = (Inr a, s')" "ui_model_of (json_of_model a) = Some x"
      using exchange_write_Inr(2) [OF assms(1) update_model_statuses assms(4) [unfolded save_model_def Some option.case]]
      by (blast dest: ok_200_Inr)
    then obtain r f where "tbl_find mr_name n (models (db s)) = Some r" "\<And>x. mr_name (f x) = mr_name x"
        "models (db s') = tbl_update mr_name n f (models (db s))" "ui_model a = shown_model (re_db renv) (f r)"
      using update_model_rows [OF a(1) assms(3) assms(5) [OF Some]] by blast
    moreover have "distinct (map mr_name (models (db s)))" using assms(2) by (simp add: db_wf_def)
    ultimately have "saved_rows uim_name edit x (model_rows (re_db renv) s) = model_rows (re_db renv) s'"
      using model_list.shown_update_in_place [of "models (db s)" n r f] by (simp add: Some ui_read(1) [OF a(2)])
    then show ?thesis by simp
  qed
  then show "mset (saved_rows uim_name edit x (model_rows (re_db renv) s)) = mset (model_rows (re_db renv) s')"
    and "edit \<noteq> None \<Longrightarrow> saved_rows uim_name edit x (model_rows (re_db renv) s) = model_rows (re_db renv) s'" by blast+
qed

lemma saved_provider:
  assumes "codec_law (ap_from_slice env) (ap_to_vec env)" and "db_wf (db s)" and "clock_ok (re_db renv)"
    and "save_provider env renv dns alnum parse refused rid c edit d s = (Inr x, s')"
  shows "mset (saved_rows uip_id edit x (provider_rows (re_db renv) s)) = mset (provider_rows (re_db renv) s')"
proof (cases edit)
  case None
  obtain q st a where a: "handle_create_provider renv dns alnum parse rid q s = (Inr (st, a), s')"
      "ui_provider_of (json_of_provider a) = Some x"
    using exchange_write_Inr(1) [OF assms(1) create_provider_statuses assms(4) [unfolded save_provider_def None option.case]]
    by blast
  then show ?thesis
    using create_provider_rows [OF a(1) assms(3)] provider_list.shown_insert by (auto simp: None dest!: ui_read(2))
next
  case (Some i)
  obtain q a where a: "handle_update_provider renv dns alnum parse rid i q s = (Inr a, s')"
      "ui_provider_of (json_of_provider a) = Some x"
    using exchange_write_Inr(2) [OF assms(1) update_provider_statuses assms(4) [unfolded save_provider_def Some option.case]]
    by (blast dest: ok_200_Inr)
  then obtain r f where "tbl_find pr_id i (providers (db s)) = Some r"
      "providers (db s') = tbl_update pr_id i f (providers (db s))" "ui_provider a = shown_provider (re_db renv) (f r)"
    using update_provider_rows [OF a(1) assms(3)] by blast
  moreover have "distinct (map pr_id (providers (db s)))" using assms(2) by (simp add: db_wf_def)
  ultimately show ?thesis
    using provider_list.shown_update [of "providers (db s)" i r _ f] by (simp add: Some ui_read(2) [OF a(2)])
qed

lemma saved_key:
  assumes "codec_law (ap_from_slice env) (ap_to_vec env)" and "db_wf (db s)" and "clock_ok (re_db renv)"
    and "save_key env J renv refused rid c (Some i) d s = (Inr x, s')"
  shows "patch_row uik_id i x (key_rows (re_db renv) s) = key_rows (re_db renv) s'"
proof -
  have st: "statuses_ok (fst ((\<lambda>(n, x, e) s. ok_200 (handle_update_api_key renv rid i n x e s)) q s))" for q
    by (cases q) (simp add: update_key_statuses)
  obtain q b where "(\<lambda>(n, x, e) s. ok_200 (handle_update_api_key renv rid i n x e s)) q s = (Inr b, s')"
      "ui_api_key_of (json_of_api_key (snd b)) = Some x"
    using exchange_write_Inr(2) [OF assms(1) st assms(4) [unfolded save_key_def option.case]] by force
  then obtain n y e where a: "handle_update_api_key renv rid i n y e s = (Inr (snd b), s')"
    by (cases q; cases b) (auto dest: ok_200_Inr)
  then obtain r f where "tbl_find kr_id i (api_keys (db s)) = Some r" "\<And>x. kr_created_at (f x) = kr_created_at x"
      "api_keys (db s') = tbl_update kr_id i f (api_keys (db s))" "ui_api_key (snd b) = shown_key (re_db renv) (f r)"
    using update_key_rows [OF a assms(3)] by blast
  moreover have "distinct (map kr_id (api_keys (db s)))" using assms(2) by (simp add: db_wf_def)
  ultimately show ?thesis
    using key_list.shown_update_in_place [of "api_keys (db s)" i r f]
      ui_read(3) [OF \<open>ui_api_key_of (json_of_api_key (snd b)) = Some x\<close>] by simp
qed



lemma delete_errors:
  "errs failing (fst (handle_delete_model renv rid n s))" "errs failing (fst (handle_delete_provider renv rid i s))"
  "errs failing (fst (handle_delete_api_key renv rid k s))"
  unfolding handle_delete_model_def handle_delete_provider_def handle_delete_api_key_def
  by (auto intro!: errs_intros)

lemma deleted_rows:
  assumes "codec_law (ap_from_slice env) (ap_to_vec env)" and "exchange_delete env r c = Inr ()"
  shows "handle_delete_model renv rid k s = (r, s') \<Longrightarrow> models (db s') = tbl_delete mr_name k (models (db s))"
    and "handle_delete_provider renv rid k s = (r, s') \<Longrightarrow> providers (db s') = tbl_delete pr_id k (providers (db s))"
    and "handle_delete_api_key renv rid k s = (r, s') \<Longrightarrow> api_keys (db s') = tbl_delete kr_id k (api_keys (db s))"
proof -
  have ok: "errs failing r \<Longrightarrow> \<exists>st. r = Inr st" using exchange_delete_Inr [OF assms(1) _ assms(2)] by blast
  show "models (db s') = tbl_delete mr_name k (models (db s))" if "handle_delete_model renv rid k s = (r, s')"
    using ok delete_errors(1) [of renv rid k s] that by (auto dest: delete_model_rows)
  show "providers (db s') = tbl_delete pr_id k (providers (db s))" if "handle_delete_provider renv rid k s = (r, s')"
    using ok delete_errors(2) [of renv rid k s] that by (auto dest: delete_provider_rows)
  show "api_keys (db s') = tbl_delete kr_id k (api_keys (db s))" if "handle_delete_api_key renv rid k s = (r, s')"
    using ok delete_errors(3) [of renv rid k s] that by (auto dest: delete_key_rows)
qed

lemma loads_as:
  assumes "codec_law (ap_from_slice env) (ap_to_vec env)" and "env_from_ts (re_db renv) = env_from_ts e"
  shows "load_models env renv c s = Inr ms \<Longrightarrow> ms = model_rows e s"
    and "load_providers env renv c s = Inr ps \<Longrightarrow> ps = provider_rows e s"
    and "load_api_keys env renv c s = Inr ks \<Longrightarrow> ks = key_rows e s"
  by (auto simp flip: shown_same_calendar [OF assms(2)] dest!: loads [OF assms(1)])

section \<open>Properties\<close>

text \<open>
  C17: The console's lists do not drift from the server. A page that showed what the server listed,
  and changed one row through a dialog, shows the rows that a fresh fetch would show: after
  creating or editing a model or a provider, after editing an API key, and after deleting any of
  them. An edited model or key and every deletion also leave the rows in the order of the server;
  a new row stands at the end until the list is fetched again.
\<close>

theorem list_matches_refetch:
  assumes codec: "codec_law (ap_from_slice env) (ap_to_vec env)" and wf: "db_wf (db s)" and clk: "clock_ok (re_db renv)"
    and same: "env_from_ts (re_db renv0) = env_from_ts (re_db renv)" "env_from_ts (re_db renv1) = env_from_ts (re_db renv)"
  shows "(load_models env renv0 c s = Inr ms \<longrightarrow> load_models env renv1 c s' = Inr ms' \<longrightarrow>
      (\<forall>edit d x. save_model env renv refused rid c edit d s = (Inr x, s') \<longrightarrow> (\<forall>n. edit = Some n \<longrightarrow> trim n = n) \<longrightarrow>
        mset (saved_rows uim_name edit x ms) = mset ms' \<and> (edit \<noteq> None \<longrightarrow> saved_rows uim_name edit x ms = ms'))
      \<and> (\<forall>n r. handle_delete_model renv rid n s = (r, s') \<longrightarrow> exchange_delete env r c = Inr () \<longrightarrow>
        fst (snd (delete_effect uim_name n now text (answered ()) ms tst)) = ms'))
    \<and> (load_providers env renv0 c s = Inr ps \<longrightarrow> load_providers env renv1 c s' = Inr ps' \<longrightarrow>
      (\<forall>edit d x. save_provider env renv dns alnum parse refused rid c edit d s = (Inr x, s') \<longrightarrow>
        mset (saved_rows uip_id edit x ps) = mset ps')
      \<and> (\<forall>i r. handle_delete_provider renv rid i s = (r, s') \<longrightarrow> exchange_delete env r c = Inr () \<longrightarrow>
        fst (snd (delete_effect uip_id i now text (answered ()) ps tst)) = ps'))
    \<and> (load_api_keys env renv0 c s = Inr ks \<longrightarrow> load_api_keys env renv1 c s' = Inr ks' \<longrightarrow>
      (\<forall>i d x raw. save_key env J renv refused rid c (Some i) d s = (Inr x, s') \<longrightarrow>
        fst (snd (key_save_effect (Some i) False (answered x) ks raw)) = ks')
      \<and> (\<forall>i r. handle_delete_api_key renv rid i s = (r, s') \<longrightarrow> exchange_delete env r c = Inr () \<longrightarrow>
        fst (snd (delete_effect uik_id i now text (answered ()) ks tst)) = ks'))"
proof (intro conjI impI, goal_cases)
  case 1
  have rows: "ms = model_rows (re_db renv) s" "ms' = model_rows (re_db renv) s'"
    by (rule loads_as(1) [OF codec same(1) 1(1)], rule loads_as(1) [OF codec same(2) 1(2)])
  show ?case
    unfolding rows
    by (intro allI impI conjI saved_model [OF codec wf clk]; blast)
next
  case 2
  have rows: "ms = model_rows (re_db renv) s" "ms' = model_rows (re_db renv) s'"
    by (rule loads_as(1) [OF codec same(1) 2(1)], rule loads_as(1) [OF codec same(2) 2(2)])
  show ?case
    unfolding rows effect_rows model_list.shown_delete by (auto dest: deleted_rows(1) [OF codec, rotated])
next
  case 3
  have rows: "ps = provider_rows (re_db renv) s" "ps' = provider_rows (re_db renv) s'"
    by (rule loads_as(2) [OF codec same(1) 3(1)], rule loads_as(2) [OF codec same(2) 3(2)])
  show ?case
    unfolding rows by (intro allI impI) (rule saved_provider [OF codec wf clk])
next
  case 4
  have rows: "ps = provider_rows (re_db renv) s" "ps' = provider_rows (re_db renv) s'"
    by (rule loads_as(2) [OF codec same(1) 4(1)], rule loads_as(2) [OF codec same(2) 4(2)])
  show ?case
    unfolding rows effect_rows provider_list.shown_delete by (auto dest: deleted_rows(2) [OF codec, rotated])
next
  case 5
  have rows: "ks = key_rows (re_db renv) s" "ks' = key_rows (re_db renv) s'"
    by (rule loads_as(3) [OF codec same(1) 5(1)], rule loads_as(3) [OF codec same(2) 5(2)])
  show ?case
    unfolding rows effect_rows by (intro allI impI) (rule saved_key [OF codec wf clk])
next
  case 6
  have rows: "ks = key_rows (re_db renv) s" "ks' = key_rows (re_db renv) s'"
    by (rule loads_as(3) [OF codec same(1) 6(1)], rule loads_as(3) [OF codec same(2) 6(2)])
  show ?case
    unfolding rows effect_rows key_list.shown_delete by (auto dest: deleted_rows(3) [OF codec, rotated])
qed



section \<open>Witnesses\<close>

theorem list_matches_refetch_witness:
  "case handle_delete_model demo_run ''r'' ''gpt'' demo_state of (r, s') \<Rightarrow>
     \<exists>ms ms'. load_models demo_api demo_run demo_client demo_state = Inr ms \<and> length ms = 1
       \<and> load_models demo_api demo_run demo_client s' = Inr ms'
       \<and> fst (snd (delete_effect uim_name ''gpt'' 0 [] (answered ()) ms (cl_toasts demo_client))) = ms'"
proof -
  have law: "codec_law (ap_from_slice demo_api) (ap_to_vec demo_api)" by (simp add: demo_api_def tagged_codec_law)
  have wf: "db_wf (db demo_state)" by (simp add: demo_state_def app_state_new_def demo_db_wf)
  have clk: "clock_ok (re_db demo_run)"
    by (simp add: clock_ok_def from_ts_law_def demo_run_def demo_env_def)
  let ?m = "\<lparr>mresp_id = ''m1'', mresp_name = ''gpt'', mresp_provider_id = ''p1'', mresp_upstream_model = ''llama3'',
      mresp_enabled = True, mresp_created_at = 2, mresp_updated_at = 2\<rparr>"
  obtain r s' where del: "handle_delete_model demo_run ''r'' ''gpt'' demo_state = (r, s')" by fastforce
  have "case handle_delete_model demo_run ''r'' ''gpt'' demo_state of (r, s') \<Rightarrow> r = Inr 204 \<and> models (db s') = []"
    by code_simp
  then have r: "r = Inr 204" "models (db s') = []" by (simp_all add: del)
  have before: "load_models demo_api demo_run demo_client demo_state = Inr [ui_model ?m]"
    unfolding load_models_def
  proof -
    have "handle_list_models demo_run demo_state = Inr [?m]" by code_simp
    moreover have "decode_vec ui_model_of (Array (map json_of_model [?m])) = Some [ui_model ?m]" by code_simp
    ultimately show "exchange_get demo_api (\<lambda>ms. Array (map json_of_model ms)) (handle_list_models demo_run demo_state)
        (decode_vec ui_model_of) demo_client = Inr [ui_model ?m]"
      using exchange_get_ok [OF law, of "decode_vec ui_model_of" "\<lambda>ms. Array (map json_of_model ms)"] by simp
  qed
  have "handle_list_models demo_run s' = Inr []"
    by (simp add: handle_list_models_def list_models_def run_db_read_def r demo_run_def run_blocking_def db_or_http_def demo_env_def)
  then have after: "load_models demo_api demo_run demo_client s' = Inr []"
    using exchange_get_ok [OF law, of "decode_vec ui_model_of" "\<lambda>ms. Array (map json_of_model ms)" "[]"]
    by (simp add: load_models_def)
  have "exchange_delete demo_api r demo_client = Inr ()" unfolding r by (rule exchange_delete_ok) (simp add: resp_ok_def)
  then show ?thesis
    using list_matches_refetch [OF law wf clk refl refl, of demo_client "[ui_model ?m]" s' "[]" "''refused''" "''r''" 0 "[]"
        "cl_toasts demo_client"] before after del by auto
qed

end
