(* ===== verification/Client_Entities.thy ===== *)
theory Client_Entities
  imports Client_Lists Complex_Main
begin

text \<open>
  The pages of providers, models and API keys around their dialogs
  (\<open>src/frontend/src/pages/providers.rs\<close>, \<open>models.rs\<close>, \<open>apikeys.rs\<close>): the store behind a table and its
  reloading, the names shown for ids, the filter of the model page, the raw key of a new API key,
  and the list of provider types, which the browser's storage keeps for an hour.
\<close>

section \<open>The store of a page\<close>

record 'a list_store =
  ls_items :: "'a list"
  ls_error :: "string option"

definition list_store_default :: "'a list_store" where
  "list_store_default = \<lparr>ls_items = [], ls_error = None\<rparr>"

text \<open>The effect that runs when the resource has an answer; a patched list is the new list.\<close>

definition sync_store :: "(api_error + 'a list) option \<Rightarrow> 'a list_store \<Rightarrow> 'a list_store" where
  "sync_store answer s = (case answer of
     Some (Inr xs) \<Rightarrow> s\<lparr>ls_items := xs, ls_error := None\<rparr>
   | Some (Inl e) \<Rightarrow> s\<lparr>ls_error := Some (apie_message e)\<rparr>
   | None \<Rightarrow> s)"

text \<open>Below the card's head there is the table, an error with its retry button, or nothing yet.\<close>

datatype 'a table_body = Rows "'a list" | ErrorCard api_error | Nothing

definition table_body :: "(api_error + 'a list) option \<Rightarrow> 'a list_store \<Rightarrow> 'a table_body" where
  "table_body answer s = (case answer of
     Some (Inr _) \<Rightarrow> Rows (ls_items s) | Some (Inl e) \<Rightarrow> ErrorCard e | None \<Rightarrow> Nothing)"

section \<open>Names and the filter\<close>

text \<open>
  \<open>provider_names\<close> and \<open>type_names\<close>: pairs collected into a map (the last of two equal keys stays),
  and the cell of a table that looks an id up in it.
\<close>

definition names_map :: "(string \<times> string) list option \<Rightarrow> (string, string) dash_map" where
  "names_map pairs = fold (\<lambda>(k, v). dm_insert k v) (case pairs of Some ps \<Rightarrow> ps | None \<Rightarrow> []) []"

definition name_cell :: "(string \<times> string) list option \<Rightarrow> string \<Rightarrow> string" where
  "name_cell pairs i = (case dm_get (names_map pairs) i of Some n \<Rightarrow> n | None \<Rightarrow> i)"

definition provider_pairs :: "api_error + ui_provider list \<Rightarrow> (string \<times> string) list" where
  "provider_pairs r = (case r of Inr ps \<Rightarrow> map (\<lambda>p. (uip_id p, uip_name p)) ps | Inl _ \<Rightarrow> [])"

definition in_filter :: "string \<Rightarrow> ui_model \<Rightarrow> bool" where
  "in_filter provider m \<longleftrightarrow> provider = [] \<or> uim_provider_id m = provider"

definition item_count :: "string \<Rightarrow> ui_model list_store \<Rightarrow> nat" where
  "item_count provider s = length (filter (in_filter provider) (ls_items s))"

section \<open>The page of API keys\<close>

text \<open>
  Which dialog the page shows, and the raw key of a key just created, with its name. While there
  is one it is shown in place of every dialog; a dialog that is not shown does nothing.
\<close>

record key_page =
  kp_modal :: "ui_api_key entity_modal"
  kp_raw :: "(string \<times> string) option"

datatype key_view = RawKey string string | KeyDialog "ui_api_key entity_modal"

definition key_view :: "key_page \<Rightarrow> key_view" where
  "key_view p = (case kp_raw p of Some (raw, name) \<Rightarrow> RawKey raw name | None \<Rightarrow> KeyDialog (kp_modal p))"

datatype key_event =
    OpenDialog "ui_api_key entity_modal"
  | CloseDialog
  | KeySaved "string option" bool ui_api_key
  | CloseRaw

definition key_page_step :: "key_event \<Rightarrow> key_page \<Rightarrow> key_page" where
  "key_page_step ev p = (case ev of
     OpenDialog m \<Rightarrow> p\<lparr>kp_modal := m\<rparr>
   | CloseDialog \<Rightarrow> (case key_view p of KeyDialog _ \<Rightarrow> p\<lparr>kp_modal := Closed\<rparr> | _ \<Rightarrow> p)
   | KeySaved edit disposed k \<Rightarrow>
       (case key_view p of
          KeyDialog _ \<Rightarrow>
            (case key_save_effect edit disposed (answered k) [] (kp_raw p) of
               (_, _, raw, _, done) \<Rightarrow> p\<lparr>kp_raw := raw, kp_modal := if done then Closed else kp_modal p\<rparr>)
        | _ \<Rightarrow> p)
   | CloseRaw \<Rightarrow> (case key_view p of RawKey _ _ \<Rightarrow> p\<lparr>kp_raw := None, kp_modal := Closed\<rparr> | _ \<Rightarrow> p))"

section \<open>The list of provider types\<close>

definition pt_key :: string where "pt_key = ''ait_provider_types''"

definition pt_ts_key :: string where "pt_ts_key = ''ait_provider_types_ts''"

definition pt_ttl_ms :: nat where "pt_ttl_ms = 3600000"

text \<open>
  \<open>str::parse\<close> to an \<open>f64\<close>, with the exact value of a number. Rounding it to a double changes no
  whole number up to 2^53, which is what the page writes.
\<close>

datatype f64 = Finite rat | PosInf | NegInf | NaN

definition parse_mantissa :: "string \<Rightarrow> rat option" where
  "parse_mantissa s =
     (let (a, b) = (case split_once CHR ''.'' s of Some (a, b) \<Rightarrow> (a, b) | None \<Rightarrow> (s, []))
      in if a @ b = [] \<or> \<not> list_all is_digit (a @ b) then None
         else Some (of_nat (digits_val 10 0 (a @ b)) / 10 ^ length b))"

definition parse_sign :: "string \<Rightarrow> bool \<times> string" where
  "parse_sign s = (case s of c # r \<Rightarrow>
       if c = CHR ''-'' then (True, r) else if c = CHR ''+'' then (False, r) else (False, s)
     | [] \<Rightarrow> (False, []))"

definition parse_decimal :: "string \<Rightarrow> rat option" where
  "parse_decimal s =
     (case split_once CHR ''e'' s of
        None \<Rightarrow> parse_mantissa s
      | Some (m, x) \<Rightarrow>
          (case parse_sign x of (neg, ds) \<Rightarrow>
             if ds = [] \<or> \<not> list_all is_digit ds then None
             else map_option (\<lambda>v. if neg then v / 10 ^ digits_val 10 0 ds else v * 10 ^ digits_val 10 0 ds)
               (parse_mantissa m)))"

definition parse_f64 :: "string \<Rightarrow> f64 option" where
  "parse_f64 s =
     (case parse_sign (to_ascii_lowercase s) of (neg, body) \<Rightarrow>
        if body = ''inf'' \<or> body = ''infinity'' then Some (if neg then NegInf else PosInf)
        else if body = ''nan'' then Some NaN
        else map_option (\<lambda>v. Finite (if neg then - v else v)) (parse_decimal body))"

text \<open>\<open>now - stamp < ttl\<close>\<close>

fun younger :: "nat \<Rightarrow> f64 \<Rightarrow> bool" where
  "younger now (Finite t) = (of_nat now - t < of_nat pt_ttl_ms)"
| "younger now PosInf = True"
| "younger now NegInf = False"
| "younger now NaN = False"

fun json_pair :: "json \<Rightarrow> (string \<times> string) option" where
  "json_pair (Array [a, b]) = Option.bind (as_str a) (\<lambda>x. Option.bind (as_str b) (\<lambda>y. Some (x, y)))"
| "json_pair _ = None"

definition json_of_pair :: "string \<times> string \<Rightarrow> json" where
  "json_of_pair p = Array [String (fst p), String (snd p)]"

definition cached_types :: "api_env \<Rightarrow> browser \<Rightarrow> (string \<times> string) list option \<times> browser" where
  "cached_types env b =
     (case get_item (ap_from_slice env) (ap_to_vec env) pt_ts_key b of (stamp, b) \<Rightarrow>
        (case Option.bind stamp parse_f64 of
           None \<Rightarrow> (None, b)
         | Some t \<Rightarrow>
             if younger (ap_now env) t then
               (case get_item (ap_from_slice env) (ap_to_vec env) pt_key b of (text, b) \<Rightarrow>
                  (Option.bind text (\<lambda>j. Option.bind (ap_from_slice env j) (decode_vec json_pair)), b))
             else (None, b)))"

definition type_pair :: "ui_provider_type \<Rightarrow> string \<times> string" where
  "type_pair t = (uit_type t, uit_display_name t)"

definition keep_types :: "api_env \<Rightarrow> (string \<times> string) list \<Rightarrow> browser \<Rightarrow> browser" where
  "keep_types env ps b =
     (case ap_to_vec env (Array (map json_of_pair ps)) of
        Inr text \<Rightarrow> set_item (ap_to_vec env) pt_ts_key (show_nat (ap_now env)) (set_item (ap_to_vec env) pt_key text b)
      | Inl _ \<Rightarrow> b)"

text \<open>\<open>fetched\<close> is what the request would give; it is made only when nothing fresh is kept.\<close>

definition load_types ::
    "api_env \<Rightarrow> api_error + ui_provider_type list \<Rightarrow> browser \<Rightarrow> (string \<times> string) list \<times> browser" where
  "load_types env fetched b =
     (case cached_types env b of
        (Some ps, b) \<Rightarrow> (ps, b)
      | (None, b) \<Rightarrow>
          (case fetched of
             Inr types \<Rightarrow> (map type_pair types, keep_types env (map type_pair types) b)
           | Inl _ \<Rightarrow> ([], b)))"

section \<open>Facts\<close>

lemma parse_f64_show_nat: "parse_f64 (show_nat n) = Some (Finite (of_nat n))"
proof -
  have digit: "is_digit c" if "c \<in> set (show_nat n)" for c by (rule show_nat_digits [OF that])
  then have "\<not> is_upper c" if "c \<in> set (show_nat n)" for c
    using that by (fastforce simp: is_digit_def is_upper_def byte_def)
  then have lower: "to_ascii_lowercase (show_nat n) = show_nat n"
    unfolding to_ascii_lowercase_def by (intro map_idI) simp
  obtain c r where s: "show_nat n = c # r" by (cases "show_nat n") (auto simp: show_nat_def)
  have c: "is_digit c" using digit s by simp
  have sign: "parse_sign (show_nat n) = (False, show_nat n)"
    using c by (auto simp: s parse_sign_def is_digit_def byte_def)
  have no: "CHR ''.'' \<notin> set (show_nat n)" "CHR ''e'' \<notin> set (show_nat n)"
    using digit [of "CHR ''.''"] digit [of "CHR ''e''"] by (auto simp: is_digit_def byte_def)
  have words: "show_nat n \<noteq> ''inf''" "show_nat n \<noteq> ''infinity''" "show_nat n \<noteq> ''nan''"
    using c by (auto simp: s is_digit_def byte_def)
  have "digits_val 10 0 (show_nat n) = n" by (simp add: show_nat_def digits_val_digits)
  moreover have "list_all is_digit (show_nat n)" "show_nat n \<noteq> []" using digit s by (simp_all add: list_all_iff)
  ultimately have "parse_mantissa (show_nat n) = Some (of_nat n)"
    by (simp only: parse_mantissa_def split_once_none [OF no(1)] option.case prod.case Let_def append_Nil2 simp_thms if_False
        list.size power_0 div_by_1)
  then show ?thesis using words by (simp add: parse_f64_def lower sign parse_decimal_def split_once_none [OF no(2)])
qed


text \<open>What is kept under a key, whichever storage the browser has.\<close>

definition kept :: "api_env \<Rightarrow> string \<Rightarrow> browser \<Rightarrow> string option" where
  "kept env k b = fst (get_item (ap_from_slice env) (ap_to_vec env) k b)"

lemma cached_types_kept:
  "fst (cached_types env b) = Option.bind (Option.bind (kept env pt_ts_key b) parse_f64) (\<lambda>t.
     if younger (ap_now env) t
     then Option.bind (kept env pt_key b) (\<lambda>j. Option.bind (ap_from_slice env j) (decode_vec json_pair)) else None)"
  "kept env k (snd (cached_types env b)) = kept env k b"
proof -
  obtain kind c where kc: "storage_backend (ap_to_vec env) b = (kind, c)" by fastforce
  have get: "get_item (ap_from_slice env) (ap_to_vec env) x b = (kept env x b, c)"
      "get_item (ap_from_slice env) (ap_to_vec env) x c = (kept env x b, c)" for x
    using kc storage_backend_idem [OF kc] by (simp_all add: kept_def get_item_def)
  show "fst (cached_types env b) = Option.bind (Option.bind (kept env pt_ts_key b) parse_f64) (\<lambda>t.
     if younger (ap_now env) t
     then Option.bind (kept env pt_key b) (\<lambda>j. Option.bind (ap_from_slice env j) (decode_vec json_pair)) else None)"
    by (cases "kept env pt_ts_key b") (simp_all add: cached_types_def get split: option.split)
  have "snd (cached_types env b) = c"
    by (simp add: cached_types_def get split: option.split)
  then show "kept env k (snd (cached_types env b)) = kept env k b"
    using get(2) [of k] by (simp add: kept_def [of env k c])
qed

lemma decode_pairs [simp]: "decode_items json_pair (map json_of_pair ps) = Some ps"
  by (induction ps) (simp_all add: json_of_pair_def)

text \<open>The types served from the storage.\<close>

lemma load_types_hit: "fst (cached_types env b) = Some ps \<Longrightarrow> fst (load_types env fetched b) = ps"
  by (cases "cached_types env b") (simp add: load_types_def)

lemma load_types_miss:
  "fst (cached_types env b) = None \<Longrightarrow> load_types env fetched b = (case fetched of
     Inr types \<Rightarrow> (map type_pair types, keep_types env (map type_pair types) (snd (cached_types env b)))
   | Inl _ \<Rightarrow> ([], snd (cached_types env b)))"
  by (cases "cached_types env b") (simp add: load_types_def split: sum.split)

lemma kept_env: "kept (env\<lparr>ap_now := n\<rparr>) = kept env"
  by (simp add: kept_def fun_eq_iff)

text \<open>
  The list of provider types is fetched once an hour. After a fetch whose two writes the storage
  took, the list fetched is what the page shows for the next hour, whatever a fetch would give
  then, and not after it. A write that the storage refuses is only logged: if it took the time
  and not the list, an old list counts as fresh for the next hour, although the page had
  fetched another.
\<close>

theorem types_kept_an_hour:
  assumes "codec_law (ap_from_slice env) (ap_to_vec env)" and "fst (cached_types env b) = None"
    and "b' = snd (load_types env (Inr types) b)" and "kept env pt_ts_key b' = Some (show_nat (ap_now env))"
  shows "(kept env pt_key b' \<noteq> kept env pt_key b \<longrightarrow> n < ap_now env + pt_ttl_ms \<longrightarrow>
        fst (load_types (env\<lparr>ap_now := n\<rparr>) fetched b') = map type_pair types)
    \<and> (kept env pt_key b' = kept env pt_key b \<longrightarrow> n < ap_now env + pt_ttl_ms \<longrightarrow>
        (\<forall>old ps. kept env pt_key b = Some old \<longrightarrow> ap_from_slice env old = Some (Array (map json_of_pair ps)) \<longrightarrow>
          fst (load_types (env\<lparr>ap_now := n\<rparr>) fetched b') = ps))
    \<and> (ap_now env + pt_ttl_ms \<le> n \<longrightarrow> fst (load_types (env\<lparr>ap_now := n\<rparr>) (Inr later) b') = map type_pair later)"
proof -
  let ?tv = "ap_to_vec env"
  let ?env = "env\<lparr>ap_now := n\<rparr>"
  define b1 where "b1 = snd (cached_types env b)"
  obtain item where item: "?tv (Array (map json_of_pair (map type_pair types))) = Inr item"
      "ap_from_slice env item = Some (Array (map json_of_pair (map type_pair types)))"
    using assms(1) by (auto simp: codec_law_def)
  define b2 where "b2 = set_item ?tv pt_key item b1"
  have b': "b' = set_item ?tv pt_ts_key (show_nat (ap_now env)) b2"
    unfolding assms(3) load_types_miss [OF assms(2)] by (simp add: keep_types_def item(1) b2_def b1_def del: map_map)
  have keys: "pt_key \<noteq> pt_ts_key" by (simp add: pt_key_def pt_ts_key_def)
  have list: "kept env pt_key b' = kept env pt_key b2"
    unfolding kept_def by (rule storage_get_set(2) [OF assms(1) b' keys])
  have taken: "kept env pt_key b2 = Some item \<or> kept env pt_key b2 = kept env pt_key b"
    using storage_get_set(1) [OF assms(1) b2_def] cached_types_kept(2) [of env pt_key b] by (simp add: kept_def b1_def)
  have fresh: "younger n (Finite (of_nat (ap_now env))) \<longleftrightarrow> n < ap_now env + pt_ttl_ms"
  proof -
    have "younger n (Finite (of_nat (ap_now env))) \<longleftrightarrow> (of_nat n :: rat) < of_nat (ap_now env + pt_ttl_ms)"
      by (simp add: algebra_simps)
    then show ?thesis by (simp only: of_nat_less_iff)
  qed
  have served: "fst (cached_types ?env b') = (if n < ap_now env + pt_ttl_ms
      then Option.bind (kept env pt_key b') (\<lambda>j. Option.bind (ap_from_slice env j) (decode_vec json_pair)) else None)"
    unfolding cached_types_kept(1) kept_env assms(4) by (simp add: parse_f64_show_nat fresh del: younger.simps)
  show ?thesis
  proof (intro conjI impI allI, goal_cases)
    case 1
    then have "kept env pt_key b' = Some item" using list taken by auto
    then have "fst (cached_types ?env b') = Some (map type_pair types)" using served 1 item(2) by (simp del: map_map)
    then show ?case by (rule load_types_hit)
  next
    case (2 old ps)
    then have "fst (cached_types ?env b') = Some ps" using served by simp
    then show ?case by (rule load_types_hit)
  next
    case 3
    then have "fst (cached_types ?env b') = None" using served by simp
    then show ?case by (simp add: load_types_miss)
  qed
qed

text \<open>The pairs of a list, looked up in the map and in the list itself.\<close>

lemma names_map_get: "dm_get (names_map (Some ps)) i = map_of (rev ps) i"
proof -
  have "dm_get (fold (\<lambda>(k, v). dm_insert k v) ps m) i = (case map_of (rev ps) i of Some n \<Rightarrow> Some n | None \<Rightarrow> dm_get m i)" for m
    by (induction ps arbitrary: m) (auto simp: dash_simps map_add_def split: option.splits)
  then show ?thesis by (simp add: names_map_def dash_simps split: option.split)
qed

lemma name_cell_display:
  assumes "distinct (map fst ps)"
  shows "name_cell (Some ps) i = provider_display_name i ps"
proof -
  have "map_of (rev ps) i = Some n \<longleftrightarrow> map_of ps i = Some n" for n
    using assms by (simp add: map_of_eq_Some_iff rev_map [symmetric])
  then have "map_of (rev ps) i = map_of ps i" by (metis not_None_eq)
  then show ?thesis by (simp add: name_cell_def provider_display_name_def names_map_get)
qed

lemma raw_key_stays:
  "kp_raw p = Some (raw, name) \<Longrightarrow> CloseRaw \<notin> set evs \<Longrightarrow> kp_raw (fold key_page_step evs p) = Some (raw, name)"
proof (induction evs arbitrary: p)
  case (Cons ev evs)
  then have "kp_raw (key_page_step ev p) = Some (raw, name)"
    by (cases ev) (simp_all add: key_page_step_def key_view_def)
  then show ?case using Cons by simp
qed simp

lemma raw_key_stays_closed:
  "kp_raw p = None \<Longrightarrow> (\<forall>b k. KeySaved None b k \<notin> set evs) \<Longrightarrow> kp_raw (fold key_page_step evs p) = None"
proof (induction evs arbitrary: p)
  case (Cons ev evs)
  have "\<And>b k. ev \<noteq> KeySaved None b k" using Cons.prems(2) by auto
  then have "kp_raw (key_page_step ev p) = None" using Cons.prems(1)
    by (cases ev) (auto simp: key_page_step_def key_view_def key_save_effect_def answered_def save_state_new_def Let_def
        split: option.splits if_splits)
  then show ?case using Cons by simp
qed simp

lemma create_key_Inr:
  assumes "codec_law (ap_from_slice env) (ap_to_vec env)" and "save_key env J renv refused rid c None d s = (Inr x, s')"
  shows "\<exists>n e k raw. insert_api_key (re_db renv) n e (db s) = (Inr (k, raw), db s')
    \<and> x = ui_api_key (api_key_response_of raw k)"
proof -
  have st: "statuses_ok (fst ((\<lambda>(n, x). handle_create_api_key renv rid n x) q s))" for q
    by (cases q) (simp add: create_key_statuses)
  obtain q st a where a: "(\<lambda>(n, x). handle_create_api_key renv rid n x) q s = (Inr (st, a), s')"
      "ui_api_key_of (json_of_api_key a) = Some x"
    using exchange_write_Inr(1) [OF assms(1) st assms(2) [unfolded save_key_def option.case]] by blast
  obtain n y where q: "q = (n, y)" by (cases q)
  obtain n' e s1 k raw where w: "run_db_write renv (insert_api_key (re_db renv) n' e) s = (Inr (Inr (k, raw)), s1)"
      "a = api_key_response_of raw k" "db s' = db s1"
    using a(1) by (auto simp: q handle_create_api_key_def db_ok audit_log_def send_log_def split: sum.splits prod.splits)
  then have "insert_api_key (re_db renv) n' e (db s) = (Inr (k, raw), db s')"
    by (auto simp: run_db_write_def run_blocking_Inr split: if_splits prod.splits)
  then show ?thesis using w(2) ui_read(3) [OF a(2)] by blast
qed


section \<open>Properties\<close>


text \<open>
  The table and the detail dialog name a model's provider alike, and as the server does: by the
  name of the provider's row, and by its id when the page could not load the providers or there is
  none with that id.
\<close>

theorem provider_names_agree:
  assumes "codec_law (ap_from_slice env) (ap_to_vec env)" and "db_wf (db s)" and "r = load_providers env renv c s"
  shows "name_cell (Some (provider_pairs r)) i = provider_display_name i (provider_pairs r)
    \<and> name_cell (Some (provider_pairs r)) i = (case r of
        Inr _ \<Rightarrow> (case tbl_find pr_id i (providers (db s)) of Some row \<Rightarrow> pr_name row | None \<Rightarrow> i) | Inl _ \<Rightarrow> i)"
proof (cases r)
  case (Inl e)
  then show ?thesis by (simp add: provider_pairs_def name_cell_def provider_display_name_def names_map_def dash_simps)
next
  case (Inr ps)
  have ps: "ps = map (shown_provider (re_db renv)) (sort_key pr_name (providers (db s)))"
    using loads(2) [OF assms(1)] assms(3) Inr by metis
  have pairs: "provider_pairs r = map (\<lambda>p. (pr_id p, pr_name p)) (sort_key pr_name (providers (db s)))"
    by (simp add: Inr ps provider_pairs_def shown_provider_def ui_provider_def provider_response_from_def
        row_to_provider_def)
  have d: "distinct (map pr_id (sort_key pr_name (providers (db s))))"
    using assms(2) by (simp add: db_wf_def distinct_map)
  then have d': "distinct (map fst (provider_pairs r))" by (simp add: pairs comp_def)
  have "map_of (provider_pairs r) i = map_option pr_name (tbl_find pr_id i (providers (db s)))"
  proof (cases "tbl_find pr_id i (providers (db s))")
    case None
    then have "map_of (provider_pairs r) i = None" by (auto simp: pairs map_of_eq_None_iff tbl_find_None)
    then show ?thesis using None by simp
  next
    case (Some row)
    then have "(i, pr_name row) \<in> set (provider_pairs r)" using tbl_find_SomeD [OF Some] by (auto simp: pairs)
    then show ?thesis using Some d' by simp
  qed
  then show ?thesis
    using name_cell_display [OF d', of i] by (simp add: provider_display_name_def Inr split: option.split)
qed



section \<open>Witnesses\<close>

theorem provider_names_agree_witness:
  "name_cell (Some (provider_pairs (load_providers demo_api demo_run demo_client demo_state))) ''p1'' = ''local''"
proof -
  let ?r = "load_providers demo_api demo_run demo_client demo_state"
  have law: "codec_law (ap_from_slice demo_api) (ap_to_vec demo_api)" by (simp add: demo_api_def tagged_codec_law)
  have wf: "db_wf (db demo_state)" by (simp add: demo_state_def app_state_new_def demo_db_wf)
  let ?p = "\<lparr>presp_id = ''p1'', presp_name = ''local'', presp_type = Ollama, presp_base_url = ''http://h'',
      presp_api_key = None, presp_enabled = True, presp_created_at = 1, presp_updated_at = 1\<rparr>"
  have "handle_list_providers demo_run demo_state = Inr [?p]" by code_simp
  moreover have "decode_vec ui_provider_of (Array (map json_of_provider [?p])) = Some [ui_provider ?p]" by code_simp
  ultimately have "?r = Inr [ui_provider ?p]"
    using exchange_get_ok [OF law, of "decode_vec ui_provider_of" "\<lambda>ps. Array (map json_of_provider ps)"]
    by (simp add: load_providers_def)
  moreover have "map_option pr_name (tbl_find pr_id ''p1'' (providers (db demo_state))) = Some ''local''" by code_simp
  ultimately show ?thesis
    using provider_names_agree [OF law wf refl, of demo_run demo_client "''p1''"] by (auto split: option.splits)
qed


definition demo_browser :: browser where
  "demo_browser = \<lparr>has_window = False, local_storage = \<lparr>ws_usable = True, ws_accepts = (\<lambda>_ _. True), ws_items = []\<rparr>,
     session_storage = \<lparr>ws_usable = False, ws_accepts = (\<lambda>_ _. True), ws_items = []\<rparr>, backend_cell = None\<rparr>"

theorem types_kept_an_hour_witness:
  "fst (load_types (demo_api\<lparr>ap_now := 3599999\<rparr>) (Inl (from_net_error ''down''))
     (snd (load_types demo_api (Inr [\<lparr>uit_type = ''ollama'', uit_display_name = ''Ollama''\<rparr>]) demo_browser)))
   = [(''ollama'', ''Ollama'')]"
proof -
  let ?types = "[\<lparr>uit_type = ''ollama'', uit_display_name = ''Ollama''\<rparr>]"
  let ?b = "snd (load_types demo_api (Inr ?types) demo_browser)"
  have law: "codec_law (ap_from_slice demo_api) (ap_to_vec demo_api)" by (simp add: demo_api_def tagged_codec_law)
  have memory: "storage_backend tv demo_browser = (Memory [], demo_browser\<lparr>backend_cell := Some (Memory [])\<rparr>)"
      "storage_backend tv (demo_browser\<lparr>backend_cell := Some (Memory m)\<rparr>) = (Memory m, demo_browser\<lparr>backend_cell := Some (Memory m)\<rparr>)"
    for tv m
    by (simp_all add: storage_backend_def probe_backend_def probe_def demo_browser_def)
  have empty: "cached_types demo_api demo_browser = (None, demo_browser\<lparr>backend_cell := Some (Memory [])\<rparr>)"
    by (simp add: cached_types_def get_item_def memory dash_simps)
  then have miss: "fst (cached_types demo_api demo_browser) = None" by simp
  have clock: "ap_now demo_api = 0" by (simp add: demo_api_def)
  obtain item where item: "ap_to_vec demo_api (Array (map json_of_pair (map type_pair ?types))) = Inr item"
    using law by (auto simp: codec_law_def)
  have b: "?b = demo_browser\<lparr>backend_cell := Some (Memory (dm_insert pt_ts_key (show_nat 0) (dm_insert pt_key item [])))\<rparr>"
    using item by (simp add: load_types_def empty keep_types_def set_item_def memory clock)
  have stamp: "kept demo_api pt_ts_key ?b = Some (show_nat (ap_now demo_api))"
    by (simp add: b kept_def get_item_def memory dash_simps clock)
  have "kept demo_api pt_key ?b = Some item" "kept demo_api pt_key demo_browser = None"
    by (simp_all add: b kept_def get_item_def memory dash_simps pt_key_def pt_ts_key_def)
  then show ?thesis
    using types_kept_an_hour [OF law miss refl stamp, of 3599999 "Inl (from_net_error ''down'')"]
    by (simp add: pt_ttl_ms_def clock type_pair_def)
qed

end
