(* ===== verification/Client_Pages.thy ===== *)
theory Client_Pages
  imports Client_Calls
begin

text \<open>
  The log page and the overview of the web console (\<open>src/frontend/src/pages/logs.rs\<close>,
  \<open>overview.rs\<close>): the signals of a page are the fields of a record, and what the user does is an
  event that changes them. A button that is disabled does nothing.
\<close>

section \<open>The log page\<close>

record log_form =
  ff_start_ts :: "int option"
  ff_end_ts :: "int option"
  ff_provider_name :: string
  ff_model_name :: string
  ff_api_key_name :: string
  ff_client_ip :: string
  ff_status :: string
  ff_endpoint :: string
  ff_is_streaming :: "bool option"

record logs_page =
  lg_page :: nat
  lg_query_trigger :: nat
  lg_per_page :: nat
  lg_form :: log_form
  lg_total :: nat

definition blank_form :: "js_env \<Rightarrow> int \<Rightarrow> log_form" where
  "blank_form J now_ms =
     (let today = midnight_ts J (now_timestamp now_ms)
      in \<lparr>ff_start_ts = Some (today - 6 * 86400), ff_end_ts = Some (today + 86399), ff_provider_name = [],
          ff_model_name = [], ff_api_key_name = [], ff_client_ip = [], ff_status = [], ff_endpoint = [],
          ff_is_streaming = None\<rparr>)"

definition logs_page_new :: "js_env \<Rightarrow> int \<Rightarrow> logs_page" where
  "logs_page_new J now_ms =
     \<lparr>lg_page = 1, lg_query_trigger = 0, lg_per_page = 10, lg_form = blank_form J now_ms, lg_total = 0\<rparr>"

definition opt_text :: "string \<Rightarrow> string option" where
  "opt_text s = (if s = [] then None else Some s)"

text \<open>What the page asks the server for.\<close>

definition logs_filter :: "logs_page \<Rightarrow> log_filter" where
  "logs_filter s =
     (let f = lg_form s
      in \<lparr>lf_start_ts = ff_start_ts f, lf_end_ts = ff_end_ts f, lf_provider_name = opt_text (ff_provider_name f),
          lf_model_name = opt_text (ff_model_name f), lf_api_key_name = opt_text (ff_api_key_name f),
          lf_client_ip = opt_text (ff_client_ip f), lf_status = opt_text (ff_status f),
          lf_endpoint = opt_text (ff_endpoint f), lf_is_streaming = ff_is_streaming f\<rparr>)"

definition logs_request :: "api_env \<Rightarrow> logs_page \<Rightarrow> http_call" where
  "logs_request env s = fetch_proxy_logs_call env (lg_page s) (lg_per_page s) (logs_filter s)"

definition do_query :: "logs_page \<Rightarrow> logs_page" where
  "do_query s = s\<lparr>lg_query_trigger := lg_query_trigger s + 1, lg_page := 1\<rparr>"

definition do_reset :: "js_env \<Rightarrow> int \<Rightarrow> logs_page \<Rightarrow> logs_page" where
  "do_reset J now_ms s = s\<lparr>lg_form := blank_form J now_ms, lg_page := 1\<rparr>"

definition on_start_date :: "js_env \<Rightarrow> string \<Rightarrow> logs_page \<Rightarrow> logs_page" where
  "on_start_date J val s = s\<lparr>lg_form := (lg_form s)\<lparr>ff_start_ts := date_str_to_ts J val\<rparr>\<rparr>"

definition on_end_date :: "js_env \<Rightarrow> string \<Rightarrow> logs_page \<Rightarrow> logs_page" where
  "on_end_date J val s = s\<lparr>lg_form := (lg_form s)\<lparr>ff_end_ts := date_str_to_ts J val\<rparr>\<rparr>"

section \<open>The bar under the table\<close>

text \<open>\<open>u64::div_ceil\<close>; a divisor of 0 panics (\<open>None\<close>).\<close>

definition div_ceil :: "nat \<Rightarrow> nat \<Rightarrow> nat option" where
  "div_ceil n m = (if m = 0 then None else Some (n div m + (if n mod m = 0 then 0 else 1)))"

definition total_pages :: "logs_page \<Rightarrow> nat option" where
  "total_pages s = map_option (\<lambda>n. max n 1) (div_ceil (lg_total s) (lg_per_page s))"

definition goto_page :: "nat \<Rightarrow> logs_page \<Rightarrow> logs_page option" where
  "goto_page p s =
     (if p \<ge> 1 then Option.bind (total_pages s) (\<lambda>n. Some (if p \<le> n then s\<lparr>lg_page := p\<rparr> else s))
      else Some s)"

definition on_per_page_change :: "string \<Rightarrow> logs_page \<Rightarrow> logs_page" where
  "on_per_page_change val s = (case parse_uint (2 ^ 64 - 1) val of
     Some p \<Rightarrow> s\<lparr>lg_per_page := p, lg_page := 1\<rparr> | None \<Rightarrow> s)"

text \<open>Enter or leaving the page's input, which then shows the current page again.\<close>

definition on_page_input :: "string \<Rightarrow> logs_page \<Rightarrow> logs_page option" where
  "on_page_input val s = (case parse_uint (2 ^ 64 - 1) val of Some p \<Rightarrow> goto_page p s | None \<Rightarrow> Some s)"

definition click_first :: "logs_page \<Rightarrow> logs_page option" where
  "click_first s = (if lg_page s = 1 then Some s else goto_page 1 s)"

definition click_previous :: "logs_page \<Rightarrow> logs_page option" where
  "click_previous s = (if lg_page s = 1 then Some s else goto_page (lg_page s - 1) s)"

definition click_next :: "logs_page \<Rightarrow> logs_page option" where
  "click_next s = Option.bind (total_pages s) (\<lambda>n. if lg_page s = n then Some s else goto_page (lg_page s + 1) s)"

definition click_last :: "logs_page \<Rightarrow> logs_page option" where
  "click_last s = Option.bind (total_pages s) (\<lambda>n. if lg_page s = n then Some s else goto_page n s)"

text \<open>The rows the bar says are shown, from the first to the last; none without a total.\<close>

definition shown_range :: "logs_page \<Rightarrow> (nat \<times> nat) option" where
  "shown_range s =
     (let row = (lg_page s - 1) * lg_per_page s + 1;
          last_row = min (row + lg_per_page s - 1) (lg_total s)
      in if lg_total s = 0 then None else Some (row, last_row))"

section \<open>The page as a machine\<close>

text \<open>
  An answer of the server sets the total, an error sets it to 0. The options of the page size are
  10, 20 and 50; the texts of the other inputs are the user's.
\<close>

datatype page_size_option = Ten | Twenty | Fifty

fun option_value :: "page_size_option \<Rightarrow> string" where
  "option_value Ten = ''10''"
| "option_value Twenty = ''20''"
| "option_value Fifty = ''50''"

datatype logs_event =
    Answered nat
  | AnswerFailed
  | PerPage page_size_option
  | PageInput string
  | First | Previous | Next | Last
  | DoQuery
  | DoReset int
  | StartDate string
  | EndDate string
  | EditForm "log_form \<Rightarrow> log_form"

definition logs_step :: "js_env \<Rightarrow> logs_event \<Rightarrow> logs_page \<Rightarrow> logs_page option" where
  "logs_step J ev s = (case ev of
     Answered n \<Rightarrow> Some (s\<lparr>lg_total := n\<rparr>)
   | AnswerFailed \<Rightarrow> Some (s\<lparr>lg_total := 0\<rparr>)
   | PerPage opt \<Rightarrow> Some (on_per_page_change (option_value opt) s)
   | PageInput val \<Rightarrow> on_page_input val s
   | First \<Rightarrow> click_first s
   | Previous \<Rightarrow> click_previous s
   | Next \<Rightarrow> click_next s
   | Last \<Rightarrow> click_last s
   | DoQuery \<Rightarrow> Some (do_query s)
   | DoReset now_ms \<Rightarrow> Some (do_reset J now_ms s)
   | StartDate val \<Rightarrow> Some (on_start_date J val s)
   | EndDate val \<Rightarrow> Some (on_end_date J val s)
   | EditForm f \<Rightarrow> Some (s\<lparr>lg_form := f (lg_form s)\<rparr>))"

fun logs_run :: "js_env \<Rightarrow> logs_event list \<Rightarrow> logs_page \<Rightarrow> logs_page option" where
  "logs_run J [] s = Some s"
| "logs_run J (ev # evs) s = Option.bind (logs_step J ev s) (logs_run J evs)"

section \<open>The overview's range\<close>

record overview_page =
  ov_start_ts :: int
  ov_end_ts :: int
  ov_start_dirty :: bool
  ov_end_dirty :: bool
  ov_force_refresh :: bool
  ov_refetches :: nat

definition overview_new :: "js_env \<Rightarrow> int \<Rightarrow> overview_page" where
  "overview_new J now_ms =
     (let today = midnight_ts J (now_timestamp now_ms)
      in \<lparr>ov_start_ts = today - 6 * 86400, ov_end_ts = today + 86399, ov_start_dirty = False,
          ov_end_dirty = False, ov_force_refresh = False, ov_refetches = 0\<rparr>)"

definition set_range :: "int \<Rightarrow> int \<Rightarrow> int \<Rightarrow> overview_page \<Rightarrow> overview_page" where
  "set_range now_ms start end_ts s =
     (case clamp_range start end_ts (now_timestamp now_ms) of (start, end_ts) \<Rightarrow>
        s\<lparr>ov_start_ts := start, ov_end_ts := end_ts, ov_start_dirty := False, ov_end_dirty := False,
          ov_force_refresh := True, ov_refetches := ov_refetches s + 1\<rparr>)"

definition overview_refresh :: "int \<Rightarrow> overview_page \<Rightarrow> overview_page" where
  "overview_refresh now_ms s = set_range now_ms (ov_start_ts s) (ov_end_ts s) s"

definition try_refetch :: "int \<Rightarrow> overview_page \<Rightarrow> overview_page" where
  "try_refetch now_ms s =
     (if ov_start_dirty s \<or> ov_end_dirty s then set_range now_ms (ov_start_ts s) (ov_end_ts s) s else s)"

definition overview_start_date :: "js_env \<Rightarrow> int \<Rightarrow> string \<Rightarrow> overview_page \<Rightarrow> overview_page" where
  "overview_start_date J now_ms val s = (case date_str_to_ts J val of
     Some t \<Rightarrow> try_refetch now_ms (s\<lparr>ov_start_ts := t, ov_start_dirty := True\<rparr>) | None \<Rightarrow> s)"

definition overview_end_date :: "js_env \<Rightarrow> int \<Rightarrow> string \<Rightarrow> overview_page \<Rightarrow> overview_page" where
  "overview_end_date J now_ms val s = (case date_str_to_ts J val of
     Some t \<Rightarrow> try_refetch now_ms (s\<lparr>ov_end_ts := t, ov_end_dirty := True\<rparr>) | None \<Rightarrow> s)"

text \<open>A fetch of the resource ends: the flag is used once.\<close>

definition overview_fetched :: "overview_page \<Rightarrow> overview_page" where
  "overview_fetched s = s\<lparr>ov_force_refresh := False\<rparr>"


section \<open>The log page stays in range\<close>

definition logs_ok :: "logs_page \<Rightarrow> bool" where
  "logs_ok s \<longleftrightarrow> 1 \<le> lg_page s \<and> lg_per_page s \<in> {10, 20, 50} \<and> lg_total s < 2 ^ 63
     \<and> (lg_page s - 1) * lg_per_page s < 2 ^ 63"

definition answers_i64 :: "logs_event list \<Rightarrow> bool" where
  "answers_i64 evs \<longleftrightarrow> (\<forall>n. Answered n \<in> set evs \<longrightarrow> n < 2 ^ 63)"

lemma answers_i64_simps [simp]:
  "answers_i64 []"
  "answers_i64 (ev # evs) \<longleftrightarrow> (\<forall>n. ev = Answered n \<longrightarrow> n < 2 ^ 63) \<and> answers_i64 evs"
  by (auto simp: answers_i64_def)

lemma div_ceil_rows:
  assumes "div_ceil n m = Some c" "1 < p" "p \<le> c"
  shows "(p - 1) * m < n"
proof (cases "n mod m = 0")
  case True
  then have "p - 1 < n div m" using assms by (auto simp: div_ceil_def split: if_splits)
  then have "(p - 1) * m < n div m * m" using assms(1) by (simp add: div_ceil_def split: if_splits)
  then show ?thesis using div_times_less_eq_dividend [of n m] by linarith
next
  case False
  then have "p - 1 \<le> n div m" using assms by (auto simp: div_ceil_def split: if_splits)
  then have "(p - 1) * m \<le> n div m * m" by (rule mult_le_mono1)
  moreover have "n div m * m + n mod m = n" by (rule div_mult_mod_eq)
  ultimately show ?thesis using False by linarith
qed

lemma total_pages_ok:
  assumes "logs_ok s"
  shows "\<exists>n. total_pages s = Some n \<and> 1 \<le> n \<and> (\<forall>p. p \<le> n \<longrightarrow> (p - 1) * lg_per_page s < 2 ^ 63)"
proof -
  obtain c where c: "div_ceil (lg_total s) (lg_per_page s) = Some c"
    using assms by (auto simp: logs_ok_def div_ceil_def)
  have "(p - 1) * lg_per_page s < 2 ^ 63" if "p \<le> max c 1" for p
  proof (cases "1 < p")
    case True
    then have "p \<le> c" using that by simp
    from div_ceil_rows [OF c True this] have "(p - 1) * lg_per_page s < lg_total s" .
    then show ?thesis using assms by (simp add: logs_ok_def)
  next
    case False
    then have "p - 1 = 0" by simp
    then show ?thesis by (simp only: mult_0) simp
  qed
  then show ?thesis using c by (simp add: total_pages_def)
qed

lemma goto_page_ok:
  assumes "logs_ok s"
  shows "\<exists>s'. goto_page p s = Some s' \<and> logs_ok s'"
proof -
  obtain n where "total_pages s = Some n" "\<And>q. q \<le> n \<Longrightarrow> (q - 1) * lg_per_page s < 2 ^ 63"
    using total_pages_ok [OF assms] by blast
  then show ?thesis using assms by (auto simp: goto_page_def logs_ok_def)
qed

lemma option_value_size: "\<exists>n. parse_uint (2 ^ 64 - 1) (option_value v) = Some n \<and> n \<in> {10, 20, 50}"
proof -
  have "map (\<lambda>v. parse_uint (2 ^ 64 - 1) (option_value v)) [Ten, Twenty, Fifty] = [Some 10, Some 20, Some 50]" by code_simp
  then show ?thesis by (cases v) simp_all
qed

lemma logs_step_ok:
  assumes "logs_ok s" "\<And>n. ev = Answered n \<Longrightarrow> n < 2 ^ 63"
  shows "\<exists>s'. logs_step J ev s = Some s' \<and> logs_ok s'"
proof -
  obtain n where n: "total_pages s = Some n" using total_pages_ok [OF assms(1)] by blast
  note clicks = goto_page_ok [OF assms(1)]
  show ?thesis
  proof (cases ev)
    case (PerPage v)
    then show ?thesis
      using assms(1) option_value_size [of v] by (auto simp: logs_step_def on_per_page_change_def logs_ok_def)
  qed (use assms clicks n in \<open>auto simp: logs_step_def logs_ok_def do_query_def do_reset_def on_start_date_def
        on_end_date_def on_page_input_def click_first_def click_previous_def click_next_def click_last_def
        split: option.split\<close>)
qed

lemma logs_run_ok:
  "logs_ok s \<Longrightarrow> answers_i64 evs \<Longrightarrow> \<exists>s'. logs_run J evs s = Some s' \<and> logs_ok s'"
proof (induction evs arbitrary: s)
  case (Cons ev evs)
  have "n < 2 ^ 63" if "ev = Answered n" for n using Cons.prems(2) that by simp
  from logs_step_ok [OF Cons.prems(1) this] obtain s1 where "logs_step J ev s = Some s1" "logs_ok s1" by blast
  with Cons show ?case by simp
qed simp

text \<open>
  C25: No use of the log page brings it out of range. Whatever the user and the server do, in any
  order, from the page as it is first shown, no operation panics (the page size never becomes 0,
  on which \<open>div_ceil\<close> would), the page number is at least 1 and the page size is one of the three
  offered, and the numbers under the table stay within 64 bits, so their subtraction and
  multiplication do not wrap.
\<close>

theorem log_page_in_range:
  assumes "answers_i64 evs"
  shows "\<exists>s. logs_run J evs (logs_page_new J now_ms) = Some s \<and> 1 \<le> lg_page s \<and> lg_per_page s \<in> {10, 20, 50}
    \<and> (lg_page s - 1) * lg_per_page s + 1 + lg_per_page s < 2 ^ 64"
proof -
  have "logs_ok (logs_page_new J now_ms)" by (simp add: logs_ok_def logs_page_new_def)
  from logs_run_ok [OF this assms] obtain s where s: "logs_run J evs (logs_page_new J now_ms) = Some s" "logs_ok s"
    by blast
  have "lg_per_page s \<le> 50" "(lg_page s - 1) * lg_per_page s < 2 ^ 63" using s(2) by (auto simp: logs_ok_def)
  then have "(lg_page s - 1) * lg_per_page s + 1 + lg_per_page s < 2 ^ 64" by simp
  with s show ?thesis by (auto simp: logs_ok_def)
qed


section \<open>The rows the bar names\<close>

lemma where_clause_paging: "where_clause env (q\<lparr>lq_page := p, lq_per_page := n\<rparr>) = where_clause env q"
  by (simp add: where_clause_def fun_eq_iff)

lemma listing_page:
  assumes "list_proxy_logs env q d = Inr l" and "pq_page q = Some p" "pq_per_page q = Some n" "1 \<le> p" "n \<in> {10, 20, 50}"
  shows "ll_per_page l = n" "ll_page l = (if (p - 1) * n \<le> 100000 then p else 100000 div n + 1)"
    "query_proxy_logs_impl (cn_duck env) ((pq_filters q)\<lparr>lq_page := ll_page l, lq_per_page := n\<rparr>) d
      = Rows \<lparr>lp_items = ll_items l, lp_total = ll_total l\<rparr>"
proof -
  have n: "page_size q = n" "requested_page q = p"
    using assms(2-5) by (auto simp: page_size_def requested_page_def max_per_page_def)
  have o: "min (saturating_mul (p - 1) n) max_offset_rows div n + 1 = (if (p - 1) * n \<le> 100000 then p else 100000 div n + 1)"
  proof (cases "(p - 1) * n \<le> 100000")
    case True
    then have "min (saturating_mul (p - 1) n) max_offset_rows = (p - 1) * n"
      by (simp add: saturating_mul_def max_offset_rows_def)
    then show ?thesis using True assms(4,5) by auto
  next
    case False
    then have "min (saturating_mul (p - 1) n) max_offset_rows = 100000"
      by (simp add: saturating_mul_def max_offset_rows_def)
    with False show ?thesis by simp
  qed
  obtain r where r: "query_proxy_logs_impl (cn_duck env) ((pq_filters q)
        \<lparr>lq_page := if (p - 1) * n \<le> 100000 then p else 100000 div n + 1, lq_per_page := n\<rparr>) d = Rows r"
    and l: "l = \<lparr>ll_items = lp_items r, ll_total = lp_total r,
        ll_page = (if (p - 1) * n \<le> 100000 then p else 100000 div n + 1), ll_per_page = n\<rparr>"
    using assms(1) unfolding list_proxy_logs_def Let_def n o
    by (auto simp: and_then_Inr map_err_Inr analytics_call_ok split: if_splits)
  show "ll_per_page l = n" "ll_page l = (if (p - 1) * n \<le> 100000 then p else 100000 div n + 1)" by (simp_all add: l)
  show "query_proxy_logs_impl (cn_duck env) ((pq_filters q)\<lparr>lq_page := ll_page l, lq_per_page := n\<rparr>) d
      = Rows \<lparr>lp_items = ll_items l, lp_total = ll_total l\<rparr>"
    using r by (simp add: l)
qed

text \<open>
  C21: The line under the log table names the rows that are shown, as far as the server's bound on
  skipped rows allows. When the page shows the server's answer to its own request, up to row 100001
  the line is about exactly the rows of the table: the matching rows from its first to its last
  number, newest first. For a later page the server answers the rows from 100001 on and names
  the page it served, but the page does not read that name: the table has those rows while the
  line and the page number are about others.
\<close>

theorem shown_rows_named:
  fixes q :: proxy_log_query and d :: log_db
  assumes "list_proxy_logs env q d = Inr l" and "duck_law (cn_duck env)" "\<And>n. \<not> dk_fault (cn_duck env) n"
    and "pq_page q = Some (lg_page s)" "pq_per_page q = Some (lg_per_page s)" "int (lg_total s) = ll_total l"
    and "1 \<le> lg_page s" "lg_per_page s \<in> {10, 20, 50}"
  defines "rs \<equiv> filter (where_clause (cn_duck env) (pq_filters q)) (proxy_log d)"
  assumes "distinct (map row_micros rs)" "length rs < 2 ^ 63"
  shows "if (lg_page s - 1) * lg_per_page s \<le> 100000
    then ll_page l = lg_page s \<and>
      (case shown_range s of None \<Rightarrow> ll_items l = []
       | Some (a, b) \<Rightarrow> ll_items l = map log_entry (take (b + 1 - a) (drop (a - 1) (rev (sort_key row_micros rs)))))
    else ll_page l < lg_page s \<and>
      ll_items l = map log_entry (take (lg_per_page s) (drop 100000 (rev (sort_key row_micros rs))))"
proof -
  note l = listing_page [OF assms(1,4,5,7,8)]
  let ?q = "(pq_filters q)\<lparr>lq_page := ll_page l, lq_per_page := lg_per_page s\<rparr>"
  have w: "where_clause (cn_duck env) ?q = where_clause (cn_duck env) (pq_filters q)" by (rule where_clause_paging)
  have "query_proxy_logs_impl (cn_duck env) ?q d = Rows \<lparr>lp_items = map log_entry (take (lg_per_page s)
      (drop ((ll_page l - 1) * lg_per_page s) (rev (sort_key row_micros rs)))), lp_total = int (length rs)\<rparr>"
    using query_page [OF assms(2,3), of ?q d, unfolded w, folded rs_def] assms(8,10,11) by auto
  then have items: "ll_items l = map log_entry (take (lg_per_page s)
      (drop ((ll_page l - 1) * lg_per_page s) (rev (sort_key row_micros rs))))" and total: "lg_total s = length rs"
    using l(3) assms(6) by simp_all
  show ?thesis
  proof (cases "(lg_page s - 1) * lg_per_page s \<le> 100000")
    case True
    define k where "k = (lg_page s - 1) * lg_per_page s"
    have page: "take (lg_per_page s) (drop k (rev (sort_key row_micros rs)))
        = take (min (k + lg_per_page s) (length rs) + 1 - (k + 1)) (drop k (rev (sort_key row_micros rs)))"
      by (cases "k + lg_per_page s \<le> length rs") (auto simp: min_def)
    then show ?thesis
      using True items l(2) total page [unfolded k_def] by (auto simp: shown_range_def Let_def)
  next
    case False
    have "100000 div lg_per_page s * lg_per_page s = 100000" using assms(8) by auto
    moreover have "100000 div lg_per_page s + 1 < lg_page s" using False assms(7,8) by auto
    ultimately show ?thesis using False items l(2) by simp
  qed
qed


section \<open>The dates of the forms\<close>

lemma epoch_micros:
  assumes "from_ts_law (dk_from_ts env)" "dk_from_ts env t \<noteq> None"
  shows "micros (ts_or_epoch env t) = t * 1000000"
proof -
  have "ts_or_epoch env t = t * 1000000000" using assms by (auto simp: from_ts_law_def ts_or_epoch_def)
  then show ?thesis unfolding micros_def using nonzero_mult_div_cancel_right [of 1000 "t * 1000000"] by simp
qed

text \<open>The filters of a request, as the handler reads them.\<close>

definition filters_of :: "log_filter \<Rightarrow> log_query" where
  "filters_of f = \<lparr>lq_page = 0, lq_per_page = 0, lq_start_ts = lf_start_ts f, lq_end_ts = lf_end_ts f,
     lq_model_name = lf_model_name f, lq_provider_name = lf_provider_name f, lq_status = lf_status f,
     lq_api_key_name = lf_api_key_name f, lq_endpoint = lf_endpoint f, lq_is_streaming = lf_is_streaming f,
     lq_upstream_model = None, lq_provider_type = None, lq_client_ip = lf_client_ip f\<rparr>"

text \<open>
  Choosing as end date the very date the form shows drops that day. The log page opens with
  today as its end date and asks for the rows up to the last second of today. On a day of at least
  24 hours, choosing the date that is shown sets the end to the first instant of the day, so every
  row of today, which the first request returns, is left out.
\<close>

theorem end_date_drops_day:
  assumes "calendar_law J lo hi" "lo \<le> now_timestamp now_ms" "now_timestamp now_ms \<le> hi"
  defines "today \<equiv> midnight_ts J (now_timestamp now_ms)"
  assumes "lo \<le> today" "today + 86399 \<le> hi" "midnight_ts J (today + 86399) = today"
    and "from_ts_law (dk_from_ts env)" "dk_from_ts env (today - 6 * 86400) \<noteq> None"
    "dk_from_ts env today \<noteq> None" "dk_from_ts env (today + 86399) \<noteq> None"
    and "today * 1000000 \<le> row_micros r" "row_micros r < (today + 86399) * 1000000"
  defines "s0 \<equiv> logs_page_new J now_ms"
  shows "(\<exists>e. ff_end_ts (lg_form s0) = Some e
      \<and> ff_end_ts (lg_form (on_end_date J (ts_to_date_str J e) s0)) = Some today
      \<and> where_clause env (filters_of (logs_filter s0)) r
      \<and> \<not> where_clause env (filters_of (logs_filter (on_end_date J (ts_to_date_str J e) s0))) r)"
proof (intro exI [of _ "today + 86399"] conjI)
  have picked: "date_str_to_ts J (ts_to_date_str J (today + 86399)) = Some today"
    using date_text_read [OF assms(1), of "today + 86399"] assms(5-7) by simp
  note m = epoch_micros [OF assms(8,9)] epoch_micros [OF assms(8,10)] epoch_micros [OF assms(8,11)]
  note page = s0_def logs_page_new_def blank_form_def Let_def logs_filter_def opt_text_def filters_of_def
  show end0: "ff_end_ts (lg_form s0) = Some (today + 86399)" by (simp add: page today_def)
  show end1: "ff_end_ts (lg_form (on_end_date J (ts_to_date_str J (today + 86399)) s0)) = Some today"
    using picked by (simp add: on_end_date_def)
  show "where_clause env (filters_of (logs_filter s0)) r"
    using m assms(12,13) by (simp add: where_clause_def text_filter_def page today_def [symmetric])
  show "\<not> where_clause env (filters_of (logs_filter (on_end_date J (ts_to_date_str J (today + 86399)) s0))) r"
    using m(2) assms(12) end1 by (simp add: where_clause_def filters_of_def logs_filter_def Let_def)
qed

text \<open>
  The overview and the server agree on the range. Whatever dates are chosen, the range the
  overview keeps after clamping it is the one the server answers for, when the server's clock is
  not behind the browser's and it accepts the times, except that the server moves the start of a
  range longer than the retention forward; the range is never empty and ends at most an hour ahead.
\<close>

theorem overview_range_agrees:
  assumes "validate_ts_range env (Some (ov_start_ts (set_range now_ms a b s))) (Some (ov_end_ts (set_range now_ms a b s)))
      retention = Inr r"
    and "now_timestamp now_ms \<le> cn_now env"
  shows "vr_end r = ov_end_ts (set_range now_ms a b s)
    \<and> vr_start r = max (ov_start_ts (set_range now_ms a b s)) (vr_end r - (int retention + 1) * 86400)
    \<and> ov_start_ts (set_range now_ms a b s) < ov_end_ts (set_range now_ms a b s)
    \<and> ov_end_ts (set_range now_ms a b s) \<le> now_timestamp now_ms + 3600
    \<and> ov_force_refresh (set_range now_ms a b s)"
  using assms by (auto simp: validate_ts_range_def set_range_def clamp_range_def Let_def min_def max_def split: if_splits)

section \<open>Witnesses\<close>

theorem log_page_in_range_witness:
  "\<exists>s. logs_run (demo_js 0) [Answered 95, Last, PerPage Twenty, Answered 95, Next, PageInput ''5'', DoQuery]
      (logs_page_new (demo_js 0) 80000000) = Some s
    \<and> 1 \<le> lg_page s \<and> lg_per_page s \<in> {10, 20, 50} \<and> (lg_page s - 1) * lg_per_page s + 1 + lg_per_page s < 2 ^ 64"
  by (rule log_page_in_range) simp

theorem end_date_drops_day_witness:
  "\<exists>e. ff_end_ts (lg_form (logs_page_new (demo_js 0) 900000000)) = Some e
    \<and> ff_end_ts (lg_form (on_end_date (demo_js 0) (ts_to_date_str (demo_js 0) e) (logs_page_new (demo_js 0) 900000000)))
        = Some 864000"
proof -
  have m: "now_timestamp 900000000 = 900000" "midnight_ts (demo_js 0) 900000 = 864000"
      "midnight_ts (demo_js 0) (864000 + 86399) = 864000" by code_simp+
  have law: "calendar_law (demo_js 0) 0 1000000" by (rule demo_calendar_law) simp_all
  have duck: "from_ts_law (dk_from_ts demo_duck)" "dk_from_ts demo_duck t \<noteq> None" for t
    using demo_duck_law by (simp_all add: duck_law_def demo_duck_def)
  have "row_micros (demo_row 900000) = 900000000000" by code_simp
  then show ?thesis
    using end_date_drops_day [OF law, where now_ms = 900000000 and env = demo_duck and r = "demo_row 900000",
        unfolded m] duck m by auto
qed

theorem overview_range_agrees_witness:
  "\<exists>r. validate_ts_range demo_cn (Some 10000) (Some 93600) 7 = Inr r \<and> vr_end r = 93600 \<and> vr_start r = 10000"
proof -
  define s where "s = set_range 90000000 10000 200000 (overview_new (demo_js 0) 90000000)"
  have s: "ov_start_ts s = 10000" "ov_end_ts s = 93600" and now: "now_timestamp 90000000 \<le> cn_now demo_cn"
    unfolding s_def by code_simp+
  obtain r where r: "validate_ts_range demo_cn (Some 10000) (Some 93600) 7 = Inr r"
    by (simp add: validate_ts_range_def Let_def demo_cn_def demo_duck_def)
  then have "validate_ts_range demo_cn (Some (ov_start_ts s)) (Some (ov_end_ts s)) 7 = Inr r" by (simp add: s)
  from overview_range_agrees [OF this [unfolded s_def] now, folded s_def] r show ?thesis by (auto simp: s)
qed

theorem shown_rows_named_witness:
  "\<exists>l. list_proxy_logs demo_cn \<lparr>pq_page = Some 1, pq_per_page = Some 10, pq_filters = demo_query\<rparr> demo_log = Inr l
    \<and> length (ll_items l) = 3"
proof -
  let ?q = "\<lparr>pq_page = Some 1, pq_per_page = Some 10, pq_filters = demo_query\<rparr>"
  let ?s = "(logs_page_new (demo_js 0) 0)\<lparr>lg_total := 3\<rparr>"
  have rs: "filter (where_clause demo_duck demo_query) (proxy_log demo_log) = [demo_row 10, demo_row 4000, demo_row 20]"
    by (simp add: demo_log_def demo_query_def where_clause_def text_filter_def demo_row_def)
  have m: "row_micros (demo_row t) = t * 1000000" for t
    using nonzero_mult_div_cancel_right [of 1000 "t * 1000000"] by (simp add: row_micros_def demo_row_def micros_def)
  have demo: "cn_duck demo_cn = demo_duck" "cn_call demo_cn = \<lparr>co_sent = True, co_in_time = True\<rparr>" by (simp_all add: demo_cn_def)
  have "case list_proxy_logs demo_cn ?q demo_log of Inr l \<Rightarrow> ll_total l = 3 | _ \<Rightarrow> False" by code_simp
  then obtain l where l: "list_proxy_logs demo_cn ?q demo_log = Inr l" "ll_total l = 3" by (auto split: sum.splits)
  have s: "lg_page ?s = 1" "lg_per_page ?s = 10" "lg_total ?s = 3" "shown_range ?s = Some (1, 3)"
    by (simp_all add: logs_page_new_def shown_range_def)
  have "\<not> dk_fault demo_duck n" for n by (simp add: demo_duck_def)
  then show ?thesis
    using shown_rows_named [OF l(1), of ?s, unfolded s demo] demo_duck_law l
    by (auto simp: rs m)
qed

end
