(* ===== verification/Client_Reads.thy ===== *)
theory Client_Reads
  imports Client_Lists Client_Pages
begin

text \<open>
  The log page and the server together: how the server reads the query string of
  \<open>src/frontend/src/api.rs\<close> as the \<open>ProxyLogQuery\<close> of \<open>src/src/handlers/logs.rs\<close>, how a listing is
  written (\<open>ProxyLogEntryResponse\<close> and \<open>PaginatedResponse\<close> of \<open>src/src/db/models.rs\<close>), and how the
  console reads it. Decoding a field of a query string is the argument \<open>unescape\<close>.
\<close>

section \<open>The query string, read by the server\<close>

text \<open>The \<open>Query\<close> extractor: the fields of the string, in order, empty parts left out.\<close>

definition query_pairs :: "(string \<Rightarrow> string) \<Rightarrow> string \<Rightarrow> (string \<times> string) list" where
  "query_pairs unescape s =
     map (\<lambda>p. case split_once CHR ''='' p of Some (k, v) \<Rightarrow> (unescape k, unescape v) | None \<Rightarrow> (unescape p, []))
       (filter (\<lambda>p. p \<noteq> []) (split_on CHR ''&'' s))"

text \<open>An optional field of the target: it may be absent, must be readable, and must not be there twice.\<close>

definition query_field :: "(string \<Rightarrow> 'a option) \<Rightarrow> string \<Rightarrow> (string \<times> string) list \<Rightarrow> 'a option option" where
  "query_field parse k fs = (case filter (\<lambda>(k', _). k' = k) fs of
     [] \<Rightarrow> Some None | [(_, v)] \<Rightarrow> map_option Some (parse v) | _ \<Rightarrow> None)"

definition parse_i64 :: "string \<Rightarrow> int option" where
  "parse_i64 s =
     (case s of
        c # r \<Rightarrow>
          (if c = CHR ''-'' then
             (if r = [] \<or> \<not> list_all is_digit r \<or> 2 ^ 63 < digits_val 10 0 r then None
              else Some (- int (digits_val 10 0 r)))
           else map_option int (parse_uint (2 ^ 63 - 1) s))
      | [] \<Rightarrow> None)"

definition parse_bool :: "string \<Rightarrow> bool option" where
  "parse_bool s = (if s = ''true'' then Some True else if s = ''false'' then Some False else None)"

definition proxy_log_query_of :: "(string \<Rightarrow> string) \<Rightarrow> string \<Rightarrow> proxy_log_query option" where
  "proxy_log_query_of unescape s =
     (let fs = query_pairs unescape s
      in Option.bind (query_field (parse_uint (2 ^ 64 - 1)) ''page'' fs) (\<lambda>page.
         Option.bind (query_field (parse_uint (2 ^ 64 - 1)) ''per_page'' fs) (\<lambda>per_page.
         Option.bind (query_field parse_i64 ''start_ts'' fs) (\<lambda>start_ts.
         Option.bind (query_field parse_i64 ''end_ts'' fs) (\<lambda>end_ts.
         Option.bind (query_field Some ''model_name'' fs) (\<lambda>model_name.
         Option.bind (query_field Some ''provider_name'' fs) (\<lambda>provider_name.
         Option.bind (query_field Some ''status'' fs) (\<lambda>status.
         Option.bind (query_field Some ''api_key_name'' fs) (\<lambda>api_key_name.
         Option.bind (query_field Some ''endpoint'' fs) (\<lambda>endpoint.
         Option.bind (query_field parse_bool ''is_streaming'' fs) (\<lambda>is_streaming.
         Option.bind (query_field Some ''upstream_model'' fs) (\<lambda>upstream_model.
         Option.bind (query_field Some ''provider_type'' fs) (\<lambda>provider_type.
         Option.bind (query_field Some ''client_ip'' fs) (\<lambda>client_ip.
           Some \<lparr>pq_page = page, pq_per_page = per_page, pq_filters =
             \<lparr>lq_page = 0, lq_per_page = 0, lq_start_ts = start_ts, lq_end_ts = end_ts, lq_model_name = model_name,
              lq_provider_name = provider_name, lq_status = status, lq_api_key_name = api_key_name,
              lq_endpoint = endpoint, lq_is_streaming = is_streaming, lq_upstream_model = upstream_model,
              lq_provider_type = provider_type, lq_client_ip = client_ip\<rparr>\<rparr>))))))))))))))"

section \<open>A listing\<close>

definition json_of_log_entry :: "proxy_event \<Rightarrow> json" where
  "json_of_log_entry e = Object
     [(''timestamp'', jint (timestamp (pe_timestamp e))), (''api_key_name'', jopt String (pe_api_key_name e)),
      (''model_name'', String (pe_model_name e)), (''provider_name'', String (pe_provider_name e)),
      (''prompt_tokens'', jopt jint (pe_prompt_tokens e)), (''completion_tokens'', jopt jint (pe_completion_tokens e)),
      (''total_tokens'', jopt jint (pe_total_tokens e)), (''cached_tokens'', jopt jint (pe_cached_tokens e)),
      (''latency_ms'', jint (pe_latency_ms e)), (''status'', String (pe_status e)),
      (''endpoint'', String (pe_endpoint e)), (''is_streaming'', Bool (pe_is_streaming e)),
      (''time_to_first_token_ms'', jopt jint (pe_ttft_ms e)), (''upstream_model'', String (pe_upstream_model e)),
      (''provider_type'', String (pe_provider_type e)), (''response_body_size'', jopt jint (pe_response_body_size e)),
      (''error_message'', jopt String (pe_error_message e)), (''client_ip'', jopt String (pe_client_ip e)),
      (''request_id'', String (pe_request_id e))]"

definition json_of_listing :: "log_listing \<Rightarrow> json" where
  "json_of_listing l = Object
     [(''items'', Array (map json_of_log_entry (ll_items l))), (''total'', jint (ll_total l)),
      (''page'', jint (int (ll_page l))), (''per_page'', jint (int (ll_per_page l)))]"

record ui_log_entry =
  ule_timestamp :: int
  ule_api_key_name :: "string option"
  ule_model_name :: string
  ule_provider_name :: string
  ule_prompt_tokens :: "int option"
  ule_completion_tokens :: "int option"
  ule_total_tokens :: "int option"
  ule_cached_tokens :: "int option"
  ule_latency_ms :: int
  ule_status :: string
  ule_endpoint :: string
  ule_is_streaming :: bool
  ule_ttft_ms :: "int option"
  ule_upstream_model :: string
  ule_provider_type :: string
  ule_response_body_size :: "int option"
  ule_error_message :: "string option"
  ule_client_ip :: "string option"
  ule_request_id :: string

record ui_listing =
  ull_items :: "ui_log_entry list"
  ull_total :: nat
  ull_page :: nat
  ull_per_page :: nat

definition ui_log_entry_of :: "json \<Rightarrow> ui_log_entry option" where
  "ui_log_entry_of v =
     Option.bind (req_field as_i64 ''timestamp'' v) (\<lambda>t.
     Option.bind (opt_field as_str ''api_key_name'' v) (\<lambda>k.
     Option.bind (req_field as_str ''model_name'' v) (\<lambda>m.
     Option.bind (req_field as_str ''provider_name'' v) (\<lambda>p.
     Option.bind (opt_field as_i64 ''prompt_tokens'' v) (\<lambda>pt.
     Option.bind (opt_field as_i64 ''completion_tokens'' v) (\<lambda>ct.
     Option.bind (opt_field as_i64 ''total_tokens'' v) (\<lambda>tt.
     Option.bind (opt_field as_i64 ''cached_tokens'' v) (\<lambda>ca.
     Option.bind (req_field as_i64 ''latency_ms'' v) (\<lambda>la.
     Option.bind (req_field as_str ''status'' v) (\<lambda>st.
     Option.bind (req_field as_str ''endpoint'' v) (\<lambda>e.
     Option.bind (req_field as_bool ''is_streaming'' v) (\<lambda>s.
     Option.bind (opt_field as_i64 ''time_to_first_token_ms'' v) (\<lambda>ft.
     Option.bind (req_field as_str ''upstream_model'' v) (\<lambda>um.
     Option.bind (req_field as_str ''provider_type'' v) (\<lambda>ty.
     Option.bind (opt_field as_i64 ''response_body_size'' v) (\<lambda>bs.
     Option.bind (opt_field as_str ''error_message'' v) (\<lambda>em.
     Option.bind (opt_field as_str ''client_ip'' v) (\<lambda>ip.
     Option.bind (req_field as_str ''request_id'' v) (\<lambda>ri.
       Some \<lparr>ule_timestamp = t, ule_api_key_name = k, ule_model_name = m, ule_provider_name = p, ule_prompt_tokens = pt,
             ule_completion_tokens = ct, ule_total_tokens = tt, ule_cached_tokens = ca, ule_latency_ms = la,
             ule_status = st, ule_endpoint = e, ule_is_streaming = s, ule_ttft_ms = ft, ule_upstream_model = um,
             ule_provider_type = ty, ule_response_body_size = bs, ule_error_message = em, ule_client_ip = ip,
             ule_request_id = ri\<rparr>)))))))))))))))))))"

text \<open>A \<open>u64\<close>.\<close>

fun json_u64 :: "json \<Rightarrow> nat option" where
  "json_u64 (Number (Integer i)) = (if 0 \<le> i \<and> i < 2 ^ 64 then Some (nat i) else None)"
| "json_u64 _ = None"

definition ui_listing_of :: "json \<Rightarrow> ui_listing option" where
  "ui_listing_of v =
     Option.bind (req_field (decode_vec ui_log_entry_of) ''items'' v) (\<lambda>xs.
     Option.bind (req_field json_u64 ''total'' v) (\<lambda>n.
     Option.bind (req_field json_u64 ''page'' v) (\<lambda>p.
     Option.bind (req_field json_u64 ''per_page'' v) (\<lambda>pp.
       Some \<lparr>ull_items = xs, ull_total = n, ull_page = p, ull_per_page = pp\<rparr>))))"

definition seen_log_entry :: "proxy_event \<Rightarrow> ui_log_entry" where
  "seen_log_entry e =
     \<lparr>ule_timestamp = timestamp (pe_timestamp e), ule_api_key_name = pe_api_key_name e, ule_model_name = pe_model_name e,
      ule_provider_name = pe_provider_name e, ule_prompt_tokens = pe_prompt_tokens e,
      ule_completion_tokens = pe_completion_tokens e, ule_total_tokens = pe_total_tokens e,
      ule_cached_tokens = pe_cached_tokens e, ule_latency_ms = pe_latency_ms e, ule_status = pe_status e,
      ule_endpoint = pe_endpoint e, ule_is_streaming = pe_is_streaming e, ule_ttft_ms = pe_ttft_ms e,
      ule_upstream_model = pe_upstream_model e, ule_provider_type = pe_provider_type e,
      ule_response_body_size = pe_response_body_size e, ule_error_message = pe_error_message e,
      ule_client_ip = pe_client_ip e, ule_request_id = pe_request_id e\<rparr>"

definition seen_listing :: "log_listing \<Rightarrow> ui_listing" where
  "seen_listing l = \<lparr>ull_items = map seen_log_entry (ll_items l), ull_total = nat (ll_total l), ull_page = ll_page l,
     ull_per_page = ll_per_page l\<rparr>"

text \<open>What the log page gets for its request, answered by the handler over the log tables \<open>d\<close>.\<close>

definition fetch_proxy_logs ::
    "api_env \<Rightarrow> (string \<Rightarrow> string) \<Rightarrow> http_error \<Rightarrow> console_env \<Rightarrow> log_db \<Rightarrow> nat \<Rightarrow> nat \<Rightarrow> log_filter \<Rightarrow> client
      \<Rightarrow> api_error + ui_listing" where
  "fetch_proxy_logs env unescape refusal cenv d page per_page f c =
     exchange_get env json_of_listing
       (case proxy_log_query_of unescape (proxy_logs_query env page per_page f) of
          Some q \<Rightarrow> list_proxy_logs cenv q d | None \<Rightarrow> Inl refusal) ui_listing_of c"

section \<open>Facts\<close>

lemma field_reads:
  "map_of m k = Some (jopt String y) \<Longrightarrow> opt_field as_str k (Object m) = Some y"
  "map_of m k = Some (jopt jint z) \<Longrightarrow> opt_field as_i64 k (Object m) = (if in_i64 z then Some z else None)"
  "map_of m k = Some (jint i) \<Longrightarrow> req_field as_i64 k (Object m) = (if in_i64 (Some i) then Some i else None)"
  "map_of m k = Some (String s) \<Longrightarrow> req_field as_str k (Object m) = Some s"
  "map_of m k = Some (Bool b) \<Longrightarrow> req_field as_bool k (Object m) = Some b"
  by (cases y) (simp_all add: opt_field_def, cases z, simp_all add: opt_field_def jint_def in_i64_def req_field_def)

lemma ui_log_entry_read: "ui_log_entry_of (json_of_log_entry e) = Some x \<Longrightarrow> x = seen_log_entry e"
  unfolding ui_log_entry_of_def json_of_log_entry_def seen_log_entry_def
  by (simp add: field_reads split: if_split_asm)


lemma ui_listing_read: "ui_listing_of (json_of_listing l) = Some x \<Longrightarrow> x = seen_listing l"
proof -
  assume read: "ui_listing_of (json_of_listing l) = Some x"
  have u64: "json_u64 (jint i) = Some n \<Longrightarrow> n = nat i" for i n by (simp add: jint_def split: if_splits)
  have items: "decode_items ui_log_entry_of (map json_of_log_entry es) = Some ys \<Longrightarrow> ys = map seen_log_entry es" for es ys
    by (rule decode_items_map) (rule ui_log_entry_read)
  from read show ?thesis
    by (auto simp: ui_listing_of_def json_of_listing_def seen_listing_def req_field_def bind_eq_Some_conv dest!: u64 dest: items)
qed

lemma parse_uint_show: "n < 2 ^ k \<Longrightarrow> parse_uint (2 ^ k - 1) (show_nat n) = Some n"
proof -
  assume n: "n < 2 ^ k"
  obtain c r where s: "show_nat n = c # r" by (cases "show_nat n") (auto simp: show_nat_def)
  have "is_digit c" using show_nat_digits [of c n] s by simp
  then have c: "c \<noteq> CHR ''+''" by (auto simp: is_digit_def byte_def)
  have "list_all is_digit (show_nat n)" using show_nat_digits by (auto simp: list_all_iff)
  moreover have "digits_val 10 0 (show_nat n) = n" by (simp add: show_nat_def digits_val_digits)
  ultimately show ?thesis using n c s by (simp add: parse_uint_def Let_def)
qed

lemma parse_i64_show: "in_i64 (Some i) \<Longrightarrow> parse_i64 (show_int i) = Some i"
proof -
  assume i: "in_i64 (Some i)"
  have digits: "list_all is_digit (show_nat n)" "digits_val 10 0 (show_nat n) = n" "show_nat n \<noteq> []" for n
    using show_nat_digits by (auto simp: list_all_iff show_nat_def digits_val_digits)
  show ?thesis
  proof (cases "i < 0")
    case True
    then show ?thesis using i digits by (simp add: show_int_def parse_i64_def in_i64_def)
  next
    case False
    obtain c r where s: "show_nat (nat i) = c # r" by (cases "show_nat (nat i)") (auto simp: digits(3))
    have "is_digit c" using show_nat_digits [of c "nat i"] s by simp
    then have c: "c \<noteq> CHR ''-''" by (auto simp: is_digit_def byte_def)
    have "nat i < 2 ^ 63" using i False by (simp add: in_i64_def)
    from parse_uint_show [OF this] show ?thesis using False c s by (simp add: show_int_def parse_i64_def)
  qed
qed

lemma parse_bool_show: "parse_bool (show_bool b) = Some b"
  by (simp add: parse_bool_def show_bool_def)

text \<open>The fields of a form, by name; each name occurs once.\<close>

definition given_fields :: "(string \<times> string option) list \<Rightarrow> (string \<times> string) list" where
  "given_fields gs = List.map_filter (\<lambda>(k, v). map_option (Pair k) v) gs"

lemma given_fields_simps [simp]:
  "given_fields [] = []" "given_fields ((k, None) # gs) = given_fields gs"
  "given_fields ((k, Some v) # gs) = (k, v) # given_fields gs"
  by (simp_all add: given_fields_def map_filter_simps)

lemma query_field_given:
  assumes "distinct (map fst gs)"
  shows "query_field parse k (given_fields gs) = (case map_of gs k of
     Some (Some v) \<Rightarrow> map_option Some (parse v) | _ \<Rightarrow> Some None)"
proof -
  have none: "k \<notin> fst ` set gs \<Longrightarrow> filter (\<lambda>(k', _). k' = k) (given_fields gs) = []" for gs
    by (induction gs) (auto simp: given_fields_def map_filter_def split: option.splits)
  have "filter (\<lambda>(k', _). k' = k) (given_fields gs) = (case map_of gs k of Some (Some v) \<Rightarrow> [(k, v)] | _ \<Rightarrow> [])"
    using assms
  proof (induction gs)
    case (Cons g gs)
    obtain k' v where g: "g = (k', v)" by (cases g)
    then show ?case using Cons none [of gs] by (cases v) (auto simp: g)
  qed simp
  then show ?thesis by (simp add: query_field_def split: option.split)
qed

text \<open>
  Unescaping a field undoes \<open>encodeURIComponent\<close> and leaves a text alone that has neither a percent
  sign nor a plus sign.
\<close>

definition unescape_law :: "api_env \<Rightarrow> (string \<Rightarrow> string) \<Rightarrow> bool" where
  "unescape_law env unescape \<longleftrightarrow> (\<forall>s e. ap_encode_uri env s = Some e \<longrightarrow> unescape e = s)
     \<and> (\<forall>s. CHR ''%'' \<notin> set s \<longrightarrow> CHR ''+'' \<notin> set s \<longrightarrow> unescape s = s)"

lemma query_pairs_sent:
  assumes "encode_uri_law env" "unescape_law env unescape"
  shows "query_pairs unescape (proxy_logs_query env page per_page f)
    = given_fields ((''page'', Some (show_nat page)) # (''per_page'', Some (show_nat per_page)) # log_fields f)"
proof -
  let ?parts = "split_on CHR ''&'' (proxy_logs_query env page per_page f)"
  let ?fs = "(''page'', show_nat page) # (''per_page'', show_nat per_page) # present env (log_fields f)"
  have fs: "map (split_once CHR ''='') ?parts = map Some ?fs" using log_query_fields [OF assms(1)] by blast
  have split: "split_once CHR ''='' p \<noteq> None" if "p \<in> set ?parts" for p
  proof -
    have "split_once CHR ''='' p \<in> set (map (split_once CHR ''='') ?parts)" using that by simp
    then show ?thesis unfolding fs by auto
  qed
  have "[] \<notin> set ?parts" using split [of "[]"] by auto
  then have "filter (\<lambda>p. p \<noteq> []) ?parts = ?parts" by (auto simp: filter_id_conv)
  then have "query_pairs unescape (proxy_logs_query env page per_page f)
      = map (\<lambda>x. case x of Some (k, v) \<Rightarrow> (unescape k, unescape v) | None \<Rightarrow> ([], [])) (map (split_once CHR ''='') ?parts)"
    using split by (auto simp: query_pairs_def split: option.split dest!: split)
  also have "\<dots> = map (\<lambda>(k, v). (unescape k, unescape v)) ?fs" unfolding fs by (simp add: comp_def)
  also have "\<dots> = given_fields ((''page'', Some (show_nat page)) # (''per_page'', Some (show_nat per_page)) # log_fields f)"
  proof -
    have plain: "unescape s = s" if "CHR ''%'' \<notin> set s" "CHR ''+'' \<notin> set s" for s
      using assms(2) that by (auto simp: unescape_law_def)
    have number: "unescape (show_nat n) = show_nat n" for n
      using show_nat_digits [of "CHR ''%''" n] show_nat_digits [of "CHR ''+''" n]
      by (intro plain) (auto simp: is_digit_def byte_def)
    have enc: "unescape (encoded env s) = s" for s
      using assms by (auto simp: encode_uri_law_def unescape_law_def encoded_def split: option.split dest: spec [of _ s])
    have "map (\<lambda>(k, v). (unescape k, unescape v)) (present env gs) = given_fields gs"
      if "\<forall>(k, v) \<in> set gs. unescape k = k" for gs
      using that
    proof (induction gs)
      case (Cons g gs)
      then show ?case by (cases g; cases "snd g") (auto simp: enc)
    qed simp
    moreover have "\<forall>(k, v) \<in> set (log_fields f). unescape k = k" by (simp add: log_fields_def plain)
    ultimately show ?thesis by (simp add: number plain)
  qed
  finally show ?thesis .
qed

section \<open>Properties\<close>



section \<open>Witnesses\<close>

text \<open>Escaping in two hexadecimal digits, and back.\<close>

definition demo_escape :: "string \<Rightarrow> string" where
  "demo_escape s = concat (map (\<lambda>c. if is_ascii_alphanumeric c then [c]
     else [CHR ''%'', digit_char (byte c div 16), digit_char (byte c mod 16)]) s)"

fun demo_unescape :: "string \<Rightarrow> string" where
  "demo_unescape (c # a # b # r) =
     (if c = CHR ''%'' then char_of (digits_val 16 0 [a, b]) # demo_unescape r else c # demo_unescape (a # b # r))"
| "demo_unescape s = s"

lemma demo_unescape_plain: "c \<noteq> CHR ''%'' \<Longrightarrow> demo_unescape (c # r) = c # demo_unescape r"
  by (cases r; cases "tl r") auto

lemma demo_unescape_escape: "demo_unescape (demo_escape s) = s"
proof (induction s)
  case (Cons c s)
  show ?case
  proof (cases "is_ascii_alphanumeric c")
    case True
    then have "c \<noteq> CHR ''%''"
      by (auto simp: is_ascii_alphanumeric_def is_digit_def is_upper_def is_lower_def byte_def)
    then show ?thesis using True Cons by (simp add: demo_escape_def demo_unescape_plain)
  next
    case False
    have "byte c < 256" by (simp add: byte_def)
    then have "digits_val 16 0 [digit_char (byte c div 16), digit_char (byte c mod 16)] = byte c"
      by (simp add: digit_val_digit_char)
    then have "char_of (digits_val 16 0 [digit_char (byte c div 16), digit_char (byte c mod 16)]) = c"
      by (simp only:) (simp add: byte_def)
    then show ?thesis using False Cons by (simp add: demo_escape_def del: digits_val.simps)
  qed
qed (simp add: demo_escape_def)

definition demo_escaping :: api_env where
  "demo_escaping = demo_api\<lparr>ap_encode_uri := (\<lambda>s. Some (demo_escape s))\<rparr>"

lemma demo_escaping_laws: "encode_uri_law demo_escaping" "unescape_law demo_escaping demo_unescape"
proof -
  have none: "digit_val 16 (CHR ''&'') = None" "digit_val 16 (CHR ''='') = None" "digit_val 16 (CHR ''#'') = None"
    by code_simp+
  have hex: "digit_char d \<noteq> CHR ''&'' \<and> digit_char d \<noteq> CHR ''='' \<and> digit_char d \<noteq> CHR ''#''" if "d < 16" for d
  proof -
    have "digit_val 16 (digit_char d) = Some d" using that by (simp add: digit_val_digit_char)
    then have "digit_val 16 (digit_char d) \<noteq> None" by simp
    then show ?thesis using none by metis
  qed
  have special: "\<not> is_ascii_alphanumeric (CHR ''&'')" "\<not> is_ascii_alphanumeric (CHR ''='')"
      "\<not> is_ascii_alphanumeric (CHR ''#'')" by code_simp+
  have "c' \<noteq> CHR ''&'' \<and> c' \<noteq> CHR ''='' \<and> c' \<noteq> CHR ''#''"
    if "c' \<in> set (if is_ascii_alphanumeric c then [c] else [CHR ''%'', digit_char (byte c div 16), digit_char (byte c mod 16)])"
    for c c'
  proof -
    have "byte c div 16 < 16" "byte c mod 16 < 16" by (simp_all add: byte_def div_less_iff_less_mult)
    then show ?thesis
      using that hex special by (cases "is_ascii_alphanumeric c") auto
  qed
  then have "c' \<noteq> CHR ''&'' \<and> c' \<noteq> CHR ''='' \<and> c' \<noteq> CHR ''#''" if "c' \<in> set (demo_escape s)" for c' s
    using that unfolding demo_escape_def set_concat set_map by blast
  then show "encode_uri_law demo_escaping"
    unfolding encode_uri_law_def demo_escaping_def by (intro allI exI conjI) (simp, blast+)
  have plain: "CHR ''%'' \<notin> set s \<Longrightarrow> demo_unescape s = s" for s
    by (induction s rule: demo_unescape.induct) auto
  then show "unescape_law demo_escaping demo_unescape"
    by (auto simp: unescape_law_def demo_escaping_def demo_unescape_escape)
qed


end
