(* ===== verification/Client_Charts.thy ===== *)
theory Client_Charts
  imports Client_Ui
begin

text \<open>
  The charts of the console (\<open>src/frontend/src/components/echarts.rs\<close>, \<open>line_chart.rs\<close>,
  \<open>pie_chart.rs\<close>): the option a chart is given, and how the charts of a page load one shared script,
  make their instances and drop them. The script itself is a file the page loads; whether it
  arrives, and whether it brings a usable \<open>echarts\<close>, are events.
\<close>

section \<open>Options\<close>

text \<open>The values are doubles, as JSON numbers.\<close>

record chart_series =
  cs_name :: string
  cs_data :: "number list"

record pie_data =
  pd_name :: string
  pd_value :: number

definition tooltip_bg :: "bool \<Rightarrow> string" where
  "tooltip_bg dark = (if dark then ''#282828'' else ''#ffffff'')"

definition tooltip_border :: "bool \<Rightarrow> string" where
  "tooltip_border dark = (if dark then ''#404040'' else ''#e5e7eb'')"

definition tooltip_color :: "bool \<Rightarrow> string" where
  "tooltip_color dark = (if dark then ''#e7e7e7'' else ''#374151'')"

definition text_color :: "bool \<Rightarrow> string" where
  "text_color dark = (if dark then ''#d5d5d5'' else ''#374151'')"

definition split_color :: "bool \<Rightarrow> string" where
  "split_color dark = (if dark then ''#404040'' else ''#e5e7eb'')"

definition line_series :: "chart_series \<Rightarrow> json" where
  "line_series s = Object
     [(''data'', Array (map Number (cs_data s))), (''name'', String (cs_name s)), (''smooth'', Bool True),
      (''symbol'', String ''circle''), (''symbolSize'', Number (Integer 6)), (''type'', String ''line'')]"

definition build_line_option :: "string list \<Rightarrow> chart_series list \<Rightarrow> bool \<Rightarrow> json" where
  "build_line_option x_data series_list dark =
     (let color = (\<lambda>c. Object [(''color'', String c)]);
          line = Object [(''lineStyle'', color (split_color dark))]
      in Object
       [(''grid'', Object [(''bottom'', String ''5%''), (''containLabel'', Bool True), (''left'', String ''5%''),
          (''right'', String ''5%''), (''top'', String ''5%'')]),
        (''series'', Array (map line_series series_list)),
        (''tooltip'', Object [(''backgroundColor'', String (tooltip_bg dark)),
          (''borderColor'', String (tooltip_border dark)), (''textStyle'', color (tooltip_color dark)),
          (''trigger'', String ''axis'')]),
        (''xAxis'', Object [(''axisLabel'', color (text_color dark)), (''axisLine'', line), (''boundaryGap'', Bool False),
          (''data'', Array (map String x_data)), (''splitLine'', line), (''type'', String ''category'')]),
        (''yAxis'', Object [(''axisLabel'', color (text_color dark)), (''axisLine'', Object [(''show'', Bool False)]),
          (''min'', Number (Integer 0)), (''splitLine'', line), (''type'', String ''value'')])])"

definition pie_colors :: "string list" where
  "pie_colors = [''#f2d5cf'', ''#e78284'', ''#a6d189'', ''#8caaee'', ''#eebebe'', ''#ea999c'', ''#81c8be'',
     ''#babbf1'', ''#f4b8e4'', ''#ef9f76'', ''#99d1db'', ''#ca9ee6'', ''#e5c890'', ''#85c1dc'']"

definition build_pie_option :: "pie_data list \<Rightarrow> bool \<Rightarrow> json" where
  "build_pie_option slices dark = Object
     [(''color'', Array (map String pie_colors)),
      (''series'', Array [Object
         [(''avoidLabelOverlap'', Bool True),
          (''data'', Array (map (\<lambda>d. Object [(''name'', String (pd_name d)), (''value'', Number (pd_value d))]) slices)),
          (''emphasis'', Object [(''label'', Object [(''fontSize'', Number (Integer 14)),
             (''fontWeight'', String ''bold''), (''show'', Bool True)])]),
          (''label'', Object [(''color'', String (text_color dark)), (''formatter'', String ''{b}: {d}%''),
             (''show'', Bool True)]),
          (''radius'', Array [String ''40%'', String ''70%'']), (''type'', String ''pie'')]]),
      (''tooltip'', Object [(''backgroundColor'', String (tooltip_bg dark)),
         (''borderColor'', String (tooltip_border dark)), (''formatter'', String ''{b}: {c} ({d}%)''),
         (''textStyle'', Object [(''color'', String (tooltip_color dark))]), (''trigger'', String ''item'')])]"

section \<open>State\<close>

text \<open>
  The global \<open>echarts\<close> is not there, not what it should be, or usable. \<open>ECHARTS_READY\<close> is empty or
  the promise of the one script element. A load waits for its first run, or for the promise.
\<close>

datatype echarts_global = Absent | Malformed | Usable

datatype script_promise = Unrequested | Pending | Resolved | Rejected

datatype load_stage = Spawned | Awaiting

record chart_ui =
  ch_observed :: bool
  ch_alive :: bool
  ch_loading :: bool
  ch_chart :: bool
  ch_option :: json

text \<open>\<open>ct_live\<close>: the elements that have an instance, with the option it was given last.\<close>

record charts =
  ct_global :: echarts_global
  ct_promise :: script_promise
  ct_scripts :: nat
  ct_charts :: "nat \<Rightarrow> chart_ui"
  ct_loads :: "(nat \<times> load_stage) list"
  ct_live :: "nat \<rightharpoonup> json option"

definition chart_ui_new :: chart_ui where
  "chart_ui_new = \<lparr>ch_observed = False, ch_alive = True, ch_loading = False, ch_chart = False, ch_option = Null\<rparr>"

definition charts_new :: charts where
  "charts_new = \<lparr>ct_global = Absent, ct_promise = Unrequested, ct_scripts = 0, ct_charts = (\<lambda>_. chart_ui_new),
     ct_loads = [], ct_live = Map.empty\<rparr>"

definition set_chart :: "nat \<Rightarrow> chart_ui \<Rightarrow> charts \<Rightarrow> charts" where
  "set_chart i c s = s\<lparr>ct_charts := (ct_charts s)(i := c)\<rparr>"

section \<open>Operations\<close>

text \<open>\<open>Chart::init\<close>: whether there is an instance on the element afterwards, an old one or a new one.\<close>

definition chart_init :: "nat \<Rightarrow> charts \<Rightarrow> bool \<times> charts" where
  "chart_init i s =
     (if ct_global s = Usable
      then (True, if ct_live s i \<noteq> None then s else s\<lparr>ct_live := (ct_live s)(i \<mapsto> None)\<rparr>)
      else (False, s))"

definition chart_set_option :: "nat \<Rightarrow> json \<Rightarrow> charts \<Rightarrow> charts" where
  "chart_set_option i v s = (if ct_live s i = None then s else s\<lparr>ct_live := (ct_live s)(i \<mapsto> Some v)\<rparr>)"

definition chart_dispose :: "nat \<Rightarrow> charts \<Rightarrow> charts" where
  "chart_dispose i s = s\<lparr>ct_live := (ct_live s)(i := None)\<rparr>"

text \<open>\<open>ensure_echarts_loaded\<close> up to its \<open>await\<close>: loaded already, or a promise to wait for.\<close>

definition ensure_echarts_loaded :: "charts \<Rightarrow> bool \<times> charts" where
  "ensure_echarts_loaded s =
     (if ct_global s \<noteq> Absent then (True, s)
      else (False, if ct_promise s = Unrequested
                   then s\<lparr>ct_promise := Pending, ct_scripts := ct_scripts s + 1\<rparr> else s))"

text \<open>The effect of a chart component: the option goes to the chart it holds.\<close>

definition option_effect :: "nat \<Rightarrow> charts \<Rightarrow> charts" where
  "option_effect i s =
     (if ch_chart (ct_charts s i) then chart_set_option i (ch_option (ct_charts s i)) s else s)"

text \<open>The end of a load.\<close>

definition finish_load :: "nat \<Rightarrow> bool \<Rightarrow> charts \<Rightarrow> charts" where
  "finish_load i loaded s =
     (let s = s\<lparr>ct_loads := filter (\<lambda>(j, _). j \<noteq> i) (ct_loads s)\<rparr>; c = ct_charts s i
      in if \<not> loaded then set_chart i (c\<lparr>ch_loading := False\<rparr>) s
         else (case chart_init i s of (made, s) \<Rightarrow>
           if \<not> made then s
           else if ch_alive c then option_effect i (set_chart i (c\<lparr>ch_chart := True\<rparr>) s)
           else chart_dispose i s))"

definition start_load :: "nat \<Rightarrow> charts \<Rightarrow> charts" where
  "start_load i s =
     (let c = ct_charts s i
      in if ch_chart c \<or> ch_loading c then s
         else set_chart i (c\<lparr>ch_loading := True\<rparr>) (s\<lparr>ct_loads := ct_loads s @ [(i, Spawned)]\<rparr>))"

text \<open>
  The effect with an element of the given width, and the callback of the observer; resizing the
  instance changes nothing here.
\<close>

definition mount :: "nat \<Rightarrow> nat \<Rightarrow> charts \<Rightarrow> charts" where
  "mount i width s =
     (let c = ct_charts s i
      in if ch_observed c \<or> ch_loading c then s
         else (let s = set_chart i (c\<lparr>ch_observed := True\<rparr>) s
               in if width > 0 then start_load i s else s))"

definition on_resize :: "nat \<Rightarrow> nat \<Rightarrow> charts \<Rightarrow> charts" where
  "on_resize i width s = (if width = 0 then s else start_load i s)"

definition cleanup :: "nat \<Rightarrow> charts \<Rightarrow> charts" where
  "cleanup i s =
     (let c = ct_charts s i; s = set_chart i (c\<lparr>ch_alive := False, ch_observed := False\<rparr>) s
      in if ch_chart c then chart_dispose i s else s)"

section \<open>Steps\<close>

text \<open>
  Effects run and observers report only while the chart's component is there. A step that cannot
  happen is \<open>None\<close>.
\<close>

datatype chart_event =
    Mount nat nat
  | Resize nat nat
  | NewOption nat json
  | Run nat
  | ScriptLoaded echarts_global
  | ScriptFailed
  | Cleanup nat

definition chart_step :: "chart_event \<Rightarrow> charts \<Rightarrow> charts option" where
  "chart_step ev s = (case ev of
     Mount i w \<Rightarrow> if ch_alive (ct_charts s i) then Some (mount i w s) else None
   | Resize i w \<Rightarrow>
       if ch_alive (ct_charts s i) \<and> ch_observed (ct_charts s i) then Some (on_resize i w s) else None
   | NewOption i v \<Rightarrow>
       if ch_alive (ct_charts s i)
       then Some (option_effect i (set_chart i ((ct_charts s i)\<lparr>ch_option := v\<rparr>) s)) else None
   | Run i \<Rightarrow>
       (case map_of (ct_loads s) i of
          None \<Rightarrow> None
        | Some Spawned \<Rightarrow>
            (case ensure_echarts_loaded s of
               (True, s) \<Rightarrow> Some (finish_load i True s)
             | (False, s) \<Rightarrow> Some (s\<lparr>ct_loads := map (\<lambda>(j, g). (j, if j = i then Awaiting else g)) (ct_loads s)\<rparr>))
        | Some Awaiting \<Rightarrow>
            if ct_promise s = Resolved then Some (finish_load i True s)
            else if ct_promise s = Rejected then Some (finish_load i False s)
            else None)
   | ScriptLoaded g \<Rightarrow>
       if ct_promise s = Pending then Some (s\<lparr>ct_promise := Resolved, ct_global := g\<rparr>) else None
   | ScriptFailed \<Rightarrow> if ct_promise s = Pending then Some (s\<lparr>ct_promise := Rejected\<rparr>) else None
   | Cleanup i \<Rightarrow> if ch_alive (ct_charts s i) then Some (cleanup i s) else None)"

inductive charts_reach :: "charts \<Rightarrow> bool" where
  start: "charts_reach charts_new"
| step: "charts_reach s \<Longrightarrow> chart_step ev s = Some s' \<Longrightarrow> charts_reach s'"

section \<open>The invariant\<close>

definition charts_ok :: "charts \<Rightarrow> bool" where
  "charts_ok s \<longleftrightarrow>
     distinct (map fst (ct_loads s))
   \<and> ct_scripts s = (if ct_promise s = Unrequested then 0 else 1)
   \<and> (\<forall>(i, g) \<in> set (ct_loads s). ch_loading (ct_charts s i) \<and> \<not> ch_chart (ct_charts s i)
        \<and> (g = Awaiting \<longrightarrow> ct_promise s \<noteq> Unrequested))
   \<and> (\<forall>i. ct_live s i = (if ch_chart (ct_charts s i) \<and> ch_alive (ct_charts s i)
        then Some (Some (ch_option (ct_charts s i))) else None))
   \<and> (\<forall>i. ch_chart (ct_charts s i) \<longrightarrow> ch_loading (ct_charts s i))"

lemmas chart_ops = set_chart_def chart_init_def chart_set_option_def chart_dispose_def option_effect_def
  finish_load_def start_load_def mount_def on_resize_def cleanup_def ensure_echarts_loaded_def Let_def

lemma charts_okD:
  assumes "charts_ok s"
  shows "distinct (map fst (ct_loads s))" "ct_scripts s = (if ct_promise s = Unrequested then 0 else 1)"
    and "(i, g) \<in> set (ct_loads s) \<Longrightarrow> ch_loading (ct_charts s i) \<and> \<not> ch_chart (ct_charts s i)
      \<and> (g = Awaiting \<longrightarrow> ct_promise s \<noteq> Unrequested)"
    and "ct_live s i = (if ch_chart (ct_charts s i) \<and> ch_alive (ct_charts s i)
      then Some (Some (ch_option (ct_charts s i))) else None)"
    and "ch_chart (ct_charts s i) \<Longrightarrow> ch_loading (ct_charts s i)"
  using assms by (auto simp: charts_ok_def)

lemma charts_okI:
  assumes "distinct (map fst (ct_loads s))" "ct_scripts s = (if ct_promise s = Unrequested then 0 else 1)"
    and "\<And>i g. (i, g) \<in> set (ct_loads s) \<Longrightarrow> ch_loading (ct_charts s i) \<and> \<not> ch_chart (ct_charts s i)
      \<and> (g = Awaiting \<longrightarrow> ct_promise s \<noteq> Unrequested)"
    and "\<And>i. ct_live s i = (if ch_chart (ct_charts s i) \<and> ch_alive (ct_charts s i)
      then Some (Some (ch_option (ct_charts s i))) else None)"
    and "\<And>i. ch_chart (ct_charts s i) \<Longrightarrow> ch_loading (ct_charts s i)"
  shows "charts_ok s"
  using assms by (auto simp: charts_ok_def)

text \<open>A step that changes the state of one chart and leaves whether it holds an instance.\<close>

lemma start_load_ok: "charts_ok s \<Longrightarrow> charts_ok (start_load i s)"
proof (cases "ch_chart (ct_charts s i) \<or> ch_loading (ct_charts s i)")
  case False
  assume ok: "charts_ok s"
  note d = charts_okD [OF ok]
  from False show ?thesis
    by (intro charts_okI) (use d in \<open>auto simp: start_load_def set_chart_def Let_def split: if_splits\<close>)
qed (simp add: start_load_def Let_def)

lemma finish_load_ok:
  assumes ok: "charts_ok s" and i: "i \<in> fst ` set (ct_loads s)"
  shows "charts_ok (finish_load i loaded s)"
proof -
  note d = charts_okD [OF ok]
  have held: "\<not> ch_chart (ct_charts s i)" "ch_loading (ct_charts s i)" "ct_live s i = None" using d(3,4) i by auto
  have rest: "distinct (map fst (filter (\<lambda>(j, _). j \<noteq> i) (ct_loads s)))" by (rule distinct_map_filter [OF d(1)])
  note defs = finish_load_def set_chart_def chart_init_def chart_dispose_def option_effect_def chart_set_option_def Let_def
  show ?thesis
  proof (cases "loaded \<and> ct_global s = Usable \<and> ch_alive (ct_charts s i)")
    case True
    then show ?thesis
      by (intro charts_okI) (use d rest held in \<open>auto simp: defs split: if_splits\<close>)
  next
    case False
    then show ?thesis
      by (intro charts_okI) (use d rest held in \<open>auto simp: defs split: if_splits\<close>)
  qed
qed


text \<open>A change of one chart that keeps what it holds.\<close>

lemma set_chart_ok:
  assumes ok: "charts_ok s" and "ch_chart c = ch_chart (ct_charts s i)" "ch_loading c = ch_loading (ct_charts s i)"
    and "ch_alive c = ch_alive (ct_charts s i)" "ch_option c = ch_option (ct_charts s i)"
  shows "charts_ok (set_chart i c s)"
  by (intro charts_okI) (use charts_okD [OF ok] assms(2-) in \<open>auto simp: set_chart_def split: if_splits\<close>)

lemma mount_ok: "charts_ok s \<Longrightarrow> charts_ok (mount i w s)"
  using start_load_ok set_chart_ok [of s "(ct_charts s i)\<lparr>ch_observed := True\<rparr>" i] by (auto simp: mount_def Let_def)

lemma on_resize_ok: "charts_ok s \<Longrightarrow> charts_ok (on_resize i w s)"
  by (simp add: on_resize_def start_load_ok)

lemma new_option_ok:
  assumes "charts_ok s" and "ch_alive (ct_charts s i)"
  shows "charts_ok (option_effect i (set_chart i ((ct_charts s i)\<lparr>ch_option := v\<rparr>) s))"
  by (intro charts_okI) (use charts_okD [OF assms(1)] assms(2) in \<open>auto simp: option_effect_def set_chart_def
      chart_set_option_def split: if_splits\<close>)

lemma cleanup_ok: "charts_ok s \<Longrightarrow> charts_ok (cleanup i s)"
proof -
  assume ok: "charts_ok s"
  show "charts_ok (cleanup i s)"
    by (intro charts_okI) (use charts_okD [OF ok] in \<open>auto simp: cleanup_def set_chart_def chart_dispose_def Let_def split: if_splits\<close>)
qed

lemma script_ok:
  assumes "charts_ok s"
  shows "charts_ok (snd (ensure_echarts_loaded s))" "p \<noteq> Unrequested \<Longrightarrow> ct_promise s \<noteq> Unrequested \<Longrightarrow>
    charts_ok (s\<lparr>ct_promise := p, ct_global := g\<rparr>)"
  by (intro charts_okI; use charts_okD [OF assms] in \<open>auto simp: ensure_echarts_loaded_def split: if_splits\<close>)+

lemma await_ok:
  assumes "charts_ok s" and "ct_promise s \<noteq> Unrequested"
  shows "charts_ok (s\<lparr>ct_loads := map (\<lambda>(j, g). (j, if j = i then Awaiting else g)) (ct_loads s)\<rparr>)"
proof -
  have "map fst (map (\<lambda>(j, g). (j, if j = i then Awaiting else g)) (ct_loads s)) = map fst (ct_loads s)" by auto
  then have "distinct (map fst (map (\<lambda>(j, g). (j, if j = i then Awaiting else g)) (ct_loads s)))"
    by (simp only: charts_okD(1) [OF assms(1)])
  then show ?thesis
    by (intro charts_okI) (use charts_okD [OF assms(1)] assms(2) in \<open>auto split: if_splits\<close>)
qed

lemma chart_step_ok:
  assumes ok: "charts_ok s" and step: "chart_step ev s = Some s'"
  shows "charts_ok s'"
proof (cases ev)
  case (Run i)
  then obtain g where g: "map_of (ct_loads s) i = Some g" using step by (auto simp: chart_step_def split: option.splits)
  then have i: "i \<in> fst ` set (ct_loads s)" by (force dest: map_of_SomeD)
  show ?thesis
  proof (cases g)
    case Spawned
    obtain b s1 where e: "ensure_echarts_loaded s = (b, s1)" by fastforce
    then have "charts_ok s1" "ct_loads s1 = ct_loads s" "\<not> b \<Longrightarrow> ct_promise s1 \<noteq> Unrequested"
      using script_ok(1) [OF ok] by (auto simp: ensure_echarts_loaded_def split: if_splits)
    then show ?thesis
      using step g Spawned Run e i finish_load_ok [of s1 i True] await_ok [of s1 i]
      by (auto simp: chart_step_def split: bool.splits)
  next
    case Awaiting
    then show ?thesis
      using step g Run i finish_load_ok [OF ok i] by (auto simp: chart_step_def split: if_splits)
  qed
next
  case (ScriptLoaded g)
  then show ?thesis using step script_ok(2) [OF ok, of Resolved g] by (auto simp: chart_step_def split: if_splits)
next
  case ScriptFailed
  then show ?thesis
    using step script_ok(2) [OF ok, of Rejected "ct_global s"] by (auto simp: chart_step_def split: if_splits)
qed (use step ok mount_ok on_resize_ok new_option_ok cleanup_ok in \<open>auto simp: chart_step_def split: if_splits\<close>)

lemma charts_reach_ok: "charts_reach s \<Longrightarrow> charts_ok s"
proof (induction rule: charts_reach.induct)
  case start
  show ?case by (simp add: charts_ok_def charts_new_def chart_ui_new_def)
next
  case (step s ev s')
  then show ?case using chart_step_ok by blast
qed

section \<open>Properties\<close>

text \<open>
  C24: The charts share one script and leave nothing behind. However the charts of a page come, change
  size, get new data and go, and whatever becomes of the script: at most one script element is
  added; a chart has at most one load under way; an element has an instance exactly when its
  chart holds it and is still there, so no instance outlives its chart, not even one whose load
  was under way when the chart went; and an instance shows the option made of the latest data.
\<close>

theorem charts_do_not_leak:
  assumes "charts_reach s"
  shows "ct_scripts s \<le> 1 \<and> distinct (map fst (ct_loads s))
    \<and> (\<forall>i. ct_live s i \<noteq> None \<longleftrightarrow> ch_alive (ct_charts s i) \<and> ch_chart (ct_charts s i))
    \<and> (\<forall>i shown. ct_live s i = Some shown \<longrightarrow> shown = Some (ch_option (ct_charts s i)))"
  using charts_okD [OF charts_reach_ok [OF assms]] by (auto split: if_splits)

text \<open>
  A chart that loads appears once the script is there: the next run of its load ends with its
  instance, showing its option.
\<close>

theorem loaded_chart_appears:
  assumes "charts_reach s" and "(i, g) \<in> set (ct_loads s)" and "ct_global s = Usable"
    and "g = Spawned \<or> ct_promise s = Resolved" and "ch_alive (ct_charts s i)"
  shows "\<exists>s'. chart_step (Run i) s = Some s' \<and> ct_live s' i = Some (Some (ch_option (ct_charts s i)))"
proof -
  note d = charts_okD [OF charts_reach_ok [OF assms(1)]]
  have g: "map_of (ct_loads s) i = Some g" using d(1) assms(2) by simp
  have none: "ct_live s i = None" using d(3) [OF assms(2)] d(4) [of i] by simp
  have "chart_step (Run i) s = Some (finish_load i True s)"
    using assms(3,4) g by (cases g) (auto simp: chart_step_def ensure_echarts_loaded_def)
  moreover have "ct_live (finish_load i True s) i = Some (Some (ch_option (ct_charts s i)))"
    using assms(3,5) none by (simp add: chart_ops)
  ultimately show ?thesis by blast
qed

text \<open>
  A failed load is final for the page: from then on no chart is shown, and nothing that happens on
  the page adds the script again.
\<close>

definition script_facts :: "charts \<Rightarrow> bool" where
  "script_facts s \<longleftrightarrow> (ct_promise s \<noteq> Resolved \<longrightarrow> ct_global s = Absent)
     \<and> (\<forall>i. ch_chart (ct_charts s i) \<longrightarrow> ct_global s = Usable)"

lemma script_facts_ops:
  "script_facts s \<Longrightarrow> script_facts (start_load i s)" "script_facts s \<Longrightarrow> script_facts (finish_load i loaded s)"
  "script_facts s \<Longrightarrow> script_facts (cleanup i s)" "script_facts s \<Longrightarrow> script_facts (mount i w s)"
  "script_facts s \<Longrightarrow> script_facts (option_effect i (set_chart i ((ct_charts s i)\<lparr>ch_option := v\<rparr>) s))"
  "script_facts s \<Longrightarrow> script_facts (snd (ensure_echarts_loaded s))"
  by (auto simp: script_facts_def chart_ops)

lemma script_facts_step: "script_facts s \<Longrightarrow> chart_step ev s = Some s' \<Longrightarrow> script_facts s'"
proof (cases ev)
  case (Run i)
  assume facts: "script_facts s" and step: "chart_step ev s = Some s'"
  obtain b s1 where "ensure_echarts_loaded s = (b, s1)" by fastforce
  moreover from this have "script_facts s1" using script_facts_ops(6) [OF facts] by simp
  moreover from this have "script_facts (s1\<lparr>ct_loads := xs\<rparr>)" for xs by (simp add: script_facts_def)
  ultimately show ?thesis
    using step Run facts script_facts_ops(2)
    by (auto simp: chart_step_def split: option.splits load_stage.splits bool.splits if_splits)
next
  case (ScriptLoaded g)
  assume "script_facts s" "chart_step ev s = Some s'"
  then show ?thesis using ScriptLoaded by (fastforce simp: chart_step_def script_facts_def split: if_splits)
next
  case ScriptFailed
  assume "script_facts s" "chart_step ev s = Some s'"
  then show ?thesis using ScriptFailed by (auto simp: chart_step_def script_facts_def split: if_splits)
qed (auto simp: chart_step_def on_resize_def script_facts_ops split: if_splits)

theorem failed_load_is_final:
  assumes "charts_reach s" and "ct_promise s = Rejected"
  shows "ct_live s = Map.empty
    \<and> (\<forall>ev s'. chart_step ev s = Some s' \<longrightarrow> ct_promise s' = Rejected \<and> ct_scripts s' = ct_scripts s)"
proof -
  have "script_facts s"
    using assms(1)
  proof (induction rule: charts_reach.induct)
    case start
    show ?case by (simp add: script_facts_def charts_new_def chart_ui_new_def)
  qed (rule script_facts_step)
  then have absent: "ct_global s = Absent" "\<And>i. \<not> ch_chart (ct_charts s i)" using assms(2) by (auto simp: script_facts_def)
  then have "ct_live s = Map.empty" using charts_okD(4) [OF charts_reach_ok [OF assms(1)]] by (simp add: fun_eq_iff)
  moreover have "ct_promise s' = Rejected \<and> ct_scripts s' = ct_scripts s" if "chart_step ev s = Some s'" for ev s'
    using that assms(2) absent(1) by (auto simp: chart_step_def chart_ops split: chart_event.splits option.splits
        load_stage.splits if_splits)
  ultimately show ?thesis by blast
qed

section \<open>Witnesses\<close>

definition run_charts :: "chart_event list \<Rightarrow> charts option" where
  "run_charts evs = fold (\<lambda>ev s. Option.bind s (chart_step ev)) evs (Some charts_new)"

lemma run_charts_reach: "run_charts evs = Some s \<Longrightarrow> charts_reach s"
proof -
  have "fold (\<lambda>ev s. Option.bind s (chart_step ev)) evs a = Some s \<Longrightarrow> (\<And>x. a = Some x \<Longrightarrow> charts_reach x) \<Longrightarrow> charts_reach s"
    for a
  proof (induction evs arbitrary: a)
    case (Cons ev evs)
    then show ?case by (cases a) (auto intro: charts_reach.step)
  qed simp
  then show "run_charts evs = Some s \<Longrightarrow> charts_reach s" unfolding run_charts_def using charts_reach.start by blast
qed

text \<open>Two charts of a page that is left while the script is on its way.\<close>

definition demo_charts :: "chart_event list" where
  "demo_charts = [NewOption 0 (build_line_option [''d1''] [\<lparr>cs_name = ''Requests'', cs_data = [Integer 3]\<rparr>] False),
     Mount 0 600, Mount 1 0, Run 0, Resize 1 300, Run 1, Cleanup 1, ScriptLoaded Usable, Run 1, Run 0]"

theorem charts_do_not_leak_witness:
  "case run_charts demo_charts of None \<Rightarrow> False
   | Some s \<Rightarrow> ct_scripts s \<le> 1 \<and> ct_live s 0 \<noteq> None \<and> ct_live s 1 = None"
proof -
  have "case run_charts demo_charts of None \<Rightarrow> False
      | Some s \<Rightarrow> ch_chart (ct_charts s 0) \<and> ch_alive (ct_charts s 0) \<and> \<not> ch_alive (ct_charts s 1)"
    by code_simp
  then obtain s where s: "run_charts demo_charts = Some s" "ch_chart (ct_charts s 0)" "ch_alive (ct_charts s 0)"
      "\<not> ch_alive (ct_charts s 1)" by (auto split: option.splits)
  from charts_do_not_leak [OF run_charts_reach [OF s(1)]] s show ?thesis by auto
qed

theorem loaded_chart_appears_witness:
  "case run_charts [Mount 0 600, Run 0, ScriptLoaded Usable] of None \<Rightarrow> False
   | Some s \<Rightarrow> \<exists>s'. chart_step (Run 0) s = Some s' \<and> ct_live s' 0 = Some (Some Null)"
proof -
  have "case run_charts [Mount 0 600, Run 0, ScriptLoaded Usable] of None \<Rightarrow> False
      | Some s \<Rightarrow> ct_loads s = [(0, Awaiting)] \<and> ct_global s = Usable \<and> ct_promise s = Resolved
          \<and> ch_alive (ct_charts s 0) \<and> ch_option (ct_charts s 0) = Null"
    by code_simp
  then obtain s where s: "run_charts [Mount 0 600, Run 0, ScriptLoaded Usable] = Some s" "ct_loads s = [(0, Awaiting)]"
      "ct_global s = Usable" "ct_promise s = Resolved" "ch_alive (ct_charts s 0)" "ch_option (ct_charts s 0) = Null"
    by (auto split: option.splits)
  from loaded_chart_appears [OF run_charts_reach [OF s(1)], of 0 Awaiting] s show ?thesis by simp
qed

end
