(* ===== verification/Spec2Isabelle.thy ===== *)
theory Spec2Isabelle
  imports Auth_Race Lifecycle Analytics_Pool Watchdog Client_Entities Client_Reads Client_Charts
begin

text \<open>
  A verification development for \<open>ait\<close>, a proxy that offers one OpenAI-compatible API in front of
  several language model providers. This theory imports all others.

  \<^bold>\<open>The program.\<close> Requests under \<open>/v1\<close> pass the access log, key authentication and a body limit
  (\<open>src/src/main.rs\<close>, \<open>middleware.rs\<close>), are scanned for sensitive values (\<open>dlp.rs\<close>), resolved to a
  model and a provider through caches (\<open>handlers/proxy/resolve.rs\<close>, \<open>app.rs\<close>), built for the provider
  (\<open>providers/\<close>), checked against server-side request forgery (\<open>ssrf.rs\<close>) and forwarded over a client
  pinned to the checked addresses (\<open>handlers/proxy/exec.rs\<close>); the answer is relayed whole or as an
  event stream (\<open>handlers/proxy/sse.rs\<close>), and a guard writes one log entry (\<open>guard.rs\<close>). Requests
  under \<open>/api\<close> manage providers, models and keys (\<open>handlers/\<close>, \<open>db/store/\<close>) and read the logs
  (\<open>handlers/analytics.rs\<close>, \<open>logs.rs\<close>, \<open>stats.rs\<close>). Log events go over a bounded channel to a worker
  that writes them to DuckDB (\<open>db/logger.rs\<close>) and, when configured, to Loki (\<open>db/loki.rs\<close>); a pool
  of workers answers the queries (\<open>db/analytics.rs\<close>), each under a watchdog (\<open>db/watchdog.rs\<close>).
  The web console (\<open>src/frontend/src\<close>) runs in the browser: a client of the \<open>/api\<close> routes with a cache of
  answers (\<open>api.rs\<close>), local dates (\<open>time_utils.rs\<close>), and pages that hold their state in signals.

  \<^bold>\<open>The theories\<close>, each with the file it models:

  \<^item> \<open>Prelude\<close>: results as sums (\<open>and_then\<close>, \<open>map_err\<close>), texts as bytes, concurrent maps as
    association lists (\<open>dash_map\<close>), and the collections \<open>res_simps\<close> and \<open>dash_simps\<close>.
  \<^item> \<open>Net_Addr\<close>: addresses as words and the address rules of \<open>ssrf.rs\<close>; \<open>Json\<close>, \<open>Codec\<close>: the JSON
    values and byte codecs the code uses; \<open>Errors\<close>: \<open>error.rs\<close> and \<open>blocking.rs\<close>.
  \<^item> \<open>Config\<close> (\<open>config.rs\<close>), \<open>Dlp\<close> (\<open>dlp.rs\<close>, \<open>utils.rs\<close>), \<open>Db_Models\<close> (\<open>db/models.rs\<close>),
    \<open>Validate\<close> (\<open>handlers/mod.rs\<close> and the URL checks of \<open>handlers/providers.rs\<close>),
    \<open>Providers\<close> (\<open>providers/\<close>).
  \<^item> \<open>Store\<close>, \<open>Store_Facts\<close>: \<open>db/store.rs\<close> and its three files, tables as lists of rows, and the
    refinement of finite maps.
  \<^item> \<open>App\<close> (\<open>app.rs\<close>), \<open>Auth\<close> (\<open>middleware.rs\<close>), \<open>Auth_Race\<close> (lookups interleaved with key
    changes), \<open>Ssrf\<close> (resolution and pinned clients), \<open>Admin\<close>, \<open>Admin_Facts\<close>, \<open>Caches\<close> (the
    management handlers and what they keep of the caches).
  \<^item> \<open>Guard\<close>, \<open>Sse\<close>, \<open>Sse_Facts\<close>, \<open>Exec\<close>, \<open>Proxy_Api\<close>, \<open>Proxy_Facts\<close>: \<open>handlers/proxy/\<close>.
  \<^item> \<open>Logger\<close>, \<open>Loki\<close>, \<open>Analytics\<close>, \<open>Analytics_Pool\<close>, \<open>Watchdog\<close>: \<open>db/logger.rs\<close>, \<open>db/loki.rs\<close>,
    \<open>db/analytics.rs\<close> with its queries, and \<open>db/watchdog.rs\<close>.
  \<^item> \<open>Console\<close>: the read-only handlers; \<open>Server\<close>: the routes of \<open>main.rs\<close> and the whole path of a
    \<open>/v1\<close> request; \<open>Lifecycle\<close>: \<open>main\<close> from start to the last flush; \<open>Wire\<close>: the JSON of the management API.
  \<^item> The web console: \<open>Client_Time\<close> (\<open>time_utils.rs\<close>, the charts of \<open>pages/overview.rs\<close>), \<open>Client_Ui\<close>
    (\<open>i18n.rs\<close>, \<open>storage.rs\<close>, toasts, preferences), \<open>Client_Api\<close> and \<open>Client_Cache\<close> (\<open>api.rs\<close>, and reads
    and writes interleaved over its cache), \<open>Client_Calls\<close> (calls composed with their handlers),
    \<open>Client_Pages\<close> (\<open>pages/logs.rs\<close>, the range of \<open>overview.rs\<close>), \<open>Client_Forms\<close> (the forms of
    \<open>providers.rs\<close>, \<open>models.rs\<close> and \<open>apikeys.rs\<close>, \<open>components/table.rs\<close>, \<open>modal.rs\<close>), \<open>Client_Lists\<close>
    (the lists of these pages against the tables of the store), \<open>Client_Entities\<close> (their store, names,
    new keys, the cached provider types), \<open>Client_Reads\<close> (the query and answer of the log page over
    the wire), \<open>Client_Charts\<close> (\<open>components/echarts.rs\<close>, \<open>line_chart.rs\<close>, \<open>pie_chart.rs\<close>).

  \<^bold>\<open>How the code is modelled.\<close> A handler is a function of an environment, its arguments and the
  state; it returns its answer (a sum, the left side an HTTP error) and the new state. Everything
  the environment decides is an argument: clocks, random numbers, digests, which database
  statement fails, whether a blocking call ends in time, what DNS and an upstream answer. Code
  outside the repository is an argument too, with what is documented of it as a named law:
  JSON parsing and printing, the Aho-Corasick matcher, the URL parser, \<open>chrono\<close>'s
  \<open>from_timestamp\<close> (\<open>from_ts_law\<close>), DuckDB's conversions and orders (\<open>duck_law\<close>), the browser's calendar
  (\<open>calendar_law\<close>), its clock (\<open>clock_ok\<close>), and \<open>encodeURIComponent\<close> (\<open>encode_uri_law\<close>) with its inverse on
  the server (\<open>unescape_law\<close>). Concurrent code is a step relation:
  key changes against lookups (\<open>Auth_Race\<close>), the analytics pool, the watchdog, the console's cache
  against writes. A page of the console is a record of its signals with a function per event.
  Integers keep their width where it matters: addresses, revisions and counters are words, token
  counts and offsets saturate or wrap as written.

  \<^bold>\<open>What is shown.\<close> The store keeps its tables well formed under any failures and implements
  finite maps; a failed write changes nothing. A request is forwarded only with a valid key, after
  every check, and to checked addresses, is logged exactly once, and never makes the proxy panic;
  no text of an upstream error and no unsafe header reaches a client. Caches answer what the
  database answers. A stream relays its input without loss or reordering, ends by its deadlines,
  and its incremental search finds what a full scan finds. The log and Loki workers lose nothing
  silently; a shutdown of the analytics pool answers every request; paging shows every row once;
  the numbers of the overview agree; query ranges and page offsets are bounded. The configuration
  is accepted exactly when every check passes. Between console and server: a change made in the
  console is the change its handler makes, and its answer or error is what the console shows; the
  charts add up to the server's totals; the line under the log table names the rows of the table;
  dates are read back as printed; a form sends only what its check lets through and adds a row
  once; a list patched by a change is the list a new read would give; a created key is shown
  once, as the key that works; the server reads the query the log page built, and the page
  decodes the rows it wrote; the charts load their script once and leave no instance. Negative results are theorems as well: a deleted key can be cached again
  (\<open>revoked_key_race\<close>), a watchdog can interrupt an operation that is in time (\<open>watchdog_race\<close>), an
  overtaken read leaves the console's cache stale (\<open>stale_read_race\<close>), one early bucket empties a
  chart (\<open>chart_lost_before_start\<close>), choosing the shown end date drops that day
  (\<open>end_date_drops_day\<close>), renaming a key sets its expiry (\<open>key_edit_sets_expiry\<close>), provider types
  are kept an hour whatever is written (\<open>types_kept_an_hour\<close>), switching the language aborts
  (\<open>language_switch_aborts\<close>).

  \<^bold>\<open>Bounds.\<close> No definition uses fuel. Loops over unbounded input (the client polling a stream, the
  workers' loops) are functions of the list of what they receive, or step relations; that they
  end is a theorem about every such list or run, with an explicit bound on the steps.

  \<^bold>\<open>Not modelled.\<close> The socket, the set-up of tracing, and static files: input and output without logic
  of their own. The file and environment layers of the configuration (a crate). The floating-point
  rates of the overview. Of the console: markup and style, the chart library, the router, the
  clipboard, and the printing of costs and ages in cells.
\<close>

end
